theory Spec2Isabelle
  imports Complex_Main
begin

section \<open>Configuration models (python\_bot/config/models.py)\<close>

text \<open>
  The configuration classes are Pydantic models. Each class is a record; the keyword
  arguments of its constructor are a second record whose fields are optional (\<open>None\<close>:
  the argument is not given and the declared default is taken). A constructor returns
  \<open>Inr\<close> the object, or \<open>Inl\<close> the locations of the fields whose validation failed
  (Pydantic's \<open>ValidationError\<close>). As in Pydantic, a default is not validated, a
  supplied value is checked against the \<open>ge\<close>/\<open>le\<close> bounds of its \<open>Field\<close>, and a
  nested model may be given as its keyword arguments.
\<close>

type_synonym validation_error = "string list"

definition errs_of :: "validation_error + 'a \<Rightarrow> validation_error" where
  "errs_of r = (case r of Inl e \<Rightarrow> e | Inr _ \<Rightarrow> [])"

definition at_loc :: "string \<Rightarrow> validation_error + 'a \<Rightarrow> validation_error" where
  "at_loc name r = map (\<lambda>l. name @ ''.'' @ l) (errs_of r)"

text \<open>\<open>Field(default=d, ge=g, le=l)\<close> on an \<open>int\<close> field; an absent bound is \<open>None\<close>.\<close>

definition int_field :: "string \<Rightarrow> int \<Rightarrow> int option \<Rightarrow> int option \<Rightarrow> int option \<Rightarrow> validation_error + int" where
  "int_field name dflt ge le v =
     (case v of
        None \<Rightarrow> Inr dflt
      | Some x \<Rightarrow>
          if (case ge of Some g \<Rightarrow> x < g | None \<Rightarrow> False) then Inl [name]
          else if (case le of Some l \<Rightarrow> l < x | None \<Rightarrow> False) then Inl [name]
          else Inr x)"

definition plain_field :: "'a \<Rightarrow> 'a option \<Rightarrow> validation_error + 'a" where
  "plain_field dflt v = Inr (case v of None \<Rightarrow> dflt | Some x \<Rightarrow> x)"

record ViewportConfig =
  width :: int
  height :: int

record ViewportConfig_kw =
  kw_width :: "int option"
  kw_height :: "int option"

definition ViewportConfig_init :: "ViewportConfig_kw \<Rightarrow> validation_error + ViewportConfig" where
  "ViewportConfig_init kw =
     (let w = int_field ''width'' 1366 (Some 800) (Some 3840) (kw_width kw);
          h = int_field ''height'' 768 (Some 600) (Some 2160) (kw_height kw);
          errs = errs_of w @ errs_of h
      in if errs = [] then Inr \<lparr>width = projr w, height = projr h\<rparr> else Inl errs)"

record BrowserConfig =
  headless :: bool
  browser_timeout :: int
  args :: "string list"

record BrowserConfig_kw =
  kw_headless :: "bool option"
  kw_browser_timeout :: "int option"
  kw_args :: "string list option"

definition BrowserConfig_init :: "BrowserConfig_kw \<Rightarrow> validation_error + BrowserConfig" where
  "BrowserConfig_init kw =
     (let h = plain_field True (kw_headless kw);
          t = int_field ''timeout'' 60000 (Some 5000) (Some 120000) (kw_browser_timeout kw);
          a = plain_field [''--no-sandbox'', ''--disable-dev-shm-usage'', ''--disable-gpu''] (kw_args kw);
          errs = errs_of h @ errs_of t @ errs_of a
      in if errs = [] then Inr \<lparr>headless = projr h, browser_timeout = projr t, args = projr a\<rparr>
         else Inl errs)"

record ContextConfig =
  user_agent :: string
  viewport :: ViewportConfig
  context_timeout :: int

record ContextConfig_kw =
  kw_user_agent :: "string option"
  kw_viewport :: "ViewportConfig_kw option"
  kw_context_timeout :: "int option"

definition no_ViewportConfig_kw :: ViewportConfig_kw where
  "no_ViewportConfig_kw = \<lparr>kw_width = None, kw_height = None\<rparr>"

definition ContextConfig_init :: "ContextConfig_kw \<Rightarrow> validation_error + ContextConfig" where
  "ContextConfig_init kw =
     (let u = plain_field
                (''Mozilla/5.0 (Windows NT 10.0; Win64; x64) '' @
                 ''AppleWebKit/537.36 (KHTML, like Gecko) '' @
                 ''Chrome/120.0.0.0 Safari/537.36'') (kw_user_agent kw);
          v = ViewportConfig_init (case kw_viewport kw of None \<Rightarrow> no_ViewportConfig_kw | Some k \<Rightarrow> k);
          t = int_field ''timeout'' 30000 (Some 5000) (Some 60000) (kw_context_timeout kw);
          errs = errs_of u @ at_loc ''viewport'' v @ errs_of t
      in if errs = [] then Inr \<lparr>user_agent = projr u, viewport = projr v, context_timeout = projr t\<rparr>
         else Inl errs)"

record PageConfig =
  default_timeout :: int
  navigation_timeout :: int
  wait_until :: string

record PageConfig_kw =
  kw_default_timeout :: "int option"
  kw_navigation_timeout :: "int option"
  kw_wait_until :: "string option"

text \<open>\<open>Literal['load', 'domcontentloaded', 'networkidle']\<close> with default \<open>'networkidle'\<close>.\<close>

definition wait_until_field :: "string option \<Rightarrow> validation_error + string" where
  "wait_until_field v =
     (case v of
        None \<Rightarrow> Inr ''networkidle''
      | Some x \<Rightarrow>
          if x \<in> set [''load'', ''domcontentloaded'', ''networkidle''] then Inr x
          else Inl [''wait_until''])"

definition PageConfig_init :: "PageConfig_kw \<Rightarrow> validation_error + PageConfig" where
  "PageConfig_init kw =
     (let d = int_field ''default_timeout'' 30000 (Some 5000) (Some 60000) (kw_default_timeout kw);
          n = int_field ''navigation_timeout'' 30000 (Some 5000) (Some 60000) (kw_navigation_timeout kw);
          w = wait_until_field (kw_wait_until kw);
          errs = errs_of d @ errs_of n @ errs_of w
      in if errs = [] then Inr \<lparr>default_timeout = projr d, navigation_timeout = projr n, wait_until = projr w\<rparr>
         else Inl errs)"

record ConcurrencyConfig =
  max_bots :: int
  min_bots :: int
  default_bots :: int

record ConcurrencyConfig_kw =
  kw_max_bots :: "int option"
  kw_min_bots :: "int option"
  kw_default_bots :: "int option"

definition ConcurrencyConfig_init :: "ConcurrencyConfig_kw \<Rightarrow> validation_error + ConcurrencyConfig" where
  "ConcurrencyConfig_init kw =
     (let a = int_field ''max_bots'' 10 (Some 1) (Some 100) (kw_max_bots kw);
          b = int_field ''min_bots'' 1 (Some 1) None (kw_min_bots kw);
          c = int_field ''default_bots'' 1 (Some 1) None (kw_default_bots kw);
          errs = errs_of a @ errs_of b @ errs_of c
      in if errs = [] then Inr \<lparr>max_bots = projr a, min_bots = projr b, default_bots = projr c\<rparr>
         else Inl errs)"

record ActionConfig =
  enabled :: bool
  wait_time :: int

record ActionConfig_kw =
  kw_enabled :: "bool option"
  kw_wait_time :: "int option"

definition ActionConfig_init :: "ActionConfig_kw \<Rightarrow> validation_error + ActionConfig" where
  "ActionConfig_init kw =
     (let e = plain_field True (kw_enabled kw);
          w = int_field ''wait_time'' 1000 (Some 0) (Some 10000) (kw_wait_time kw);
          errs = errs_of e @ errs_of w
      in if errs = [] then Inr \<lparr>enabled = projr e, wait_time = projr w\<rparr> else Inl errs)"

record TestingConfig =
  default_url :: string
  retry_attempts :: int
  retry_delay :: int
  scroll :: ActionConfig
  link_click :: ActionConfig
  form_interaction :: ActionConfig

record TestingConfig_kw =
  kw_default_url :: "string option"
  kw_retry_attempts :: "int option"
  kw_retry_delay :: "int option"
  kw_scroll :: "ActionConfig_kw option"
  kw_link_click :: "ActionConfig_kw option"
  kw_form_interaction :: "ActionConfig_kw option"

text \<open>
  \<open>default_url: HttpUrl\<close>: whether a supplied string is an HTTP URL is decided by
  Pydantic; the model takes that test as the parameter \<open>is_http_url\<close>. The default
  factories of the three action fields are \<open>ActionConfig()\<close>,
  \<open>ActionConfig(wait_time=2000)\<close> and \<open>ActionConfig(wait_time=500)\<close>.
\<close>

definition http_url_field :: "(string \<Rightarrow> bool) \<Rightarrow> string option \<Rightarrow> validation_error + string" where
  "http_url_field is_http_url v =
     (case v of
        None \<Rightarrow> Inr ''https://hasanarthuraltuntas.com.tr''
      | Some x \<Rightarrow> if is_http_url x then Inr x else Inl [''default_url''])"

definition TestingConfig_init :: "(string \<Rightarrow> bool) \<Rightarrow> TestingConfig_kw \<Rightarrow> validation_error + TestingConfig" where
  "TestingConfig_init is_http_url kw =
     (let u = http_url_field is_http_url (kw_default_url kw);
          a = int_field ''retry_attempts'' 3 (Some 0) (Some 10) (kw_retry_attempts kw);
          d = int_field ''retry_delay'' 1000 (Some 100) (Some 10000) (kw_retry_delay kw);
          s = ActionConfig_init (case kw_scroll kw of
                None \<Rightarrow> \<lparr>kw_enabled = None, kw_wait_time = None\<rparr> | Some k \<Rightarrow> k);
          l = ActionConfig_init (case kw_link_click kw of
                None \<Rightarrow> \<lparr>kw_enabled = None, kw_wait_time = Some 2000\<rparr> | Some k \<Rightarrow> k);
          f = ActionConfig_init (case kw_form_interaction kw of
                None \<Rightarrow> \<lparr>kw_enabled = None, kw_wait_time = Some 500\<rparr> | Some k \<Rightarrow> k);
          errs = errs_of u @ errs_of a @ errs_of d @ at_loc ''scroll'' s @ at_loc ''link_click'' l
                 @ at_loc ''form_interaction'' f
      in if errs = [] then
           Inr \<lparr>default_url = projr u, retry_attempts = projr a, retry_delay = projr d,
                scroll = projr s, link_click = projr l, form_interaction = projr f\<rparr>
         else Inl errs)"

text \<open>The fields \<open>browser\<close>, \<open>context\<close>, \<open>page\<close>, \<open>concurrency\<close> and \<open>testing\<close>.\<close>

record BotConfig =
  cfg_browser :: BrowserConfig
  cfg_context :: ContextConfig
  cfg_page :: PageConfig
  cfg_concurrency :: ConcurrencyConfig
  cfg_testing :: TestingConfig

record BotConfig_kw =
  kw_browser :: "BrowserConfig_kw option"
  kw_context :: "ContextConfig_kw option"
  kw_page :: "PageConfig_kw option"
  kw_concurrency :: "ConcurrencyConfig_kw option"
  kw_testing :: "TestingConfig_kw option"

definition BotConfig_init :: "(string \<Rightarrow> bool) \<Rightarrow> BotConfig_kw \<Rightarrow> validation_error + BotConfig" where
  "BotConfig_init is_http_url kw =
     (let b = BrowserConfig_init (case kw_browser kw of
                None \<Rightarrow> \<lparr>kw_headless = None, kw_browser_timeout = None, kw_args = None\<rparr> | Some k \<Rightarrow> k);
          c = ContextConfig_init (case kw_context kw of
                None \<Rightarrow> \<lparr>kw_user_agent = None, kw_viewport = None, kw_context_timeout = None\<rparr>
              | Some k \<Rightarrow> k);
          p = PageConfig_init (case kw_page kw of
                None \<Rightarrow> \<lparr>kw_default_timeout = None, kw_navigation_timeout = None, kw_wait_until = None\<rparr>
              | Some k \<Rightarrow> k);
          n = ConcurrencyConfig_init (case kw_concurrency kw of
                None \<Rightarrow> \<lparr>kw_max_bots = None, kw_min_bots = None, kw_default_bots = None\<rparr> | Some k \<Rightarrow> k);
          t = TestingConfig_init is_http_url (case kw_testing kw of
                None \<Rightarrow> \<lparr>kw_default_url = None, kw_retry_attempts = None, kw_retry_delay = None,
                         kw_scroll = None, kw_link_click = None, kw_form_interaction = None\<rparr>
              | Some k \<Rightarrow> k);
          errs = at_loc ''browser'' b @ at_loc ''context'' c @ at_loc ''page'' p
                 @ at_loc ''concurrency'' n @ at_loc ''testing'' t
      in if errs = [] then
           Inr \<lparr>cfg_browser = projr b, cfg_context = projr c, cfg_page = projr p,
                cfg_concurrency = projr n, cfg_testing = projr t\<rparr>
         else Inl errs)"

text \<open>\<open>BotConfig()\<close>: every argument absent.\<close>

definition no_BotConfig_kw :: BotConfig_kw where
  "no_BotConfig_kw =
     \<lparr>kw_browser = None, kw_context = None, kw_page = None, kw_concurrency = None, kw_testing = None\<rparr>"


section \<open>The bot (python\_bot/core/bot.py)\<close>

subsection \<open>Python values, exceptions and the dataclasses\<close>

text \<open>
  Values of Python's type \<open>Any\<close> (the entries of an action dictionary, the data a page
  script returns). The dataclasses do not check the types of their fields, so the fields
  of \<open>PageAnalysis\<close> hold what the page script returned.
\<close>

datatype pyval =
  PyNone
| PyBool bool
| PyInt int
| PyFloat real
| PyStr string
| PyList "pyval list"
| PyDict "(string \<times> pyval) list"

text \<open>
  Exceptions of class \<open>Exception\<close>, the class that every handler of the module catches.
  \<open>OtherError c m\<close> is an exception of class \<open>c\<close> raised by a collaborator, with
  \<open>str(error) = m\<close>. \<open>KeyboardInterrupt\<close>, \<open>SystemExit\<close> and task cancellation are
  not of class \<open>Exception\<close>; interrupting the process from outside is not modelled.
\<close>

datatype exn =
  RuntimeError string
| KeyError string
| TypeError string
| AttributeError string
| OtherError string string

text \<open>\<open>str(error)\<close>; for a \<open>KeyError\<close> it is the \<open>repr\<close> of the missing key.\<close>

fun str_exn :: "exn \<Rightarrow> string" where
  "str_exn (RuntimeError m) = m"
| "str_exn (KeyError k) = [CHR 0x27] @ k @ [CHR 0x27]"
| "str_exn (TypeError m) = m"
| "str_exn (AttributeError m) = m"
| "str_exn (OtherError c m) = m"

text \<open>Times are the microseconds of \<open>datetime.now()\<close>.\<close>

record ActionResult =
  action_type :: string
  status :: string
  message :: string
  timestamp :: int
  details :: "pyval option"

record PageAnalysis =
  pa_title :: pyval
  pa_url :: pyval
  pa_link_count :: pyval
  pa_form_count :: pyval
  pa_button_count :: pyval
  pa_input_count :: pyval
  pa_image_count :: pyval
  pa_has_service_worker :: pyval
  pa_viewport :: pyval
  pa_scroll_height :: pyval
  pa_links :: pyval
  pa_forms :: pyval

text \<open>
  An entry of \<open>BotReport.errors\<close> is a dictionary with the keys \<open>type\<close>, \<open>message\<close>,
  \<open>timestamp\<close> and, for a custom action, \<open>action\<close> (\<open>e_action = None\<close>: the key is
  absent).
\<close>

record error_entry =
  e_type :: string
  e_action :: "pyval option"
  e_message :: string
  e_timestamp :: int

record BotReport =
  success :: bool
  actions :: "ActionResult list"
  errors :: "error_entry list"
  analysis :: "PageAnalysis option"
  performance :: "string \<rightharpoonup> real"

definition new_BotReport :: "bool \<Rightarrow> BotReport" where
  "new_BotReport b = \<lparr>success = b, actions = [], errors = [], analysis = None, performance = Map.empty\<rparr>"

text \<open>The dictionary passed to the observer \<open>on_update\<close>.\<close>

record update =
  u_type :: string
  u_message :: string
  u_url :: "string option"
  u_analysis :: "PageAnalysis option"

definition plain_update :: "string \<Rightarrow> string \<Rightarrow> update" where
  "plain_update t m = \<lparr>u_type = t, u_message = m, u_url = None, u_analysis = None\<rparr>"

subsection \<open>The collaborators\<close>

text \<open>
  The browser engine, the clock, the observer and the formatting built-ins of Python are
  not code of this module. They are the environment \<open>env\<close>: every operation takes the
  state \<open>'w\<close> of the outside world and returns its result, or the exception it raises,
  with the new state of the world. An acquisition that the module tests for truth
  (\<open>if not self._browser\<close>) returns an optional handle.
\<close>

type_synonym handle = nat

datatype script = AnalyzeScript | ScrollScript

record Response =
  timing :: "string \<rightharpoonup> real"

record 'w env =
  now :: "'w \<Rightarrow> int \<times> 'w"
  pw_start :: "'w \<Rightarrow> (exn + handle) \<times> 'w"
  launch :: "handle \<Rightarrow> bool \<Rightarrow> int \<Rightarrow> string list \<Rightarrow> 'w \<Rightarrow> (exn + handle option) \<times> 'w"
  new_context :: "handle \<Rightarrow> string \<Rightarrow> int \<Rightarrow> int \<Rightarrow> 'w \<Rightarrow> (exn + handle option) \<times> 'w"
  new_page :: "handle \<Rightarrow> 'w \<Rightarrow> (exn + handle option) \<times> 'w"
  set_default_timeout :: "handle \<Rightarrow> int \<Rightarrow> 'w \<Rightarrow> (exn + unit) \<times> 'w"
  goto :: "handle \<Rightarrow> string \<Rightarrow> string \<Rightarrow> int \<Rightarrow> 'w \<Rightarrow> (exn + Response option) \<times> 'w"
  page_url :: "handle \<Rightarrow> 'w \<Rightarrow> string"
  evaluate :: "handle \<Rightarrow> script \<Rightarrow> 'w \<Rightarrow> (exn + pyval) \<times> 'w"
  wait_for_timeout :: "handle \<Rightarrow> pyval \<Rightarrow> 'w \<Rightarrow> (exn + unit) \<times> 'w"
  click :: "handle \<Rightarrow> pyval \<Rightarrow> 'w \<Rightarrow> (exn + unit) \<times> 'w"
  fill :: "handle \<Rightarrow> pyval \<Rightarrow> pyval \<Rightarrow> 'w \<Rightarrow> (exn + unit) \<times> 'w"
  page_close :: "handle \<Rightarrow> 'w \<Rightarrow> (exn + unit) \<times> 'w"
  context_close :: "handle \<Rightarrow> 'w \<Rightarrow> (exn + unit) \<times> 'w"
  browser_close :: "handle \<Rightarrow> 'w \<Rightarrow> (exn + unit) \<times> 'w"
  pw_stop :: "handle \<Rightarrow> 'w \<Rightarrow> (exn + unit) \<times> 'w"
  py_format :: "pyval \<Rightarrow> string"
  py_format_0f :: "real \<Rightarrow> string"
  py_init_type_error :: "pyval \<Rightarrow> string"

type_synonym 'w observer = "update \<Rightarrow> 'w \<Rightarrow> exn option \<times> 'w"

text \<open>
  What the module does to the outside is kept as a log: every call of a collaborator
  with what it returned or raised, every line printed, every notification of the
  observer with the exception it raised, if any.
\<close>

datatype call =
  PwStart
| Launch handle bool int "string list"
| NewContext handle string int int
| NewPage handle
| SetDefaultTimeout handle int
| Goto handle string string int
| Evaluate handle script
| WaitForTimeout handle pyval
| Click handle pyval
| Fill handle pyval pyval
| PageClose handle
| ContextClose handle
| BrowserClose handle
| PwStop handle

datatype ret = RetNone | RetHandle "handle option" | RetResponse "Response option" | RetValue pyval

datatype event =
  Call call "exn + ret"
| Print string
| Notify update "exn option"

subsection \<open>State, exceptions and control flow\<close>

text \<open>
  The state of a run: the attributes of the \<open>WebBot\<close> object, the \<open>BotReport\<close> that
  \<open>run_test\<close> creates and hands by reference to the methods it calls, the outside
  world and the log. A method is a function from the state to its result, \<open>Inl\<close> the
  exception it raises, and the new state; a raise keeps the state reached.
\<close>

record 'w bot =
  config :: BotConfig
  self_browser :: "handle option"
  self_context :: "handle option"
  self_page :: "handle option"
  self_playwright :: "handle option"
  report :: BotReport
  world :: 'w
  trace :: "event list"

type_synonym ('a, 'w) prog = "'w bot \<Rightarrow> (exn + 'a) \<times> 'w bot"

definition returnE :: "'a \<Rightarrow> ('a, 'w) prog" where
  "returnE x s = (Inr x, s)"

definition raiseE :: "exn \<Rightarrow> ('a, 'w) prog" where
  "raiseE e s = (Inl e, s)"

definition bindE :: "('a, 'w) prog \<Rightarrow> ('a \<Rightarrow> ('b, 'w) prog) \<Rightarrow> ('b, 'w) prog" where
  "bindE m f s = (case m s of (Inl e, s') \<Rightarrow> (Inl e, s') | (Inr x, s') \<Rightarrow> f x s')"

definition thenE :: "('a, 'w) prog \<Rightarrow> ('b, 'w) prog \<Rightarrow> ('b, 'w) prog" where
  "thenE m n = bindE m (\<lambda>_. n)"

text \<open>\<open>try: m except Exception as error: h error\<close>\<close>

definition try_except :: "('a, 'w) prog \<Rightarrow> (exn \<Rightarrow> ('a, 'w) prog) \<Rightarrow> ('a, 'w) prog" where
  "try_except m h s = (case m s of (Inl e, s') \<Rightarrow> h e s' | (Inr x, s') \<Rightarrow> (Inr x, s'))"

text \<open>
  \<open>try: m finally: fin\<close>: \<open>fin\<close> runs after \<open>m\<close> whatever its outcome; the outcome of
  \<open>m\<close> stands unless \<open>fin\<close> raises.
\<close>

definition try_finally :: "('a, 'w) prog \<Rightarrow> (unit, 'w) prog \<Rightarrow> ('a, 'w) prog" where
  "try_finally m fin s =
     (case m s of (r, s') \<Rightarrow> (case fin s' of (Inl e, s'') \<Rightarrow> (Inl e, s'') | (Inr _, s'') \<Rightarrow> (r, s'')))"

definition gets :: "('w bot \<Rightarrow> 'a) \<Rightarrow> ('a, 'w) prog" where
  "gets f s = (Inr (f s), s)"

definition modify :: "('w bot \<Rightarrow> 'w bot) \<Rightarrow> (unit, 'w) prog" where
  "modify f s = (Inr (), f s)"

text \<open>A call of a collaborator: the world moves on and the call is logged with its outcome.\<close>

definition ext_call :: "call \<Rightarrow> ('w \<Rightarrow> (exn + 'a) \<times> 'w) \<Rightarrow> ('a \<Rightarrow> ret) \<Rightarrow> ('a, 'w) prog" where
  "ext_call c f r s =
     (case f (world s) of
        (res, w') \<Rightarrow> (res, s\<lparr>world := w', trace := trace s @ [Call c (map_sum id r res)]\<rparr>))"

definition datetime_now :: "'w env \<Rightarrow> (int, 'w) prog" where
  "datetime_now env s = (case now env (world s) of (t, w') \<Rightarrow> (Inr t, s\<lparr>world := w'\<rparr>))"

definition print :: "string \<Rightarrow> (unit, 'w) prog" where
  "print m s = (Inr (), s\<lparr>trace := trace s @ [Print m]\<rparr>)"

text \<open>\<open>if on_update: on_update(u)\<close>\<close>

definition notify :: "'w observer option \<Rightarrow> update \<Rightarrow> (unit, 'w) prog" where
  "notify on_update u s =
     (case on_update of
        None \<Rightarrow> (Inr (), s)
      | Some f \<Rightarrow>
          (case f u (world s) of
             (r, w') \<Rightarrow>
               ((case r of None \<Rightarrow> Inr () | Some e \<Rightarrow> Inl e),
                s\<lparr>world := w', trace := trace s @ [Notify u r]\<rparr>)))"

text \<open>\<open>self._page.attr\<close>: an attribute of \<open>None\<close> raises \<open>AttributeError\<close>.\<close>

definition page_attr :: "string \<Rightarrow> (handle, 'w) prog" where
  "page_attr attr s =
     (case self_page s of
        None \<Rightarrow> (Inl (AttributeError (''NoneType object has no attribute '' @ attr)), s)
      | Some p \<Rightarrow> (Inr p, s))"

definition append_action :: "ActionResult \<Rightarrow> (unit, 'w) prog" where
  "append_action a = modify (\<lambda>s. s\<lparr>report := (report s)\<lparr>actions := actions (report s) @ [a]\<rparr>\<rparr>)"

definition append_error :: "error_entry \<Rightarrow> (unit, 'w) prog" where
  "append_error e = modify (\<lambda>s. s\<lparr>report := (report s)\<lparr>errors := errors (report s) @ [e]\<rparr>\<rparr>)"

text \<open>\<open>ActionResult(action_type=t, status=st, message=m)\<close>: the timestamp is read at construction.\<close>

definition new_ActionResult :: "'w env \<Rightarrow> string \<Rightarrow> string \<Rightarrow> string \<Rightarrow> (ActionResult, 'w) prog" where
  "new_ActionResult env t st m =
     bindE (datetime_now env) (\<lambda>ts.
       returnE \<lparr>action_type = t, status = st, message = m, timestamp = ts, details = None\<rparr>)"

subsection \<open>The methods of \<open>WebBot\<close>\<close>

text \<open>\<open>WebBot(config)\<close>: \<open>config or BotConfig()\<close>, and no handle.\<close>

definition WebBot_init :: "(string \<Rightarrow> bool) \<Rightarrow> BotConfig option \<Rightarrow> 'w \<Rightarrow> 'w bot" where
  "WebBot_init is_http_url cfg w =
     \<lparr>config = (case cfg of Some c \<Rightarrow> c | None \<Rightarrow> projr (BotConfig_init is_http_url no_BotConfig_kw)),
      self_browser = None, self_context = None, self_page = None, self_playwright = None,
      report = new_BotReport False, world = w, trace = []\<rparr>"

text \<open>\<open>cleanup\<close> (lines 317 to 349).\<close>

definition cleanup :: "'w env \<Rightarrow> (unit, 'w) prog" where
  "cleanup env =
     thenE
       (bindE (gets self_page) (\<lambda>h. case h of
            None \<Rightarrow> returnE ()
          | Some p \<Rightarrow>
              try_finally
                (try_except (ext_call (PageClose p) (page_close env p) (\<lambda>_. RetNone))
                   (\<lambda>error. print (''[WARN] Page cleanup error: '' @ str_exn error)))
                (modify (\<lambda>s. s\<lparr>self_page := None\<rparr>))))
    (thenE
       (bindE (gets self_context) (\<lambda>h. case h of
            None \<Rightarrow> returnE ()
          | Some c \<Rightarrow>
              try_finally
                (try_except (ext_call (ContextClose c) (context_close env c) (\<lambda>_. RetNone))
                   (\<lambda>error. print (''[WARN] Context cleanup error: '' @ str_exn error)))
                (modify (\<lambda>s. s\<lparr>self_context := None\<rparr>))))
    (thenE
       (bindE (gets self_browser) (\<lambda>h. case h of
            None \<Rightarrow> returnE ()
          | Some b \<Rightarrow>
              try_finally
                (try_except (ext_call (BrowserClose b) (browser_close env b) (\<lambda>_. RetNone))
                   (\<lambda>error. print (''[WARN] Browser cleanup error: '' @ str_exn error)))
                (modify (\<lambda>s. s\<lparr>self_browser := None\<rparr>))))
       (bindE (gets self_playwright) (\<lambda>h. case h of
            None \<Rightarrow> returnE ()
          | Some pw \<Rightarrow>
              try_finally
                (try_except (ext_call (PwStop pw) (pw_stop env pw) (\<lambda>_. RetNone))
                   (\<lambda>error. print (''[WARN] Playwright cleanup error: '' @ str_exn error)))
                (modify (\<lambda>s. s\<lparr>self_playwright := None\<rparr>))))))"

text \<open>\<open>initialize\<close> (lines 68 to 107).\<close>

definition initialize :: "'w env \<Rightarrow> (bool, 'w) prog" where
  "initialize env =
     try_except
       (thenE (cleanup env)
       (bindE (ext_call PwStart (pw_start env) (\<lambda>h. RetHandle (Some h))) (\<lambda>pw.
        thenE (modify (\<lambda>s. s\<lparr>self_playwright := Some pw\<rparr>))
       (bindE (gets (\<lambda>s. cfg_browser (config s))) (\<lambda>bc.
        bindE (ext_call (Launch pw (headless bc) (browser_timeout bc) (args bc))
                 (launch env pw (headless bc) (browser_timeout bc) (args bc)) RetHandle) (\<lambda>b.
        thenE (modify (\<lambda>s. s\<lparr>self_browser := b\<rparr>))
        (case b of
           None \<Rightarrow> raiseE (RuntimeError ''Browser initialization failed'')
         | Some bh \<Rightarrow>
       (bindE (gets (\<lambda>s. cfg_context (config s))) (\<lambda>cc.
        bindE (ext_call (NewContext bh (user_agent cc) (width (viewport cc)) (height (viewport cc)))
                 (new_context env bh (user_agent cc) (width (viewport cc)) (height (viewport cc)))
                 RetHandle) (\<lambda>c.
        thenE (modify (\<lambda>s. s\<lparr>self_context := c\<rparr>))
        (case c of
           None \<Rightarrow> raiseE (RuntimeError ''Context creation failed'')
         | Some ch \<Rightarrow>
       (bindE (ext_call (NewPage ch) (new_page env ch) RetHandle) (\<lambda>p.
        thenE (modify (\<lambda>s. s\<lparr>self_page := p\<rparr>))
        (case p of
           None \<Rightarrow> raiseE (RuntimeError ''Page creation failed'')
         | Some ph \<Rightarrow>
       (bindE (gets (\<lambda>s. default_timeout (cfg_page (config s)))) (\<lambda>t.
        thenE (ext_call (SetDefaultTimeout ph t) (set_default_timeout env ph t) (\<lambda>_. RetNone))
          (returnE True)))))))))))))))))
       (\<lambda>error.
          thenE (print (''[ERROR] Browser initialization failed: '' @ str_exn error))
         (thenE (cleanup env)
            (returnE False)))"

text \<open>
  \<open>PageAnalysis(**data)\<close>: the generated \<open>__init__\<close> takes exactly the twelve field
  names as keywords, none has a default; anything else raises \<open>TypeError\<close>, whose text
  is the interpreter's.
\<close>

definition PageAnalysis_fields :: "string list" where
  "PageAnalysis_fields =
     [''title'', ''url'', ''link_count'', ''form_count'', ''button_count'', ''input_count'',
      ''image_count'', ''has_service_worker'', ''viewport'', ''scroll_height'', ''links'', ''forms'']"

definition PageAnalysis_init :: "'w env \<Rightarrow> pyval \<Rightarrow> exn + PageAnalysis" where
  "PageAnalysis_init env data =
     (case data of
        PyDict kvs \<Rightarrow>
          if set (map fst kvs) = set PageAnalysis_fields then
            Inr \<lparr>pa_title = the (map_of kvs ''title''),
                 pa_url = the (map_of kvs ''url''),
                 pa_link_count = the (map_of kvs ''link_count''),
                 pa_form_count = the (map_of kvs ''form_count''),
                 pa_button_count = the (map_of kvs ''button_count''),
                 pa_input_count = the (map_of kvs ''input_count''),
                 pa_image_count = the (map_of kvs ''image_count''),
                 pa_has_service_worker = the (map_of kvs ''has_service_worker''),
                 pa_viewport = the (map_of kvs ''viewport''),
                 pa_scroll_height = the (map_of kvs ''scroll_height''),
                 pa_links = the (map_of kvs ''links''),
                 pa_forms = the (map_of kvs ''forms'')\<rparr>
          else Inl (TypeError (py_init_type_error env data))
      | _ \<Rightarrow> Inl (TypeError (py_init_type_error env data)))"

text \<open>
  \<open>analyze_page\<close> (lines 201 to 244). \<open>AnalyzeScript\<close> is the script of lines 206 to
  242, \<open>ScrollScript\<close> the one of line 256.
\<close>

definition analyze_page :: "'w env \<Rightarrow> (PageAnalysis, 'w) prog" where
  "analyze_page env =
     bindE (gets self_page) (\<lambda>h.
       if h = None then raiseE (RuntimeError ''Page not initialized'')
       else
         bindE (page_attr ''evaluate'') (\<lambda>p.
         bindE (ext_call (Evaluate p AnalyzeScript) (evaluate env p AnalyzeScript) RetValue) (\<lambda>data.
           case PageAnalysis_init env data of
             Inl e \<Rightarrow> raiseE e
           | Inr a \<Rightarrow> returnE a)))"

text \<open>\<open>perform_automated_actions\<close> (lines 246 to 273).\<close>

definition perform_automated_actions :: "'w env \<Rightarrow> 'w observer option \<Rightarrow> (unit, 'w) prog" where
  "perform_automated_actions env on_update =
     bindE (gets self_page) (\<lambda>h.
       if h = None then returnE ()
       else
         try_except
           (bindE (page_attr ''evaluate'') (\<lambda>p.
            thenE (ext_call (Evaluate p ScrollScript) (evaluate env p ScrollScript) RetValue)
           (bindE (page_attr ''wait_for_timeout'') (\<lambda>p.
            thenE (ext_call (WaitForTimeout p (PyInt 1000)) (wait_for_timeout env p (PyInt 1000))
                     (\<lambda>_. RetNone))
           (bindE (new_ActionResult env ''SCROLL'' ''SUCCESS'' ''Scrolled to page middle'') (\<lambda>a.
            thenE (append_action a)
              (notify on_update (plain_update ''action'' ''Page scroll test successful''))))))))
           (\<lambda>error.
              bindE (datetime_now env) (\<lambda>ts.
                append_error \<lparr>e_type = ''AUTOMATION_ERROR'', e_action = None,
                              e_message = str_exn error, e_timestamp = ts\<rparr>)))"

text \<open>An action is a dictionary: \<open>action.get(k, d)\<close> and \<open>action[k]\<close>.\<close>

type_synonym action = "string \<rightharpoonup> pyval"

definition dict_get :: "action \<Rightarrow> string \<Rightarrow> pyval \<Rightarrow> pyval" where
  "dict_get a k d = (case a k of None \<Rightarrow> d | Some v \<Rightarrow> v)"

definition dict_item :: "action \<Rightarrow> string \<Rightarrow> (pyval, 'w) prog" where
  "dict_item a k = (case a k of None \<Rightarrow> raiseE (KeyError k) | Some v \<Rightarrow> returnE v)"

text \<open>\<open>perform_action\<close> (lines 275 to 315).\<close>

definition perform_action :: "'w env \<Rightarrow> action \<Rightarrow> 'w observer option \<Rightarrow> (unit, 'w) prog" where
  "perform_action env action on_update =
     bindE (gets self_page) (\<lambda>h.
       if h = None then returnE ()
       else
         (let action_type = dict_get action ''type'' PyNone in
          thenE
            (if action_type = PyStr ''click'' then
               bindE (page_attr ''click'') (\<lambda>p.
               bindE (dict_item action ''selector'') (\<lambda>sel.
               thenE (ext_call (Click p sel) (click env p sel) (\<lambda>_. RetNone))
              (bindE (dict_item action ''selector'') (\<lambda>sel'.
               bindE (new_ActionResult env ''CUSTOM_CLICK'' ''SUCCESS''
                        (''Clicked '' @ py_format env sel'))
                 append_action))))
             else if action_type = PyStr ''type'' then
               bindE (page_attr ''fill'') (\<lambda>p.
               bindE (dict_item action ''selector'') (\<lambda>sel.
               bindE (dict_item action ''text'') (\<lambda>txt.
               thenE (ext_call (Fill p sel txt) (fill env p sel txt) (\<lambda>_. RetNone))
              (bindE (dict_item action ''selector'') (\<lambda>sel'.
               bindE (new_ActionResult env ''CUSTOM_TYPE'' ''SUCCESS''
                        (''Typed into '' @ py_format env sel'))
                 append_action)))))
             else if action_type = PyStr ''wait'' then
               bindE (page_attr ''wait_for_timeout'') (\<lambda>p.
               thenE (ext_call (WaitForTimeout p (dict_get action ''duration'' (PyInt 1000)))
                        (wait_for_timeout env p (dict_get action ''duration'' (PyInt 1000)))
                        (\<lambda>_. RetNone))
              (bindE (new_ActionResult env ''WAIT'' ''SUCCESS''
                        (''Waited '' @ py_format env (dict_get action ''duration'' PyNone) @ ''ms''))
                 append_action))
             else returnE ())
            (notify on_update
               (plain_update ''action'' (''Custom action executed: '' @ py_format env action_type)))))"

text \<open>The loop of \<open>run_test\<close> over the custom actions (lines 170 to 179).\<close>

fun run_custom_actions :: "'w env \<Rightarrow> action list \<Rightarrow> 'w observer option \<Rightarrow> (unit, 'w) prog" where
  "run_custom_actions env [] on_update = returnE ()"
| "run_custom_actions env (action # rest) on_update =
     thenE
       (try_except (perform_action env action on_update)
          (\<lambda>error.
             bindE (datetime_now env) (\<lambda>ts.
               append_error \<lparr>e_type = ''ACTION_ERROR'', e_action = Some (dict_get action ''type'' PyNone),
                             e_message = str_exn error, e_timestamp = ts\<rparr>)))
       (run_custom_actions env rest on_update)"

text \<open>
  The navigation step of \<open>run_test\<close> (lines 138 to 156). The load time is the
  difference of two clock readings in milliseconds; the rounding of Python's floats is
  not modelled.
\<close>

definition run_test_navigate :: "'w env \<Rightarrow> string \<Rightarrow> 'w observer option \<Rightarrow> (unit, 'w) prog" where
  "run_test_navigate env url on_update =
     bindE (datetime_now env) (\<lambda>start_time.
     bindE (page_attr ''goto'') (\<lambda>p.
     bindE (gets (\<lambda>s. cfg_page (config s))) (\<lambda>pc.
     bindE (ext_call (Goto p url (wait_until pc) (navigation_timeout pc))
              (goto env p url (wait_until pc) (navigation_timeout pc)) RetResponse) (\<lambda>response.
     bindE (datetime_now env) (\<lambda>end_time.
       (let load_time = real_of_int (end_time - start_time) / 1000 in
        thenE (modify (\<lambda>s. s\<lparr>report := (report s)
                 \<lparr>performance := (performance (report s))(''load_time'' \<mapsto> load_time)\<rparr>\<rparr>))
       (thenE (case response of
                 None \<Rightarrow> returnE ()
               | Some r \<Rightarrow>
                   modify (\<lambda>s. s\<lparr>report := (report s)
                     \<lparr>performance := (performance (report s))
                        (''response_time'' \<mapsto> (case timing r ''responseEnd'' of None \<Rightarrow> 0 | Some v \<Rightarrow> v))\<rparr>\<rparr>))
          (if on_update = None then returnE ()
           else
             bindE (page_attr ''url'') (\<lambda>p.
             bindE (gets (\<lambda>s. page_url env p (world s))) (\<lambda>u.
               notify on_update
                 \<lparr>u_type = ''navigation'',
                  u_message = ''Page loaded ('' @ py_format_0f env load_time @ ''ms)'',
                  u_url = Some u, u_analysis = None\<rparr>))))))))))"

text \<open>The body of the \<open>try\<close> of \<open>run_test\<close> (lines 130 to 181).\<close>

definition run_test_try :: "'w env \<Rightarrow> string \<Rightarrow> action list \<Rightarrow> 'w observer option \<Rightarrow> (unit, 'w) prog" where
  "run_test_try env url acts on_update =
     bindE (initialize env) (\<lambda>init_success.
     bindE (gets self_page) (\<lambda>h.
       if \<not> init_success \<or> h = None then raiseE (RuntimeError ''Browser initialization failed'')
       else
         thenE (notify on_update (plain_update ''status'' ''Bot started, navigating...''))
        (thenE (run_test_navigate env url on_update)
        (bindE (analyze_page env) (\<lambda>a.
         thenE (modify (\<lambda>s. s\<lparr>report := (report s)\<lparr>analysis := Some a\<rparr>\<rparr>))
        (thenE (notify on_update
                  \<lparr>u_type = ''analysis'',
                   u_message = ''Page analyzed: '' @ py_format env (pa_link_count a) @ '' links, ''
                               @ py_format env (pa_form_count a) @ '' forms'',
                   u_url = None, u_analysis = Some a\<rparr>)
        (thenE (perform_automated_actions env on_update)
        (thenE (run_custom_actions env acts on_update)
           (modify (\<lambda>s. s\<lparr>report := (report s)\<lparr>success := (length (errors (report s)) = 0)\<rparr>\<rparr>))))))))))"

text \<open>The handler of \<open>run_test\<close> (lines 183 to 194).\<close>

definition run_test_except :: "'w env \<Rightarrow> 'w observer option \<Rightarrow> exn \<Rightarrow> (unit, 'w) prog" where
  "run_test_except env on_update error =
     bindE (datetime_now env) (\<lambda>ts.
     thenE (append_error \<lparr>e_type = ''CRITICAL_ERROR'', e_action = None,
                          e_message = str_exn error, e_timestamp = ts\<rparr>)
       (notify on_update (plain_update ''error'' (''Critical error: '' @ str_exn error))))"

text \<open>
  \<open>run_test\<close> (lines 109 to 199); its parameter \<open>actions\<close> is \<open>custom_actions\<close> here,
  and \<open>actions or []\<close> is the empty list when no list is given.
\<close>

definition run_test ::
  "'w env \<Rightarrow> string \<Rightarrow> action list option \<Rightarrow> 'w observer option \<Rightarrow> (BotReport, 'w) prog" where
  "run_test env url custom_actions on_update =
     thenE (modify (\<lambda>s. s\<lparr>report := new_BotReport False\<rparr>))
    (thenE
       (try_finally
          (try_except
             (run_test_try env url (case custom_actions of None \<Rightarrow> [] | Some a \<Rightarrow> a) on_update)
             (run_test_except env on_update))
          (cleanup env))
       (gets report))"

text \<open>The bounds of the \<open>Field\<close> declarations, by location: the minimum and, where one is declared, the maximum.\<close>

definition field_range :: "(string \<times> int \<times> int option) list" where
  "field_range =
     [(''browser.timeout'', 5000, Some 120000),
      (''context.viewport.width'', 800, Some 3840),
      (''context.viewport.height'', 600, Some 2160),
      (''context.timeout'', 5000, Some 60000),
      (''page.default_timeout'', 5000, Some 60000),
      (''page.navigation_timeout'', 5000, Some 60000),
      (''concurrency.max_bots'', 1, Some 100),
      (''concurrency.min_bots'', 1, None),
      (''concurrency.default_bots'', 1, None),
      (''testing.retry_attempts'', 0, Some 10),
      (''testing.retry_delay'', 100, Some 10000),
      (''testing.scroll.wait_time'', 0, Some 10000),
      (''testing.link_click.wait_time'', 0, Some 10000),
      (''testing.form_interaction.wait_time'', 0, Some 10000)]"

definition in_range :: "string \<Rightarrow> int \<Rightarrow> bool" where
  "in_range loc v =
     (case map_of field_range loc of
        None \<Rightarrow> False
      | Some (lo, hi) \<Rightarrow> lo \<le> v \<and> (case hi of None \<Rightarrow> True | Some h \<Rightarrow> v \<le> h))"

definition numeric_fields :: "BotConfig \<Rightarrow> (string \<times> int) list" where
  "numeric_fields c =
     [(''browser.timeout'', browser_timeout (cfg_browser c)),
      (''context.viewport.width'', width (viewport (cfg_context c))),
      (''context.viewport.height'', height (viewport (cfg_context c))),
      (''context.timeout'', context_timeout (cfg_context c)),
      (''page.default_timeout'', default_timeout (cfg_page c)),
      (''page.navigation_timeout'', navigation_timeout (cfg_page c)),
      (''concurrency.max_bots'', max_bots (cfg_concurrency c)),
      (''concurrency.min_bots'', min_bots (cfg_concurrency c)),
      (''concurrency.default_bots'', default_bots (cfg_concurrency c)),
      (''testing.retry_attempts'', retry_attempts (cfg_testing c)),
      (''testing.retry_delay'', retry_delay (cfg_testing c)),
      (''testing.scroll.wait_time'', wait_time (scroll (cfg_testing c))),
      (''testing.link_click.wait_time'', wait_time (link_click (cfg_testing c))),
      (''testing.form_interaction.wait_time'', wait_time (form_interaction (cfg_testing c)))]"

definition given :: "string \<Rightarrow> 'a option \<Rightarrow> ('a \<Rightarrow> int option) \<Rightarrow> (string \<times> int) list" where
  "given loc kw f = (case kw of None \<Rightarrow> [] | Some k \<Rightarrow> (case f k of None \<Rightarrow> [] | Some v \<Rightarrow> [(loc, v)]))"

definition given2 :: "string \<Rightarrow> 'a option \<Rightarrow> ('a \<Rightarrow> 'b option) \<Rightarrow> ('b \<Rightarrow> int option) \<Rightarrow> (string \<times> int) list" where
  "given2 loc kw f g = (case kw of None \<Rightarrow> [] | Some k \<Rightarrow> given loc (f k) g)"

definition supplied_numeric :: "BotConfig_kw \<Rightarrow> (string \<times> int) list" where
  "supplied_numeric kw =
     given ''browser.timeout'' (kw_browser kw) kw_browser_timeout
     @ given2 ''context.viewport.width'' (kw_context kw) kw_viewport kw_width
     @ given2 ''context.viewport.height'' (kw_context kw) kw_viewport kw_height
     @ given ''context.timeout'' (kw_context kw) kw_context_timeout
     @ given ''page.default_timeout'' (kw_page kw) kw_default_timeout
     @ given ''page.navigation_timeout'' (kw_page kw) kw_navigation_timeout
     @ given ''concurrency.max_bots'' (kw_concurrency kw) kw_max_bots
     @ given ''concurrency.min_bots'' (kw_concurrency kw) kw_min_bots
     @ given ''concurrency.default_bots'' (kw_concurrency kw) kw_default_bots
     @ given ''testing.retry_attempts'' (kw_testing kw) kw_retry_attempts
     @ given ''testing.retry_delay'' (kw_testing kw) kw_retry_delay
     @ given2 ''testing.scroll.wait_time'' (kw_testing kw) kw_scroll kw_wait_time
     @ given2 ''testing.link_click.wait_time'' (kw_testing kw) kw_link_click kw_wait_time
     @ given2 ''testing.form_interaction.wait_time'' (kw_testing kw) kw_form_interaction kw_wait_time"

section \<open>Observations of a run\<close>

text \<open>
  The statements about the bot are about what a run leaves behind: the report, the four
  handles and the log. The functions below read the log.
\<close>

text \<open>The release calls of a log, in the order they were made.\<close>

definition release_of :: "event \<Rightarrow> call list" where
  "release_of ev =
     (case ev of
        Call c _ \<Rightarrow>
          (case c of
             PageClose _ \<Rightarrow> [c]
           | ContextClose _ \<Rightarrow> [c]
           | BrowserClose _ \<Rightarrow> [c]
           | PwStop _ \<Rightarrow> [c]
           | _ \<Rightarrow> [])
      | _ \<Rightarrow> [])"

definition releases :: "event list \<Rightarrow> call list" where
  "releases tr = concat (map release_of tr)"

text \<open>
  An acquisition that returned a handle owes the release of that handle: the entries
  are the release calls owed, in the order of the acquisitions.
\<close>

definition owed :: "event \<Rightarrow> call list" where
  "owed ev =
     (case ev of
        Call c (Inr (RetHandle (Some h))) \<Rightarrow>
          (case c of
             PwStart \<Rightarrow> [PwStop h]
           | Launch _ _ _ _ \<Rightarrow> [BrowserClose h]
           | NewContext _ _ _ _ \<Rightarrow> [ContextClose h]
           | NewPage _ \<Rightarrow> [PageClose h]
           | _ \<Rightarrow> [])
      | _ \<Rightarrow> [])"

definition acquisitions :: "event list \<Rightarrow> call list" where
  "acquisitions tr = concat (map owed tr)"

text \<open>The release calls for the handles a bot holds, in the order of \<open>cleanup\<close>.\<close>

definition held :: "'w bot \<Rightarrow> call list" where
  "held s =
     (case self_page s of None \<Rightarrow> [] | Some p \<Rightarrow> [PageClose p])
     @ (case self_context s of None \<Rightarrow> [] | Some c \<Rightarrow> [ContextClose c])
     @ (case self_browser s of None \<Rightarrow> [] | Some b \<Rightarrow> [BrowserClose b])
     @ (case self_playwright s of None \<Rightarrow> [] | Some pw \<Rightarrow> [PwStop pw])"

definition handle_free :: "'w bot \<Rightarrow> bool" where
  "handle_free s \<longleftrightarrow>
     self_page s = None \<and> self_context s = None \<and> self_browser s = None \<and> self_playwright s = None"

text \<open>
  A call of the steps before the automated action (acquisition of the session,
  navigation, page analysis) that raised.
\<close>

definition critical_failure :: "event \<Rightarrow> bool" where
  "critical_failure ev =
     (case ev of
        Call c (Inl _) \<Rightarrow>
          (case c of
             PwStart \<Rightarrow> True
           | Launch _ _ _ _ \<Rightarrow> True
           | NewContext _ _ _ _ \<Rightarrow> True
           | NewPage _ \<Rightarrow> True
           | SetDefaultTimeout _ _ \<Rightarrow> True
           | Goto _ _ _ _ \<Rightarrow> True
           | Evaluate _ AnalyzeScript \<Rightarrow> True
           | _ \<Rightarrow> False)
      | _ \<Rightarrow> False)"

text \<open>The page-introspection call of \<open>analyze_page\<close>.\<close>

definition analysis_call :: "event \<Rightarrow> bool" where
  "analysis_call ev = (case ev of Call (Evaluate _ AnalyzeScript) _ \<Rightarrow> True | _ \<Rightarrow> False)"

text \<open>A call made by the automated action or by a custom action.\<close>

definition action_call :: "event \<Rightarrow> bool" where
  "action_call ev =
     (case ev of
        Call c _ \<Rightarrow>
          (case c of
             Evaluate _ ScrollScript \<Rightarrow> True
           | WaitForTimeout _ _ \<Rightarrow> True
           | Click _ _ \<Rightarrow> True
           | Fill _ _ _ \<Rightarrow> True
           | _ \<Rightarrow> False)
      | _ \<Rightarrow> False)"

text \<open>The events of a log are notifications made by this observer: each outcome is the observer's.\<close>

definition notified_by :: "'w observer option \<Rightarrow> event \<Rightarrow> bool" where
  "notified_by on_update ev =
     (case ev of
        Notify u r \<Rightarrow> (case on_update of None \<Rightarrow> False | Some f \<Rightarrow> (\<exists>w. fst (f u w) = r))
      | _ \<Rightarrow> True)"

text \<open>The events a run has added to the log of the state it started from.\<close>

definition new_events :: "'w bot \<Rightarrow> 'w bot \<Rightarrow> event list" where
  "new_events s s' = drop (length (trace s)) (trace s')"

definition critical_entry :: "exn \<Rightarrow> int \<Rightarrow> error_entry" where
  "critical_entry e ts =
     \<lparr>e_type = ''CRITICAL_ERROR'', e_action = None, e_message = str_exn e, e_timestamp = ts\<rparr>"

text \<open>The event is a page-introspection call that raised \<open>e\<close>.\<close>

definition analysis_raised :: "exn \<Rightarrow> event \<Rightarrow> bool" where
  "analysis_raised e ev =
     (case ev of
        Call c r \<Rightarrow>
          (case c of
             Evaluate _ sc \<Rightarrow>
               (case sc of
                  AnalyzeScript \<Rightarrow> (case r of Inl e' \<Rightarrow> e' = e | Inr _ \<Rightarrow> False)
                | ScrollScript \<Rightarrow> False)
           | _ \<Rightarrow> False)
      | _ \<Rightarrow> False)"

text \<open>The exception that a call of a method has raised, if any.\<close>

definition raises :: "exn + 'a \<Rightarrow> exn option" where
  "raises r = (case r of Inl e \<Rightarrow> Some e | Inr _ \<Rightarrow> None)"

subsection \<open>What \<open>cleanup\<close> is to do, in the words of the specification\<close>

text \<open>
  Releasing one sub-resource: nothing when the handle is \<open>None\<close>; otherwise the close
  call, whose exception, if any, is the outcome. The log of a release is the call and,
  when it raised, the warning.
\<close>

definition attempt :: "handle option \<Rightarrow> (handle \<Rightarrow> 'w \<Rightarrow> (exn + unit) \<times> 'w) \<Rightarrow> 'w \<Rightarrow> exn option \<times> 'w" where
  "attempt h close w =
     (case h of
        None \<Rightarrow> (None, w)
      | Some x \<Rightarrow> (case close x w of (Inl e, w') \<Rightarrow> (Some e, w') | (Inr _, w') \<Rightarrow> (None, w')))"

definition release_log :: "handle option \<Rightarrow> (handle \<Rightarrow> call) \<Rightarrow> string \<Rightarrow> exn option \<Rightarrow> event list" where
  "release_log h mk warning outcome =
     (case h of
        None \<Rightarrow> []
      | Some x \<Rightarrow>
          (case outcome of
             None \<Rightarrow> [Call (mk x) (Inr RetNone)]
           | Some e \<Rightarrow>
               [Call (mk x) (Inl e), Print (warning @ str_exn e)]))"

text \<open>
  The state after releasing one sub-resource, and \<open>cleanup\<close> as the specification words
  it: page, then context, then browser, then engine handle, each released on its own and
  its handle reset whatever the outcome.
\<close>

definition release_state ::
  "handle option \<Rightarrow> (handle \<Rightarrow> call) \<Rightarrow> string \<Rightarrow> (handle \<Rightarrow> 'w \<Rightarrow> (exn + unit) \<times> 'w) \<Rightarrow> 'w bot \<Rightarrow> 'w bot" where
  "release_state h mk warning close s =
     (case attempt h close (world s) of
        (outcome, w') \<Rightarrow> s\<lparr>world := w', trace := trace s @ release_log h mk warning outcome\<rparr>)"

definition cleanup_spec :: "'w env \<Rightarrow> 'w bot \<Rightarrow> 'w bot" where
  "cleanup_spec env s =
     (let s1 = (release_state (self_page s) PageClose ''[WARN] Page cleanup error: '' (page_close env) s)
                 \<lparr>self_page := None\<rparr>;
          s2 = (release_state (self_context s1) ContextClose ''[WARN] Context cleanup error: ''
                  (context_close env) s1)
                 \<lparr>self_context := None\<rparr>;
          s3 = (release_state (self_browser s2) BrowserClose ''[WARN] Browser cleanup error: ''
                  (browser_close env) s2)
                 \<lparr>self_browser := None\<rparr>
      in (release_state (self_playwright s3) PwStop ''[WARN] Playwright cleanup error: ''
            (pw_stop env) s3)
           \<lparr>self_playwright := None\<rparr>)"

text \<open>The events of a release: none is a call of the pipeline or a notification.\<close>

definition release_event :: "event \<Rightarrow> bool" where
  "release_event ev \<longleftrightarrow> (\<exists>c r. ev = Call c r \<and> release_of ev = [c]) \<or> (\<exists>m. ev = Print m)"

text \<open>An event that is neither the page-introspection call nor a call of an action, and
  that, when it is a notification, is one of this observer.\<close>

definition quiet :: "'w observer option \<Rightarrow> event \<Rightarrow> bool" where
  "quiet on_update ev \<longleftrightarrow> \<not> analysis_call ev \<and> \<not> action_call ev \<and> notified_by on_update ev"

text \<open>The session of \<open>s'\<close> is that of \<open>s\<close>: the same configuration and the same handles.\<close>

definition same_session :: "'w bot \<Rightarrow> 'w bot \<Rightarrow> bool" where
  "same_session s s' \<longleftrightarrow>
     config s' = config s \<and> self_page s' = self_page s \<and> self_context s' = self_context s
     \<and> self_browser s' = self_browser s \<and> self_playwright s' = self_playwright s"

text \<open>
  An event of the steps after the page analysis: no failure of a critical call, no page
  introspection, no acquisition and no release, and a notification only of this observer.
\<close>

definition step_event :: "'w observer option \<Rightarrow> event \<Rightarrow> bool" where
  "step_event on_update ev \<longleftrightarrow>
     \<not> critical_failure ev \<and> \<not> analysis_call ev \<and> notified_by on_update ev
     \<and> release_of ev = [] \<and> owed ev = []"

text \<open>The calls of a log that the automated action and the custom actions made.\<close>

definition action_calls :: "event list \<Rightarrow> call list" where
  "action_calls tr =
     concat (map (\<lambda>ev. case ev of Call c _ \<Rightarrow> (if action_call ev then [c] else []) | _ \<Rightarrow> []) tr)"

text \<open>
  The page call that attempting a custom action makes on the page \<open>p\<close>, in the words of
  the specification: a click, a fill or a timed wait when the action has what the call
  needs, and none for another kind.
\<close>

definition expected_call :: "handle \<Rightarrow> action \<Rightarrow> call list" where
  "expected_call p a =
     (if dict_get a ''type'' PyNone = PyStr ''click'' then
        (case a ''selector'' of None \<Rightarrow> [] | Some sel \<Rightarrow> [Click p sel])
      else if dict_get a ''type'' PyNone = PyStr ''type'' then
        (case a ''selector'' of
           None \<Rightarrow> []
         | Some sel \<Rightarrow> (case a ''text'' of None \<Rightarrow> [] | Some txt \<Rightarrow> [Fill p sel txt]))
      else if dict_get a ''type'' PyNone = PyStr ''wait'' then
        [WaitForTimeout p (dict_get a ''duration'' (PyInt 1000))]
      else [])"

text \<open>The state after the handler of the loop has recorded the failure \<open>e\<close> of \<open>action\<close>.\<close>

definition record_action_error :: "'w env \<Rightarrow> action \<Rightarrow> exn \<Rightarrow> 'w bot \<Rightarrow> 'w bot" where
  "record_action_error env action e s =
     (case now env (world s) of
        (ts, w') \<Rightarrow>
          s\<lparr>world := w',
            report := (report s)\<lparr>errors := errors (report s) @
              [\<lparr>e_type = ''ACTION_ERROR'', e_action = Some (dict_get action ''type'' PyNone),
                e_message = str_exn e, e_timestamp = ts\<rparr>]\<rparr>\<rparr>)"

text \<open>If the event is a page-introspection call that raised, it raised \<open>e\<close>.\<close>

definition failed_analysis_is :: "exn \<Rightarrow> event \<Rightarrow> bool" where
  "failed_analysis_is e ev =
     (case ev of Call (Evaluate _ AnalyzeScript) (Inl e') \<Rightarrow> e' = e | _ \<Rightarrow> True)"

subsection \<open>What the actions leave in the report\<close>

text \<open>The exceptions that the calls and the observer of a log raised, in order.\<close>

definition raised_by :: "event \<Rightarrow> exn list" where
  "raised_by ev =
     (case ev of
        Call _ r \<Rightarrow> (case r of Inl e \<Rightarrow> [e] | Inr _ \<Rightarrow> [])
      | Notify _ x \<Rightarrow> (case x of Some e \<Rightarrow> [e] | None \<Rightarrow> [])
      | Print _ \<Rightarrow> [])"

definition raised :: "event list \<Rightarrow> exn list" where
  "raised tr = concat (map raised_by tr)"

text \<open>A call that returned.\<close>

definition returned :: "event \<Rightarrow> bool" where
  "returned ev = (case ev of Call _ r \<Rightarrow> (case r of Inl _ \<Rightarrow> False | Inr _ \<Rightarrow> True) | _ \<Rightarrow> False)"

text \<open>An error entry and an action result without their timestamps.\<close>

definition entry_of :: "error_entry \<Rightarrow> string \<times> pyval option \<times> string" where
  "entry_of e = (e_type e, e_action e, e_message e)"

definition result_of :: "ActionResult \<Rightarrow> string \<times> string \<times> string \<times> pyval option" where
  "result_of r = (action_type r, status r, message r, details r)"

text \<open>The error entries and the action results that a run has added to the report.\<close>

definition new_errors :: "'w bot \<Rightarrow> 'w bot \<Rightarrow> error_entry list" where
  "new_errors s s' = drop (length (errors (report s))) (errors (report s'))"

definition new_actions :: "'w bot \<Rightarrow> 'w bot \<Rightarrow> ActionResult list" where
  "new_actions s s' = drop (length (actions (report s))) (actions (report s'))"

text \<open>
  A \<open>click\<close> without a selector, or a \<open>type\<close> without a selector or a text: the action
  fails before any call is made.
\<close>

definition missing_key :: "action \<Rightarrow> bool" where
  "missing_key a \<longleftrightarrow>
     (dict_get a ''type'' PyNone = PyStr ''click'' \<and> a ''selector'' = None)
     \<or> (dict_get a ''type'' PyNone = PyStr ''type'' \<and> (a ''selector'' = None \<or> a ''text'' = None))"

text \<open>
  The result that a custom action gives once its page call has returned, in the words
  of the specification: its kind, the status \<open>SUCCESS\<close> and the message.
\<close>

definition expected_result :: "'w env \<Rightarrow> action \<Rightarrow> string \<times> string \<times> string \<times> pyval option" where
  "expected_result env a =
     (if dict_get a ''type'' PyNone = PyStr ''click'' then
        (''CUSTOM_CLICK'', ''SUCCESS'', ''Clicked '' @ py_format env (dict_get a ''selector'' PyNone), None)
      else if dict_get a ''type'' PyNone = PyStr ''type'' then
        (''CUSTOM_TYPE'', ''SUCCESS'', ''Typed into '' @ py_format env (dict_get a ''selector'' PyNone), None)
      else
        (''WAIT'', ''SUCCESS'', ''Waited '' @ py_format env (dict_get a ''duration'' PyNone) @ ''ms'', None))"

text \<open>
  The results that a list of actions is to give on the page \<open>p\<close>, read off the log: the
  actions that make a page call are paired, in order, with the action calls of the log,
  and an action gives its result when its call returned.
\<close>

definition results_of ::
  "'w env \<Rightarrow> handle \<Rightarrow> action list \<Rightarrow> event list \<Rightarrow> (string \<times> string \<times> string \<times> pyval option) list" where
  "results_of env p acts tr =
     concat (map (\<lambda>(a, ev). if returned ev then [expected_result env a] else [])
       (zip (filter (\<lambda>a. expected_call p a \<noteq> []) acts) (filter action_call tr)))"

text \<open>The result of the automated action.\<close>

definition scroll_result :: "string \<times> string \<times> string \<times> pyval option" where
  "scroll_result = (''SCROLL'', ''SUCCESS'', ''Scrolled to page middle'', None)"

text \<open>The entry that the handler of the automated action records for the exception \<open>e\<close>.\<close>

definition automation_entry :: "exn \<Rightarrow> string \<times> pyval option \<times> string" where
  "automation_entry e = (''AUTOMATION_ERROR'', None, str_exn e)"

text \<open>The \<open>KeyError\<close> of an action with a missing key: the selector is looked up first.\<close>

definition key_error :: "action \<Rightarrow> exn" where
  "key_error a = KeyError (if a ''selector'' = None then ''selector'' else ''text'')"

text \<open>
  The custom action \<open>a\<close> has raised \<open>e\<close>, with the log \<open>tr\<close>: \<open>e\<close> is the exception that
  its page call or the observer raised, the only one of the log, or the \<open>KeyError\<close> of the
  missing key, and then nothing in the log has raised.
\<close>

definition failure_of :: "action \<Rightarrow> exn \<Rightarrow> event list \<Rightarrow> bool" where
  "failure_of a e tr \<longleftrightarrow>
     (if missing_key a then raised tr = [] \<and> e = key_error a else raised tr = [e])"

text \<open>
  What the automated action is to leave behind on the page \<open>p\<close>, from \<open>s\<close> to \<open>s'\<close>: the
  scroll call and, when it returned, the pause; the result \<open>SCROLL\<close> once the pause has
  returned; and one \<open>AUTOMATION_ERROR\<close> entry with its message for the exception that a
  call or the observer raised, of which there is at most one.
\<close>

definition automated_effect :: "'w env \<Rightarrow> handle \<Rightarrow> 'w bot \<Rightarrow> 'w bot \<Rightarrow> bool" where
  "automated_effect env p s s' \<longleftrightarrow>
     (let tr = new_events s s' in
        action_calls tr =
          (case fst (evaluate env p ScrollScript (world s)) of
             Inl _ \<Rightarrow> [Evaluate p ScrollScript]
           | Inr _ \<Rightarrow> [Evaluate p ScrollScript, WaitForTimeout p (PyInt 1000)])
        \<and> actions (report s') = actions (report s) @ new_actions s s'
        \<and> map result_of (new_actions s s') =
            (if Call (WaitForTimeout p (PyInt 1000)) (Inr RetNone) \<in> set tr then [scroll_result] else [])
        \<and> errors (report s') = errors (report s) @ new_errors s s'
        \<and> map entry_of (new_errors s s') = map automation_entry (raised tr)
        \<and> length (raised tr) \<le> 1)"

text \<open>
  What the loop over the custom actions \<open>acts\<close> is to leave behind on the page \<open>p\<close>: the
  page call of every action of the list, in order; the result of every action whose call
  returned, in order; and as many \<open>ACTION_ERROR\<close> entries as exceptions were raised, by
  a call, by the observer or for a missing key.
\<close>

definition loop_effect :: "'w env \<Rightarrow> handle \<Rightarrow> action list \<Rightarrow> 'w bot \<Rightarrow> 'w bot \<Rightarrow> bool" where
  "loop_effect env p acts s s' \<longleftrightarrow>
     (let tr = new_events s s' in
        action_calls tr = concat (map (expected_call p) acts)
        \<and> actions (report s') = actions (report s) @ new_actions s s'
        \<and> map result_of (new_actions s s') = results_of env p acts tr
        \<and> errors (report s') = errors (report s) @ new_errors s s'
        \<and> list_all (\<lambda>e. e_type e = ''ACTION_ERROR'') (new_errors s s')
        \<and> length (new_errors s s') = length (raised tr) + length (filter missing_key acts))"

subsection \<open>The phases of a run\<close>

text \<open>
  What holds of a state \<open>s'\<close> that a run started in \<open>s\<close> has reached. In every phase the
  log has grown by some events \<open>tr\<close>, the configuration is the same, every notification
  is one of the observer, and the releases made together with the handles still held are
  the handles held at the start and the sub-resources acquired since, the last acquired
  first.
\<close>

definition progress :: "'w observer option \<Rightarrow> 'w bot \<Rightarrow> 'w bot \<Rightarrow> event list \<Rightarrow> bool" where
  "progress on_update s s' tr \<longleftrightarrow>
     trace s' = trace s @ tr \<and> config s' = config s
     \<and> releases tr @ held s' = held s @ rev (acquisitions tr)
     \<and> list_all (notified_by on_update) tr
     \<and> length (filter analysis_call tr) \<le> 1"

text \<open>Nothing is in the report yet.\<close>

definition nothing_reported :: "BotReport \<Rightarrow> bool" where
  "nothing_reported r \<longleftrightarrow> errors r = [] \<and> \<not> success r \<and> actions r = []"

text \<open>
  Before the page analysis, with the session acquired: no page introspection and no
  action call yet, and no critical call has raised.
\<close>

definition phase_navigating :: "'w observer option \<Rightarrow> 'w bot \<Rightarrow> 'w bot \<Rightarrow> bool" where
  "phase_navigating on_update s s' \<longleftrightarrow>
     (\<exists>tr. progress on_update s s' tr \<and> list_all (quiet on_update) tr
        \<and> list_all (\<lambda>ev. \<not> critical_failure ev) tr)
     \<and> nothing_reported (report s') \<and> self_page s' \<noteq> None"

text \<open>After the page analysis has returned: no critical call has raised.\<close>

definition phase_analysed :: "'w observer option \<Rightarrow> 'w bot \<Rightarrow> 'w bot \<Rightarrow> bool" where
  "phase_analysed on_update s s' \<longleftrightarrow>
     (\<exists>tr. progress on_update s s' tr
        \<and> list_all (\<lambda>ev. \<not> critical_failure ev) tr
        \<and> list_all (\<lambda>ev. \<not> action_call ev) tr)
     \<and> nothing_reported (report s') \<and> self_page s' \<noteq> None"

text \<open>While and after the actions run: the error entries are those of actions.\<close>

definition phase_acting :: "'w observer option \<Rightarrow> 'w bot \<Rightarrow> 'w bot \<Rightarrow> bool" where
  "phase_acting on_update s s' \<longleftrightarrow>
     (\<exists>tr. progress on_update s s' tr \<and> list_all (\<lambda>ev. \<not> critical_failure ev) tr)
     \<and> list_all (\<lambda>e. e_type e = ''AUTOMATION_ERROR'' \<or> e_type e = ''ACTION_ERROR'') (errors (report s'))
     \<and> \<not> success (report s') \<and> self_page s' \<noteq> None"

text \<open>The body of the \<open>try\<close> has returned.\<close>

definition try_passed :: "'w observer option \<Rightarrow> 'w bot \<Rightarrow> 'w bot \<Rightarrow> bool" where
  "try_passed on_update s s' \<longleftrightarrow>
     (\<exists>tr. progress on_update s s' tr \<and> list_all (\<lambda>ev. \<not> critical_failure ev) tr)
     \<and> list_all (\<lambda>e. e_type e = ''AUTOMATION_ERROR'' \<or> e_type e = ''ACTION_ERROR'') (errors (report s'))
     \<and> success (report s') = (errors (report s') = [])"

text \<open>
  The body of the \<open>try\<close> has raised \<open>e\<close>: no action was started, and a page
  introspection that raised has raised \<open>e\<close>.
\<close>

definition try_aborted :: "'w observer option \<Rightarrow> exn \<Rightarrow> 'w bot \<Rightarrow> 'w bot \<Rightarrow> bool" where
  "try_aborted on_update e s s' \<longleftrightarrow>
     (\<exists>tr. progress on_update s s' tr
        \<and> list_all (\<lambda>ev. \<not> action_call ev) tr
        \<and> list_all (failed_analysis_is e) tr)
     \<and> nothing_reported (report s')"

text \<open>
  A step within the session, with its events \<open>tr\<close>: the handles and the configuration stay,
  nothing is acquired or released, and every notification is one of the observer.
\<close>

definition within_session :: "'w observer option \<Rightarrow> 'w bot \<Rightarrow> 'w bot \<Rightarrow> event list \<Rightarrow> bool" where
  "within_session on_update s s' tr \<longleftrightarrow>
     same_session s s' \<and> trace s' = trace s @ tr \<and> releases tr = [] \<and> acquisitions tr = []
     \<and> list_all (notified_by on_update) tr"

text \<open>
  The two ways a run ends. It has passed: no critical call has raised, the error entries
  are those of actions, and the success flag says whether there is none. Or it was aborted
  by the exception \<open>e\<close>: the report holds the one critical entry of \<open>e\<close> and no action
  result, the run is unsuccessful, no action was started, and a page introspection that
  raised has raised \<open>e\<close>.
\<close>

definition passed :: "'w bot \<Rightarrow> event list \<Rightarrow> bool" where
  "passed s' tr \<longleftrightarrow>
     list_all (\<lambda>ev. \<not> critical_failure ev) tr
     \<and> list_all (\<lambda>e. e_type e = ''AUTOMATION_ERROR'' \<or> e_type e = ''ACTION_ERROR'') (errors (report s'))
     \<and> success (report s') = (errors (report s') = [])"

definition aborted :: "exn \<Rightarrow> 'w bot \<Rightarrow> event list \<Rightarrow> bool" where
  "aborted e s' tr \<longleftrightarrow>
     (\<exists>ts. errors (report s') = [critical_entry e ts])
     \<and> \<not> success (report s') \<and> actions (report s') = []
     \<and> list_all (\<lambda>ev. \<not> action_call ev) tr
     \<and> list_all (failed_analysis_is e) tr"

text \<open>
  The run started in \<open>s\<close> has ended in \<open>s'\<close> with the events \<open>tr\<close>: no handle is held, and
  the run has passed or was aborted.
\<close>

definition run_closed :: "'w observer option \<Rightarrow> 'w bot \<Rightarrow> 'w bot \<Rightarrow> event list \<Rightarrow> bool" where
  "run_closed on_update s s' tr \<longleftrightarrow>
     progress on_update s s' tr \<and> handle_free s' \<and> (passed s' tr \<or> (\<exists>e. aborted e s' tr))"

subsection \<open>Weakest preconditions\<close>

text \<open>
  \<open>wp m Q E s\<close>: run from \<open>s\<close>, the method \<open>m\<close> returns \<open>x\<close> in a state where \<open>Q x\<close>
  holds, or raises \<open>e\<close> in a state where \<open>E e\<close> holds.
\<close>

definition wp :: "('a, 'w) prog \<Rightarrow> ('a \<Rightarrow> 'w bot \<Rightarrow> bool) \<Rightarrow> (exn \<Rightarrow> 'w bot \<Rightarrow> bool) \<Rightarrow> 'w bot \<Rightarrow> bool" where
  "wp m Q E s = (case m s of (Inr x, s') \<Rightarrow> Q x s' | (Inl e, s') \<Rightarrow> E e s')"

subsection \<open>A test double for the collaborators\<close>

text \<open>
  An environment for the concrete runs below. The world is a counter that the clock
  advances; a call raises the exception that the table \<open>fails\<close> gives for it, and
  otherwise returns a fixed value: the handles 1 to 4, the response \<open>resp\<close> of the
  navigation, the value \<open>data\<close> of a page script.
\<close>

definition outcome :: "(call \<Rightarrow> exn option) \<Rightarrow> call \<Rightarrow> 'a \<Rightarrow> nat \<Rightarrow> (exn + 'a) \<times> nat" where
  "outcome fails c x w = ((case fails c of Some e \<Rightarrow> Inl e | None \<Rightarrow> Inr x), w)"

definition test_env :: "(call \<Rightarrow> exn option) \<Rightarrow> Response option \<Rightarrow> pyval \<Rightarrow> nat env" where
  "test_env fails resp data =
     \<lparr>now = (\<lambda>w. (int w, Suc w)),
      pw_start = outcome fails PwStart 1,
      launch = (\<lambda>pw h t a. outcome fails (Launch pw h t a) (Some 2)),
      new_context = (\<lambda>b u w h. outcome fails (NewContext b u w h) (Some 3)),
      new_page = (\<lambda>c. outcome fails (NewPage c) (Some 4)),
      set_default_timeout = (\<lambda>p t. outcome fails (SetDefaultTimeout p t) ()),
      goto = (\<lambda>p u wu t. outcome fails (Goto p u wu t) resp),
      page_url = (\<lambda>p w. ''about:blank''),
      evaluate = (\<lambda>p sc. outcome fails (Evaluate p sc) data),
      wait_for_timeout = (\<lambda>p d. outcome fails (WaitForTimeout p d) ()),
      click = (\<lambda>p sel. outcome fails (Click p sel) ()),
      fill = (\<lambda>p sel t. outcome fails (Fill p sel t) ()),
      page_close = (\<lambda>p. outcome fails (PageClose p) ()),
      context_close = (\<lambda>c. outcome fails (ContextClose c) ()),
      browser_close = (\<lambda>b. outcome fails (BrowserClose b) ()),
      pw_stop = (\<lambda>pw. outcome fails (PwStop pw) ()),
      py_format = (\<lambda>v. case v of PyStr s \<Rightarrow> s | _ \<Rightarrow> ''?''),
      py_format_0f = (\<lambda>x. ''0''),
      py_init_type_error = (\<lambda>d. ''__init__() got an unexpected keyword argument'')\<rparr>"

definition no_failure :: "call \<Rightarrow> exn option" where
  "no_failure c = None"

definition test_data :: pyval where
  "test_data = PyDict (map (\<lambda>k. (k, PyInt 0)) PageAnalysis_fields)"

definition test_bot :: "nat bot" where
  "test_bot = WebBot_init (\<lambda>_. True) None 0"

text \<open>A table of failures: every click raises.\<close>

definition click_fails :: "call \<Rightarrow> exn option" where
  "click_fails c = (case c of Click _ _ \<Rightarrow> Some (OtherError ''TimeoutError'' ''no element'') | _ \<Rightarrow> None)"

text \<open>A table of failures: every timed wait raises.\<close>

definition pause_fails :: "call \<Rightarrow> exn option" where
  "pause_fails c =
     (case c of WaitForTimeout _ _ \<Rightarrow> Some (OtherError ''TargetClosedError'' ''page closed'') | _ \<Rightarrow> None)"

text \<open>Tables of failures: the page introspection raises; the start of the engine raises.\<close>

definition analysis_fails :: "call \<Rightarrow> exn option" where
  "analysis_fails c =
     (case c of
        Evaluate _ sc \<Rightarrow>
          (case sc of
             AnalyzeScript \<Rightarrow> Some (OtherError ''TargetClosedError'' ''page closed'')
           | ScrollScript \<Rightarrow> None)
      | _ \<Rightarrow> None)"

definition engine_fails :: "call \<Rightarrow> exn option" where
  "engine_fails c = (case c of PwStart \<Rightarrow> Some (OtherError ''Error'' ''no browser installed'') | _ \<Rightarrow> None)"

text \<open>An observer that raises at every update.\<close>

definition raising_observer :: "nat observer" where
  "raising_observer u w = (Some (RuntimeError ''observer failed''), w)"

text \<open>A bot on which \<open>initialize\<close> was called: it holds a session.\<close>

definition session_bot :: "nat bot" where
  "session_bot = snd (initialize (test_env no_failure None test_data) test_bot)"

text \<open>
  The value of the page introspection on a page without links and forms, with the keys
  that the script of \<open>analyze_page\<close> returns (lines 208 to 240).
\<close>

definition script_data :: pyval where
  "script_data =
     PyDict [(''title'', PyStr ''Example''), (''url'', PyStr ''http://example.org''),
             (''linkCount'', PyInt 0), (''formCount'', PyInt 0), (''buttonCount'', PyInt 0),
             (''inputCount'', PyInt 0), (''imageCount'', PyInt 0), (''hasServiceWorker'', PyBool True),
             (''viewport'', PyDict [(''width'', PyInt 1366), (''height'', PyInt 768)]),
             (''scrollHeight'', PyInt 768), (''links'', PyList []), (''forms'', PyList [])]"

section \<open>Proofs: the configuration models\<close>

lemma int_field_Inr:
  "int_field n d ge le v = Inr x \<Longrightarrow>
     (case v of None \<Rightarrow> x = d
      | Some y \<Rightarrow> x = y \<and> (case ge of None \<Rightarrow> True | Some g \<Rightarrow> g \<le> y) \<and> (case le of None \<Rightarrow> True | Some l \<Rightarrow> y \<le> l))"
  by (auto simp: int_field_def split: option.splits if_splits)

lemma int_field_errs: "errs_of (int_field n d ge le v) = [] \<Longrightarrow> \<exists>x. int_field n d ge le v = Inr x"
  by (auto simp: int_field_def errs_of_def split: option.splits if_splits)

lemma at_loc_Nil: "at_loc n r = [] \<longleftrightarrow> errs_of r = []"
  by (simp add: at_loc_def)

lemma ViewportConfig_init_Inr:
  assumes "ViewportConfig_init kw = Inr c"
  shows "int_field ''width'' 1366 (Some 800) (Some 3840) (kw_width kw) = Inr (width c)"
    and "int_field ''height'' 768 (Some 600) (Some 2160) (kw_height kw) = Inr (height c)"
  using assms
  by (auto simp: ViewportConfig_init_def Let_def split: if_splits dest!: int_field_errs)

lemma ViewportConfig_init_errs: "errs_of (ViewportConfig_init kw) = [] \<Longrightarrow> \<exists>c. ViewportConfig_init kw = Inr c"
  by (cases "ViewportConfig_init kw") (auto simp: errs_of_def ViewportConfig_init_def Let_def split: if_splits)

lemma BrowserConfig_init_Inr:
  assumes "BrowserConfig_init kw = Inr c"
  shows "int_field ''timeout'' 60000 (Some 5000) (Some 120000) (kw_browser_timeout kw) = Inr (browser_timeout c)"
  using assms
  by (auto simp: BrowserConfig_init_def Let_def split: if_splits dest!: int_field_errs)

lemma BrowserConfig_init_errs: "errs_of (BrowserConfig_init kw) = [] \<Longrightarrow> \<exists>c. BrowserConfig_init kw = Inr c"
  by (cases "BrowserConfig_init kw") (auto simp: errs_of_def BrowserConfig_init_def Let_def split: if_splits)

lemma ContextConfig_init_Inr:
  assumes "ContextConfig_init kw = Inr c"
  shows "int_field ''timeout'' 30000 (Some 5000) (Some 60000) (kw_context_timeout kw) = Inr (context_timeout c)"
    and "ViewportConfig_init (case kw_viewport kw of None \<Rightarrow> no_ViewportConfig_kw | Some k \<Rightarrow> k) = Inr (viewport c)"
  using assms
  by (auto simp: ContextConfig_init_def Let_def at_loc_Nil split: if_splits dest!: int_field_errs ViewportConfig_init_errs)

lemma ContextConfig_init_errs: "errs_of (ContextConfig_init kw) = [] \<Longrightarrow> \<exists>c. ContextConfig_init kw = Inr c"
  by (cases "ContextConfig_init kw") (auto simp: errs_of_def ContextConfig_init_def Let_def split: if_splits)




lemma PageConfig_init_Inr:
  assumes "PageConfig_init kw = Inr c"
  shows "int_field ''default_timeout'' 30000 (Some 5000) (Some 60000) (kw_default_timeout kw) = Inr (default_timeout c)"
    and "int_field ''navigation_timeout'' 30000 (Some 5000) (Some 60000) (kw_navigation_timeout kw) = Inr (navigation_timeout c)"
  using assms
  by (auto simp: PageConfig_init_def Let_def split: if_splits dest!: int_field_errs)

lemma PageConfig_init_errs: "errs_of (PageConfig_init kw) = [] \<Longrightarrow> \<exists>c. PageConfig_init kw = Inr c"
  by (cases "PageConfig_init kw") (auto simp: errs_of_def PageConfig_init_def Let_def split: if_splits)

lemma ConcurrencyConfig_init_Inr:
  assumes "ConcurrencyConfig_init kw = Inr c"
  shows "int_field ''max_bots'' 10 (Some 1) (Some 100) (kw_max_bots kw) = Inr (max_bots c)"
    and "int_field ''min_bots'' 1 (Some 1) None (kw_min_bots kw) = Inr (min_bots c)"
    and "int_field ''default_bots'' 1 (Some 1) None (kw_default_bots kw) = Inr (default_bots c)"
  using assms
  by (auto simp: ConcurrencyConfig_init_def Let_def split: if_splits dest!: int_field_errs)

lemma ConcurrencyConfig_init_errs:
  "errs_of (ConcurrencyConfig_init kw) = [] \<Longrightarrow> \<exists>c. ConcurrencyConfig_init kw = Inr c"
  by (cases "ConcurrencyConfig_init kw")
     (auto simp: errs_of_def ConcurrencyConfig_init_def Let_def split: if_splits)

lemma ActionConfig_init_Inr:
  assumes "ActionConfig_init kw = Inr c"
  shows "int_field ''wait_time'' 1000 (Some 0) (Some 10000) (kw_wait_time kw) = Inr (wait_time c)"
  using assms
  by (auto simp: ActionConfig_init_def Let_def split: if_splits dest!: int_field_errs)

lemma ActionConfig_init_errs: "errs_of (ActionConfig_init kw) = [] \<Longrightarrow> \<exists>c. ActionConfig_init kw = Inr c"
  by (cases "ActionConfig_init kw") (auto simp: errs_of_def ActionConfig_init_def Let_def split: if_splits)


lemma if_errs_Inr:
  "(if errs = [] then Inr x else Inl errs) = Inr c \<Longrightarrow> errs = [] \<and> c = x"
  by (simp split: if_splits)

lemma int_field_projr:
  "errs_of (int_field n d ge le v) = [] \<Longrightarrow> int_field n d ge le v = Inr (projr (int_field n d ge le v))"
  using int_field_errs by fastforce

lemma ActionConfig_init_projr:
  "errs_of (ActionConfig_init kw) = [] \<Longrightarrow> ActionConfig_init kw = Inr (projr (ActionConfig_init kw))"
  using ActionConfig_init_errs by fastforce

lemma TestingConfig_init_Inr:
  assumes "TestingConfig_init u kw = Inr c"
  shows "int_field ''retry_attempts'' 3 (Some 0) (Some 10) (kw_retry_attempts kw) = Inr (retry_attempts c)"
    and "int_field ''retry_delay'' 1000 (Some 100) (Some 10000) (kw_retry_delay kw) = Inr (retry_delay c)"
    and "ActionConfig_init (case kw_scroll kw of
           None \<Rightarrow> \<lparr>kw_enabled = None, kw_wait_time = None\<rparr> | Some k \<Rightarrow> k) = Inr (scroll c)"
    and "ActionConfig_init (case kw_link_click kw of
           None \<Rightarrow> \<lparr>kw_enabled = None, kw_wait_time = Some 2000\<rparr> | Some k \<Rightarrow> k) = Inr (link_click c)"
    and "ActionConfig_init (case kw_form_interaction kw of
           None \<Rightarrow> \<lparr>kw_enabled = None, kw_wait_time = Some 500\<rparr> | Some k \<Rightarrow> k) = Inr (form_interaction c)"
proof -
  from assms[unfolded TestingConfig_init_def Let_def] have
    e: "errs_of (int_field ''retry_attempts'' 3 (Some 0) (Some 10) (kw_retry_attempts kw)) = []"
       "errs_of (int_field ''retry_delay'' 1000 (Some 100) (Some 10000) (kw_retry_delay kw)) = []"
       "errs_of (ActionConfig_init (case kw_scroll kw of
           None \<Rightarrow> \<lparr>kw_enabled = None, kw_wait_time = None\<rparr> | Some k \<Rightarrow> k)) = []"
       "errs_of (ActionConfig_init (case kw_link_click kw of
           None \<Rightarrow> \<lparr>kw_enabled = None, kw_wait_time = Some 2000\<rparr> | Some k \<Rightarrow> k)) = []"
       "errs_of (ActionConfig_init (case kw_form_interaction kw of
           None \<Rightarrow> \<lparr>kw_enabled = None, kw_wait_time = Some 500\<rparr> | Some k \<Rightarrow> k)) = []"
    and c: "c = \<lparr>default_url = projr (http_url_field u (kw_default_url kw)),
             retry_attempts = projr (int_field ''retry_attempts'' 3 (Some 0) (Some 10) (kw_retry_attempts kw)),
             retry_delay = projr (int_field ''retry_delay'' 1000 (Some 100) (Some 10000) (kw_retry_delay kw)),
             scroll = projr (ActionConfig_init (case kw_scroll kw of
               None \<Rightarrow> \<lparr>kw_enabled = None, kw_wait_time = None\<rparr> | Some k \<Rightarrow> k)),
             link_click = projr (ActionConfig_init (case kw_link_click kw of
               None \<Rightarrow> \<lparr>kw_enabled = None, kw_wait_time = Some 2000\<rparr> | Some k \<Rightarrow> k)),
             form_interaction = projr (ActionConfig_init (case kw_form_interaction kw of
               None \<Rightarrow> \<lparr>kw_enabled = None, kw_wait_time = Some 500\<rparr> | Some k \<Rightarrow> k))\<rparr>"
    by (simp_all add: at_loc_Nil split: if_splits)
  show "int_field ''retry_attempts'' 3 (Some 0) (Some 10) (kw_retry_attempts kw) = Inr (retry_attempts c)"
    using int_field_projr[OF e(1)] by (simp add: c)
  show "int_field ''retry_delay'' 1000 (Some 100) (Some 10000) (kw_retry_delay kw) = Inr (retry_delay c)"
    using int_field_projr[OF e(2)] by (simp add: c)
  show "ActionConfig_init (case kw_scroll kw of
           None \<Rightarrow> \<lparr>kw_enabled = None, kw_wait_time = None\<rparr> | Some k \<Rightarrow> k) = Inr (scroll c)"
    using ActionConfig_init_projr[OF e(3)] by (simp add: c)
  show "ActionConfig_init (case kw_link_click kw of
           None \<Rightarrow> \<lparr>kw_enabled = None, kw_wait_time = Some 2000\<rparr> | Some k \<Rightarrow> k) = Inr (link_click c)"
    using ActionConfig_init_projr[OF e(4)] by (simp add: c)
  show "ActionConfig_init (case kw_form_interaction kw of
           None \<Rightarrow> \<lparr>kw_enabled = None, kw_wait_time = Some 500\<rparr> | Some k \<Rightarrow> k) = Inr (form_interaction c)"
    using ActionConfig_init_projr[OF e(5)] by (simp add: c)
qed

lemma TestingConfig_init_errs:
  "errs_of (TestingConfig_init u kw) = [] \<Longrightarrow> \<exists>c. TestingConfig_init u kw = Inr c"
  unfolding TestingConfig_init_def Let_def errs_of_def
  by (simp split: if_splits sum.splits)


lemma sub_projr:
  "errs_of r = [] \<Longrightarrow> \<exists>c. r = Inr c \<Longrightarrow> r = Inr (projr r)"
  by auto

lemma BotConfig_init_Inr:
  assumes "BotConfig_init u kw = Inr c"
  shows "BrowserConfig_init (case kw_browser kw of
           None \<Rightarrow> \<lparr>kw_headless = None, kw_browser_timeout = None, kw_args = None\<rparr> | Some k \<Rightarrow> k)
         = Inr (cfg_browser c)" (is "?B = _")
    and "ContextConfig_init (case kw_context kw of
           None \<Rightarrow> \<lparr>kw_user_agent = None, kw_viewport = None, kw_context_timeout = None\<rparr> | Some k \<Rightarrow> k)
         = Inr (cfg_context c)" (is "?C = _")
    and "PageConfig_init (case kw_page kw of
           None \<Rightarrow> \<lparr>kw_default_timeout = None, kw_navigation_timeout = None, kw_wait_until = None\<rparr>
         | Some k \<Rightarrow> k) = Inr (cfg_page c)" (is "?P = _")
    and "ConcurrencyConfig_init (case kw_concurrency kw of
           None \<Rightarrow> \<lparr>kw_max_bots = None, kw_min_bots = None, kw_default_bots = None\<rparr> | Some k \<Rightarrow> k)
         = Inr (cfg_concurrency c)" (is "?N = _")
    and "TestingConfig_init u (case kw_testing kw of
           None \<Rightarrow> \<lparr>kw_default_url = None, kw_retry_attempts = None, kw_retry_delay = None,
                    kw_scroll = None, kw_link_click = None, kw_form_interaction = None\<rparr>
         | Some k \<Rightarrow> k) = Inr (cfg_testing c)" (is "?T = _")
proof -
  from assms[unfolded BotConfig_init_def Let_def] have
    e: "errs_of ?B = []" "errs_of ?C = []" "errs_of ?P = []" "errs_of ?N = []" "errs_of ?T = []"
    and c: "c = \<lparr>cfg_browser = projr ?B, cfg_context = projr ?C, cfg_page = projr ?P,
                 cfg_concurrency = projr ?N, cfg_testing = projr ?T\<rparr>"
    by (simp_all add: at_loc_Nil split: if_splits)
  show "?B = Inr (cfg_browser c)"
    using sub_projr[OF e(1) BrowserConfig_init_errs[OF e(1)]] by (simp add: c)
  show "?C = Inr (cfg_context c)"
    using sub_projr[OF e(2) ContextConfig_init_errs[OF e(2)]] by (simp add: c)
  show "?P = Inr (cfg_page c)"
    using sub_projr[OF e(3) PageConfig_init_errs[OF e(3)]] by (simp add: c)
  show "?N = Inr (cfg_concurrency c)"
    using sub_projr[OF e(4) ConcurrencyConfig_init_errs[OF e(4)]] by (simp add: c)
  show "?T = Inr (cfg_testing c)"
    using sub_projr[OF e(5) TestingConfig_init_errs[OF e(5)]] by (simp add: c)
qed

lemma int_field_in_range:
  "int_field n d (Some lo) hi v = Inr x \<Longrightarrow> lo \<le> d \<Longrightarrow> (case hi of None \<Rightarrow> True | Some h \<Rightarrow> d \<le> h) \<Longrightarrow>
   lo \<le> x \<and> (case hi of None \<Rightarrow> True | Some h \<Rightarrow> x \<le> h)"
  by (auto simp: int_field_def split: option.splits if_splits)

lemma int_field_given: "int_field n d ge le (Some v) = Inr x \<Longrightarrow> x = v"
  by (auto simp: int_field_def split: option.splits if_splits)

lemma numeric_fields_in_range:
  assumes "BotConfig_init u kw = Inr c"
  shows "\<forall>(loc, v) \<in> set (numeric_fields c). in_range loc v"
proof -
  note b = BotConfig_init_Inr[OF assms]
  note cx = ContextConfig_init_Inr[OF b(2)]
  note t = TestingConfig_init_Inr[OF b(5)]
  have "5000 \<le> browser_timeout (cfg_browser c) \<and> browser_timeout (cfg_browser c) \<le> 120000"
    using int_field_in_range[OF BrowserConfig_init_Inr[OF b(1)]] by simp
  moreover have "800 \<le> width (viewport (cfg_context c)) \<and> width (viewport (cfg_context c)) \<le> 3840"
    using int_field_in_range[OF ViewportConfig_init_Inr(1)[OF cx(2)]] by simp
  moreover have "600 \<le> height (viewport (cfg_context c)) \<and> height (viewport (cfg_context c)) \<le> 2160"
    using int_field_in_range[OF ViewportConfig_init_Inr(2)[OF cx(2)]] by simp
  moreover have "5000 \<le> context_timeout (cfg_context c) \<and> context_timeout (cfg_context c) \<le> 60000"
    using int_field_in_range[OF cx(1)] by simp
  moreover have "5000 \<le> default_timeout (cfg_page c) \<and> default_timeout (cfg_page c) \<le> 60000"
    using int_field_in_range[OF PageConfig_init_Inr(1)[OF b(3)]] by simp
  moreover have "5000 \<le> navigation_timeout (cfg_page c) \<and> navigation_timeout (cfg_page c) \<le> 60000"
    using int_field_in_range[OF PageConfig_init_Inr(2)[OF b(3)]] by simp
  moreover have "1 \<le> max_bots (cfg_concurrency c) \<and> max_bots (cfg_concurrency c) \<le> 100"
    using int_field_in_range[OF ConcurrencyConfig_init_Inr(1)[OF b(4)]] by simp
  moreover have "1 \<le> min_bots (cfg_concurrency c)"
    using int_field_in_range[OF ConcurrencyConfig_init_Inr(2)[OF b(4)]] by simp
  moreover have "1 \<le> default_bots (cfg_concurrency c)"
    using int_field_in_range[OF ConcurrencyConfig_init_Inr(3)[OF b(4)]] by simp
  moreover have "0 \<le> retry_attempts (cfg_testing c) \<and> retry_attempts (cfg_testing c) \<le> 10"
    using int_field_in_range[OF t(1)] by simp
  moreover have "100 \<le> retry_delay (cfg_testing c) \<and> retry_delay (cfg_testing c) \<le> 10000"
    using int_field_in_range[OF t(2)] by simp
  moreover have "0 \<le> wait_time (scroll (cfg_testing c)) \<and> wait_time (scroll (cfg_testing c)) \<le> 10000"
    using int_field_in_range[OF ActionConfig_init_Inr[OF t(3)]] by simp
  moreover have "0 \<le> wait_time (link_click (cfg_testing c)) \<and> wait_time (link_click (cfg_testing c)) \<le> 10000"
    using int_field_in_range[OF ActionConfig_init_Inr[OF t(4)]] by simp
  moreover have "0 \<le> wait_time (form_interaction (cfg_testing c))
      \<and> wait_time (form_interaction (cfg_testing c)) \<le> 10000"
    using int_field_in_range[OF ActionConfig_init_Inr[OF t(5)]] by simp
  ultimately show ?thesis
    by (simp add: numeric_fields_def in_range_def field_range_def)
qed


lemma given_sub:
  assumes "\<And>k v. kw = Some k \<Longrightarrow> f k = Some v \<Longrightarrow> (loc, v) \<in> S"
  shows "set (given loc kw f) \<subseteq> S"
proof (cases kw)
  case None
  then show ?thesis by (simp add: given_def)
next
  case (Some k)
  then show ?thesis using assms[of k] by (cases "f k") (simp_all add: given_def)
qed

lemma given2_sub:
  assumes "\<And>k k' v. kw = Some k \<Longrightarrow> f k = Some k' \<Longrightarrow> g k' = Some v \<Longrightarrow> (loc, v) \<in> S"
  shows "set (given2 loc kw f g) \<subseteq> S"
proof (cases kw)
  case None
  then show ?thesis by (simp add: given2_def)
next
  case (Some k)
  have "set (given loc (f k) g) \<subseteq> S"
    using assms[OF Some] by (intro given_sub) simp
  with Some show ?thesis by (simp add: given2_def)
qed

lemma supplied_numeric_kept:
  assumes "BotConfig_init u kw = Inr c"
  shows "set (supplied_numeric kw) \<subseteq> set (numeric_fields c)"
proof -
  note b = BotConfig_init_Inr[OF assms]
  note cx = ContextConfig_init_Inr[OF b(2)]
  note t = TestingConfig_init_Inr[OF b(5)]
  have 1: "set (given ''browser.timeout'' (kw_browser kw) kw_browser_timeout) \<subseteq> set (numeric_fields c)"
    using BrowserConfig_init_Inr[OF b(1)]
    by (intro given_sub) (auto dest: int_field_given simp: numeric_fields_def)
  have 2: "set (given2 ''context.viewport.width'' (kw_context kw) kw_viewport kw_width) \<subseteq> set (numeric_fields c)"
    using ViewportConfig_init_Inr(1)[OF cx(2)]
    by (intro given2_sub) (auto dest: int_field_given simp: numeric_fields_def)
  have 3: "set (given2 ''context.viewport.height'' (kw_context kw) kw_viewport kw_height) \<subseteq> set (numeric_fields c)"
    using ViewportConfig_init_Inr(2)[OF cx(2)]
    by (intro given2_sub) (auto dest: int_field_given simp: numeric_fields_def)
  have 4: "set (given ''context.timeout'' (kw_context kw) kw_context_timeout) \<subseteq> set (numeric_fields c)"
    using cx(1)
    by (intro given_sub) (auto dest: int_field_given simp: numeric_fields_def)
  have 5: "set (given ''page.default_timeout'' (kw_page kw) kw_default_timeout) \<subseteq> set (numeric_fields c)"
    using PageConfig_init_Inr(1)[OF b(3)]
    by (intro given_sub) (auto dest: int_field_given simp: numeric_fields_def)
  have 6: "set (given ''page.navigation_timeout'' (kw_page kw) kw_navigation_timeout) \<subseteq> set (numeric_fields c)"
    using PageConfig_init_Inr(2)[OF b(3)]
    by (intro given_sub) (auto dest: int_field_given simp: numeric_fields_def)
  have 7: "set (given ''concurrency.max_bots'' (kw_concurrency kw) kw_max_bots) \<subseteq> set (numeric_fields c)"
    using ConcurrencyConfig_init_Inr(1)[OF b(4)]
    by (intro given_sub) (auto dest: int_field_given simp: numeric_fields_def)
  have 8: "set (given ''concurrency.min_bots'' (kw_concurrency kw) kw_min_bots) \<subseteq> set (numeric_fields c)"
    using ConcurrencyConfig_init_Inr(2)[OF b(4)]
    by (intro given_sub) (auto dest: int_field_given simp: numeric_fields_def)
  have 9: "set (given ''concurrency.default_bots'' (kw_concurrency kw) kw_default_bots) \<subseteq> set (numeric_fields c)"
    using ConcurrencyConfig_init_Inr(3)[OF b(4)]
    by (intro given_sub) (auto dest: int_field_given simp: numeric_fields_def)
  have 10: "set (given ''testing.retry_attempts'' (kw_testing kw) kw_retry_attempts) \<subseteq> set (numeric_fields c)"
    using t(1)
    by (intro given_sub) (auto dest: int_field_given simp: numeric_fields_def)
  have 11: "set (given ''testing.retry_delay'' (kw_testing kw) kw_retry_delay) \<subseteq> set (numeric_fields c)"
    using t(2)
    by (intro given_sub) (auto dest: int_field_given simp: numeric_fields_def)
  have 12: "set (given2 ''testing.scroll.wait_time'' (kw_testing kw) kw_scroll kw_wait_time) \<subseteq> set (numeric_fields c)"
    using ActionConfig_init_Inr[OF t(3)]
    by (intro given2_sub) (auto dest: int_field_given simp: numeric_fields_def)
  have 13: "set (given2 ''testing.link_click.wait_time'' (kw_testing kw) kw_link_click kw_wait_time) \<subseteq> set (numeric_fields c)"
    using ActionConfig_init_Inr[OF t(4)]
    by (intro given2_sub) (auto dest: int_field_given simp: numeric_fields_def)
  have 14: "set (given2 ''testing.form_interaction.wait_time'' (kw_testing kw) kw_form_interaction kw_wait_time) \<subseteq> set (numeric_fields c)"
    using ActionConfig_init_Inr[OF t(5)]
    by (intro given2_sub) (auto dest: int_field_given simp: numeric_fields_def)
  show ?thesis
    unfolding supplied_numeric_def set_append
    by (intro Un_least 1 2 3 4 5 6 7 8 9 10 11 12 13 14)
qed

subsection \<open>Claim C9\<close>

text \<open>
  Claim C9, as the code has it. Every numeric field of a constructed configuration is at
  least the minimum its \<open>Field\<close> declares and, where a maximum is declared, at most that
  maximum (\<open>min_bots\<close> and \<open>default_bots\<close> declare a minimum only); and a construction
  that is given a value outside the declared bounds of its field fails, the value is not
  clamped.
\<close>

theorem config_numeric_fields_bounded:
  "(BotConfig_init u kw = Inr c \<longrightarrow> (\<forall>(loc, v) \<in> set (numeric_fields c). in_range loc v))
   \<and> ((\<exists>(loc, v) \<in> set (supplied_numeric kw). \<not> in_range loc v) \<longrightarrow> isl (BotConfig_init u kw))"
proof (intro conjI impI)
  assume "BotConfig_init u kw = Inr c"
  then show "\<forall>(loc, v) \<in> set (numeric_fields c). in_range loc v"
    by (rule numeric_fields_in_range)
next
  assume bad: "\<exists>(loc, v) \<in> set (supplied_numeric kw). \<not> in_range loc v"
  show "isl (BotConfig_init u kw)"
  proof (cases "BotConfig_init u kw")
    case (Inl e)
    then show ?thesis by simp
  next
    case (Inr c')
    from numeric_fields_in_range[OF Inr] supplied_numeric_kept[OF Inr] bad
    show ?thesis by blast
  qed
qed

text \<open>
  The theorem at a construction that supplies a viewport of 1920 by 1080 and succeeds,
  and at one that supplies a width of 5000 and is rejected.
\<close>

theorem config_numeric_fields_bounded_witness:
  "\<not> isl (BotConfig_init (\<lambda>_. True)
       (no_BotConfig_kw\<lparr>kw_context := Some \<lparr>kw_user_agent = None,
          kw_viewport = Some \<lparr>kw_width = Some 1920, kw_height = Some 1080\<rparr>,
          kw_context_timeout = None\<rparr>\<rparr>))
   \<and> in_range ''context.viewport.width''
       (width (viewport (cfg_context (projr (BotConfig_init (\<lambda>_. True)
          (no_BotConfig_kw\<lparr>kw_context := Some \<lparr>kw_user_agent = None,
             kw_viewport = Some \<lparr>kw_width = Some 1920, kw_height = Some 1080\<rparr>,
             kw_context_timeout = None\<rparr>\<rparr>))))))
   \<and> \<not> in_range ''context.viewport.width'' 5000
   \<and> isl (BotConfig_init (\<lambda>_. True)
       (no_BotConfig_kw\<lparr>kw_context := Some \<lparr>kw_user_agent = None,
          kw_viewport = Some \<lparr>kw_width = Some 5000, kw_height = None\<rparr>,
          kw_context_timeout = None\<rparr>\<rparr>))"
proof -
  let ?good = "no_BotConfig_kw\<lparr>kw_context := Some \<lparr>kw_user_agent = None,
          kw_viewport = Some \<lparr>kw_width = Some 1920, kw_height = Some 1080\<rparr>,
          kw_context_timeout = None\<rparr>\<rparr>"
  let ?bad = "no_BotConfig_kw\<lparr>kw_context := Some \<lparr>kw_user_agent = None,
          kw_viewport = Some \<lparr>kw_width = Some 5000, kw_height = None\<rparr>,
          kw_context_timeout = None\<rparr>\<rparr>"
  have ok: "\<not> isl (BotConfig_init (\<lambda>_. True) ?good)"
    by (simp add: BotConfig_init_def BrowserConfig_init_def ContextConfig_init_def
          ViewportConfig_init_def PageConfig_init_def ConcurrencyConfig_init_def
          TestingConfig_init_def ActionConfig_init_def no_BotConfig_kw_def int_field_def
          plain_field_def wait_until_field_def http_url_field_def errs_of_def at_loc_def Let_def)
  then have eq: "BotConfig_init (\<lambda>_. True) ?good = Inr (projr (BotConfig_init (\<lambda>_. True) ?good))"
    by (cases "BotConfig_init (\<lambda>_. True) ?good") simp_all
  have "\<forall>(loc, v) \<in> set (numeric_fields (projr (BotConfig_init (\<lambda>_. True) ?good))). in_range loc v"
    using config_numeric_fields_bounded[of "\<lambda>_. True" ?good "projr (BotConfig_init (\<lambda>_. True) ?good)"] eq
    by blast
  then have inr: "in_range ''context.viewport.width''
      (width (viewport (cfg_context (projr (BotConfig_init (\<lambda>_. True) ?good)))))"
    by (simp add: numeric_fields_def)
  have out: "\<not> in_range ''context.viewport.width'' 5000"
    by (simp add: in_range_def field_range_def)
  have "(''context.viewport.width'', 5000) \<in> set (supplied_numeric ?bad)"
    by (simp add: supplied_numeric_def given_def given2_def no_BotConfig_kw_def)
  with out have "\<exists>(loc, v) \<in> set (supplied_numeric ?bad). \<not> in_range loc v"
    by blast
  then have "isl (BotConfig_init (\<lambda>_. True) ?bad)"
    using config_numeric_fields_bounded[of "\<lambda>_. True" ?bad] by blast
  with ok inr out show ?thesis by blast
qed

text \<open>
  Claim C9 as the specification words it, with a maximum for every numeric field, fails:
  \<open>min_bots\<close> has no maximum, and a construction with \<open>min_bots = 1000000\<close> succeeds and
  keeps the value, above every maximum the module declares.
\<close>

theorem config_min_bots_unbounded_counterexample:
  "ConcurrencyConfig_init \<lparr>kw_max_bots = None, kw_min_bots = Some 1000000, kw_default_bots = None\<rparr>
     = Inr \<lparr>max_bots = 10, min_bots = 1000000, default_bots = 1\<rparr>"
  by (simp add: ConcurrencyConfig_init_def int_field_def errs_of_def Let_def)

section \<open>Proofs: the bot\<close>

subsection \<open>Rules for weakest preconditions\<close>

lemma wp_returnE [simp]: "wp (returnE x) Q E s = Q x s"
  by (simp add: wp_def returnE_def)

lemma wp_raiseE [simp]: "wp (raiseE e) Q E s = E e s"
  by (simp add: wp_def raiseE_def)

lemma wp_bindE [simp]: "wp (bindE m f) Q E s = wp m (\<lambda>x. wp (f x) Q E) E s"
  by (simp add: wp_def bindE_def split: prod.splits sum.splits)

lemma wp_thenE [simp]: "wp (thenE m n) Q E s = wp m (\<lambda>_. wp n Q E) E s"
  by (simp add: thenE_def)

lemma wp_try_except [simp]: "wp (try_except m h) Q E s = wp m Q (\<lambda>e. wp (h e) Q E) s"
  by (simp add: wp_def try_except_def split: prod.splits sum.splits)

lemma wp_try_finally [simp]:
  "wp (try_finally m fin) Q E s = wp m (\<lambda>x. wp fin (\<lambda>_. Q x) E) (\<lambda>e. wp fin (\<lambda>_. E e) E) s"
  by (simp add: wp_def try_finally_def split: prod.splits sum.splits)

lemma wp_gets [simp]: "wp (gets f) Q E s = Q (f s) s"
  by (simp add: wp_def gets_def)

lemma wp_modify [simp]: "wp (modify f) Q E s = Q () (f s)"
  by (simp add: wp_def modify_def)

lemma wp_ext_call [simp]:
  "wp (ext_call c f r) Q E s =
     (case f (world s) of
        (Inr x, w') \<Rightarrow> Q x (s\<lparr>world := w', trace := trace s @ [Call c (Inr (r x))]\<rparr>)
      | (Inl e, w') \<Rightarrow> E e (s\<lparr>world := w', trace := trace s @ [Call c (Inl e)]\<rparr>))"
  by (simp add: wp_def ext_call_def split: prod.splits sum.splits)

lemma wp_datetime_now [simp]:
  "wp (datetime_now env) Q E s = (case now env (world s) of (t, w') \<Rightarrow> Q t (s\<lparr>world := w'\<rparr>))"
  by (simp add: wp_def datetime_now_def split: prod.splits)

lemma wp_print [simp]: "wp (print m) Q E s = Q () (s\<lparr>trace := trace s @ [Print m]\<rparr>)"
  by (simp add: wp_def print_def)

lemma wp_notify [simp]:
  "wp (notify on_update u) Q E s =
     (case on_update of
        None \<Rightarrow> Q () s
      | Some f \<Rightarrow>
          (case f u (world s) of
             (None, w') \<Rightarrow> Q () (s\<lparr>world := w', trace := trace s @ [Notify u None]\<rparr>)
           | (Some e, w') \<Rightarrow> E e (s\<lparr>world := w', trace := trace s @ [Notify u (Some e)]\<rparr>)))"
  by (simp add: wp_def notify_def split: prod.splits option.splits)

lemma wp_page_attr [simp]:
  "wp (page_attr a) Q E s =
     (case self_page s of
        None \<Rightarrow> E (AttributeError (''NoneType object has no attribute '' @ a)) s
      | Some p \<Rightarrow> Q p s)"
  by (simp add: wp_def page_attr_def split: option.splits)

lemma wp_dict_item [simp]:
  "wp (dict_item a k) Q E s = (case a k of None \<Rightarrow> E (KeyError k) s | Some v \<Rightarrow> Q v s)"
  by (simp add: dict_item_def split: option.splits)

lemma wp_append_action [simp]:
  "wp (append_action a) Q E s = Q () (s\<lparr>report := (report s)\<lparr>actions := actions (report s) @ [a]\<rparr>\<rparr>)"
  by (simp add: append_action_def)

lemma wp_append_error [simp]:
  "wp (append_error e) Q E s = Q () (s\<lparr>report := (report s)\<lparr>errors := errors (report s) @ [e]\<rparr>\<rparr>)"
  by (simp add: append_error_def)

lemma wp_new_ActionResult [simp]:
  "wp (new_ActionResult env t st m) Q E s =
     (case now env (world s) of
        (ts, w') \<Rightarrow>
          Q \<lparr>action_type = t, status = st, message = m, timestamp = ts, details = None\<rparr> (s\<lparr>world := w'\<rparr>))"
  by (simp add: new_ActionResult_def)

lemma wp_mono:
  "wp m Q E s \<Longrightarrow> (\<And>x s'. Q x s' \<Longrightarrow> Q' x s') \<Longrightarrow> (\<And>e s'. E e s' \<Longrightarrow> E' e s') \<Longrightarrow> wp m Q' E' s"
  by (auto simp: wp_def split: prod.splits sum.splits)

lemma wp_result: "wp m Q E s \<Longrightarrow> m s = (Inr x, s') \<Longrightarrow> Q x s'"
  by (simp add: wp_def)

lemma wp_raised: "wp m Q E s \<Longrightarrow> m s = (Inl e, s') \<Longrightarrow> E e s'"
  by (simp add: wp_def)

lemma wp_of_eq: "m s = (Inr x, s') \<Longrightarrow> wp m Q E s = Q x s'"
  by (simp add: wp_def)

subsection \<open>\<open>cleanup\<close> does what the specification words\<close>

lemma release_block:
  "bindE (gets sel) (\<lambda>h. case h of
       None \<Rightarrow> returnE ()
     | Some p \<Rightarrow>
         try_finally
           (try_except (ext_call (mk p) (cl p) (\<lambda>_. RetNone))
              (\<lambda>error. print (name @ str_exn error)))
           (modify upd)) s
   = (Inr (), case sel s of None \<Rightarrow> s | Some p \<Rightarrow> upd (release_state (sel s) mk name cl s))"
  by (simp add: bindE_def gets_def returnE_def try_finally_def try_except_def ext_call_def print_def
        modify_def release_state_def attempt_def release_log_def
        split: option.splits prod.splits sum.splits)

lemma release_state_None [simp]: "release_state None mk name cl s = s"
  by (simp add: release_state_def attempt_def release_log_def)

lemma reset_same:
  "self_page s = None \<Longrightarrow> s\<lparr>self_page := None\<rparr> = s"
  "self_context s = None \<Longrightarrow> s\<lparr>self_context := None\<rparr> = s"
  "self_browser s = None \<Longrightarrow> s\<lparr>self_browser := None\<rparr> = s"
  "self_playwright s = None \<Longrightarrow> s\<lparr>self_playwright := None\<rparr> = s"
  by (cases s; simp)+

lemma thenE_apply:
  "thenE m n s = (case m s of (Inl e, s') \<Rightarrow> (Inl e, s') | (Inr x, s') \<Rightarrow> n s')"
  by (simp add: thenE_def bindE_def)

lemma cleanup_eq: "cleanup env s = (Inr (), cleanup_spec env s)"
proof -
  let ?s1 = "(release_state (self_page s) PageClose ''[WARN] Page cleanup error: '' (page_close env) s)\<lparr>self_page := None\<rparr>"
  let ?s2 = "(release_state (self_context ?s1) ContextClose ''[WARN] Context cleanup error: '' (context_close env) ?s1)
               \<lparr>self_context := None\<rparr>"
  let ?s3 = "(release_state (self_browser ?s2) BrowserClose ''[WARN] Browser cleanup error: '' (browser_close env) ?s2)
               \<lparr>self_browser := None\<rparr>"
  let ?s4 = "(release_state (self_playwright ?s3) PwStop ''[WARN] Playwright cleanup error: '' (pw_stop env) ?s3)
               \<lparr>self_playwright := None\<rparr>"
  have 1: "bindE (gets self_page) (\<lambda>h. case h of
            None \<Rightarrow> returnE ()
          | Some p \<Rightarrow>
              try_finally
                (try_except (ext_call (PageClose p) (page_close env p) (\<lambda>_. RetNone))
                   (\<lambda>error. print (''[WARN] Page cleanup error: '' @ str_exn error)))
                (modify (\<lambda>s. s\<lparr>self_page := None\<rparr>))) s = (Inr (), ?s1)"
    using release_block[of self_page PageClose "page_close env" "''[WARN] Page cleanup error: ''" "\<lambda>s. s\<lparr>self_page := None\<rparr>" s]
    by (simp add: reset_same split: option.splits)
  have 2: "bindE (gets self_context) (\<lambda>h. case h of
            None \<Rightarrow> returnE ()
          | Some c \<Rightarrow>
              try_finally
                (try_except (ext_call (ContextClose c) (context_close env c) (\<lambda>_. RetNone))
                   (\<lambda>error. print (''[WARN] Context cleanup error: '' @ str_exn error)))
                (modify (\<lambda>s. s\<lparr>self_context := None\<rparr>))) ?s1 = (Inr (), ?s2)"
    using release_block[of self_context ContextClose "context_close env" "''[WARN] Context cleanup error: ''"
            "\<lambda>s. s\<lparr>self_context := None\<rparr>" ?s1]
    by (simp add: reset_same split: option.splits)
  have 3: "bindE (gets self_browser) (\<lambda>h. case h of
            None \<Rightarrow> returnE ()
          | Some b \<Rightarrow>
              try_finally
                (try_except (ext_call (BrowserClose b) (browser_close env b) (\<lambda>_. RetNone))
                   (\<lambda>error. print (''[WARN] Browser cleanup error: '' @ str_exn error)))
                (modify (\<lambda>s. s\<lparr>self_browser := None\<rparr>))) ?s2 = (Inr (), ?s3)"
    using release_block[of self_browser BrowserClose "browser_close env" "''[WARN] Browser cleanup error: ''"
            "\<lambda>s. s\<lparr>self_browser := None\<rparr>" ?s2]
    by (simp add: reset_same split: option.splits)
  have 4: "bindE (gets self_playwright) (\<lambda>h. case h of
            None \<Rightarrow> returnE ()
          | Some pw \<Rightarrow>
              try_finally
                (try_except (ext_call (PwStop pw) (pw_stop env pw) (\<lambda>_. RetNone))
                   (\<lambda>error. print (''[WARN] Playwright cleanup error: '' @ str_exn error)))
                (modify (\<lambda>s. s\<lparr>self_playwright := None\<rparr>))) ?s3 = (Inr (), ?s4)"
    using release_block[of self_playwright PwStop "pw_stop env" "''[WARN] Playwright cleanup error: ''"
            "\<lambda>s. s\<lparr>self_playwright := None\<rparr>" ?s3]
    by (simp add: reset_same split: option.splits)
  show ?thesis
    by (simp only: cleanup_def thenE_apply 1 2 3 4 prod.case sum.case cleanup_spec_def Let_def)
qed

lemma wp_cleanup: "wp (cleanup env) Q E s = Q () (cleanup_spec env s)"
  by (simp add: wp_def cleanup_eq)

lemma release_state_fields [simp]:
  "self_page (release_state h mk w cl s) = self_page s"
  "self_context (release_state h mk w cl s) = self_context s"
  "self_browser (release_state h mk w cl s) = self_browser s"
  "self_playwright (release_state h mk w cl s) = self_playwright s"
  "report (release_state h mk w cl s) = report s"
  "config (release_state h mk w cl s) = config s"
  by (simp_all add: release_state_def split: prod.splits)

lemma release_state_trace:
  "trace (release_state h mk w cl s) = trace s @ release_log h mk w (fst (attempt h cl (world s)))"
  by (simp add: release_state_def split: prod.splits)

lemma cleanup_spec_fields [simp]:
  "self_page (cleanup_spec env s) = None"
  "self_context (cleanup_spec env s) = None"
  "self_browser (cleanup_spec env s) = None"
  "self_playwright (cleanup_spec env s) = None"
  "report (cleanup_spec env s) = report s"
  "config (cleanup_spec env s) = config s"
  by (simp_all add: cleanup_spec_def Let_def)

lemma cleanup_spec_shape:
  "\<exists>o1 o2 o3 o4.
     trace (cleanup_spec env s) = trace s
       @ release_log (self_page s) PageClose ''[WARN] Page cleanup error: '' o1
       @ release_log (self_context s) ContextClose ''[WARN] Context cleanup error: '' o2
       @ release_log (self_browser s) BrowserClose ''[WARN] Browser cleanup error: '' o3
       @ release_log (self_playwright s) PwStop ''[WARN] Playwright cleanup error: '' o4"
  by (simp add: cleanup_spec_def Let_def release_state_trace) blast

lemma new_events_append [simp]: "trace s' = trace s @ tr \<Longrightarrow> new_events s s' = tr"
  by (simp add: new_events_def)

lemma releases_append [simp]: "releases (xs @ ys) = releases xs @ releases ys"
  by (simp add: releases_def)

lemma acquisitions_append [simp]: "acquisitions (xs @ ys) = acquisitions xs @ acquisitions ys"
  by (simp add: acquisitions_def)

lemma releases_Nil [simp]: "releases [] = []"
  by (simp add: releases_def)

lemma acquisitions_Nil [simp]: "acquisitions [] = []"
  by (simp add: acquisitions_def)

lemma releases_release_log [simp]:
  "releases (release_log h PageClose w o1) = (case h of None \<Rightarrow> [] | Some p \<Rightarrow> [PageClose p])"
  "releases (release_log h ContextClose w o1) = (case h of None \<Rightarrow> [] | Some p \<Rightarrow> [ContextClose p])"
  "releases (release_log h BrowserClose w o1) = (case h of None \<Rightarrow> [] | Some p \<Rightarrow> [BrowserClose p])"
  "releases (release_log h PwStop w o1) = (case h of None \<Rightarrow> [] | Some p \<Rightarrow> [PwStop p])"
  by (simp_all add: release_log_def releases_def release_of_def split: option.splits)

lemma acquisitions_release_log [simp]: "acquisitions (release_log h mk w o1) = []"
  by (cases h; cases o1) (simp_all add: release_log_def acquisitions_def owed_def)

lemma release_log_events:
  "mk \<in> {PageClose, ContextClose, BrowserClose, PwStop} \<Longrightarrow> ev \<in> set (release_log h mk w o1) \<Longrightarrow>
   release_event ev"
  by (auto simp: release_log_def release_event_def release_of_def split: option.splits)

lemma cleanup_spec_summary:
  "\<exists>tr. trace (cleanup_spec env s) = trace s @ tr \<and> releases tr = held s \<and> acquisitions tr = []
        \<and> (\<forall>ev \<in> set tr. release_event ev)"
proof -
  obtain o1 o2 o3 o4 where
    t: "trace (cleanup_spec env s) = trace s
       @ release_log (self_page s) PageClose ''[WARN] Page cleanup error: '' o1
       @ release_log (self_context s) ContextClose ''[WARN] Context cleanup error: '' o2
       @ release_log (self_browser s) BrowserClose ''[WARN] Browser cleanup error: '' o3
       @ release_log (self_playwright s) PwStop ''[WARN] Playwright cleanup error: '' o4"
    using cleanup_spec_shape by blast
  show ?thesis
    unfolding t
    by (intro exI conjI refl) (auto simp: held_def dest: release_log_events[rotated])
qed

subsection \<open>\<open>initialize\<close>\<close>

lemma cleanup_trace:
  "trace (cleanup_spec env s) = trace s @ new_events s (cleanup_spec env s)"
  using cleanup_spec_summary[of env s] by (auto simp: new_events_def)

lemma cleanup_log [simp]:
  "releases (new_events s (cleanup_spec env s)) = held s"
  "acquisitions (new_events s (cleanup_spec env s)) = []"
  using cleanup_spec_summary[of env s] by auto

lemma release_event_quiet:
  assumes "release_event ev"
  shows "\<not> critical_failure ev" and "quiet obs ev"
proof -
  from assms consider c r where "ev = Call c r" "release_of ev = [c]" | m where "ev = Print m"
    by (auto simp: release_event_def)
  then have "\<not> critical_failure ev \<and> quiet obs ev"
  proof cases
    case 1
    then show ?thesis
      by (cases c; cases r)
         (simp_all add: release_of_def critical_failure_def quiet_def analysis_call_def
            action_call_def notified_by_def)
  next
    case 2
    then show ?thesis
      by (simp add: critical_failure_def quiet_def analysis_call_def action_call_def notified_by_def)
  qed
  then show "\<not> critical_failure ev" and "quiet obs ev" by simp_all
qed

lemma cleanup_log_quiet [simp]:
  "list_all (quiet obs) (new_events s (cleanup_spec env s))"
  "list_all (\<lambda>ev. \<not> critical_failure ev) (new_events s (cleanup_spec env s))"
  using cleanup_spec_summary[of env s] release_event_quiet(1) release_event_quiet(2)[of _ obs]
  by (auto simp: list_all_iff)

lemma held_simps [simp]:
  "held (s\<lparr>world := w\<rparr>) = held s"
  "held (s\<lparr>trace := t\<rparr>) = held s"
  "held (s\<lparr>report := r\<rparr>) = held s"
  by (simp_all add: held_def)

lemma held_cleanup [simp]: "held (cleanup_spec env s) = []"
  by (simp add: held_def)

lemma releases_Cons [simp]: "releases (ev # tr) = release_of ev @ releases tr"
  by (simp add: releases_def)

lemma acquisitions_Cons [simp]: "acquisitions (ev # tr) = owed ev @ acquisitions tr"
  by (simp add: acquisitions_def)

lemma release_of_simps [simp]:
  "release_of (Call PwStart r) = []"
  "release_of (Call (Launch a b1 b2 b3) r) = []"
  "release_of (Call (NewContext a c1 c2 c3) r) = []"
  "release_of (Call (NewPage a) r) = []"
  "release_of (Call (SetDefaultTimeout a i) r) = []"
  "release_of (Call (Goto a u1 u2 i) r) = []"
  "release_of (Call (Evaluate a sc) r) = []"
  "release_of (Call (WaitForTimeout a v) r) = []"
  "release_of (Call (Click a v) r) = []"
  "release_of (Call (Fill a v v') r) = []"
  "release_of (Call (PageClose a) r) = [PageClose a]"
  "release_of (Call (ContextClose a) r) = [ContextClose a]"
  "release_of (Call (BrowserClose a) r) = [BrowserClose a]"
  "release_of (Call (PwStop a) r) = [PwStop a]"
  "release_of (Print m) = []"
  "release_of (Notify u x) = []"
  by (simp_all add: release_of_def)

lemma owed_simps [simp]:
  "owed (Call cl (Inl e)) = []"
  "owed (Call cl (Inr RetNone)) = []"
  "owed (Call cl (Inr (RetValue v))) = []"
  "owed (Call cl (Inr (RetResponse rs))) = []"
  "owed (Call cl (Inr (RetHandle None))) = []"
  "owed (Call PwStart (Inr (RetHandle (Some h)))) = [PwStop h]"
  "owed (Call (Launch a b1 b2 b3) (Inr (RetHandle (Some h)))) = [BrowserClose h]"
  "owed (Call (NewContext a c1 c2 c3) (Inr (RetHandle (Some h)))) = [ContextClose h]"
  "owed (Call (NewPage a) (Inr (RetHandle (Some h)))) = [PageClose h]"
  "owed (Print m) = []"
  "owed (Notify u x) = []"
  by (simp_all add: owed_def)

lemma quiet_simps [simp]:
  "quiet obs (Call PwStart r)"
  "quiet obs (Call (Launch a b1 b2 b3) r)"
  "quiet obs (Call (NewContext a c1 c2 c3) r)"
  "quiet obs (Call (NewPage a) r)"
  "quiet obs (Call (SetDefaultTimeout a i) r)"
  "quiet obs (Call (Goto a u1 u2 i) r)"
  "quiet obs (Print m)"
  by (simp_all add: quiet_def analysis_call_def action_call_def notified_by_def)

lemma critical_failure_simps [simp]:
  "\<not> critical_failure (Call cl (Inr y))"
  "\<not> critical_failure (Print m)"
  "\<not> critical_failure (Notify u x)"
  "critical_failure (Call PwStart (Inl e))"
  "critical_failure (Call (Launch a b1 b2 b3) (Inl e))"
  "critical_failure (Call (NewContext a c1 c2 c3) (Inl e))"
  "critical_failure (Call (NewPage a) (Inl e))"
  "critical_failure (Call (SetDefaultTimeout a i) (Inl e))"
  "critical_failure (Call (Goto a u1 u2 i) (Inl e))"
  "critical_failure (Call (Evaluate a AnalyzeScript) (Inl e))"
  "\<not> critical_failure (Call (Evaluate a ScrollScript) r)"
  "\<not> critical_failure (Call (WaitForTimeout a v) r)"
  "\<not> critical_failure (Call (Click a v) r)"
  "\<not> critical_failure (Call (Fill a v v') r)"
  by (simp_all add: critical_failure_def split: sum.splits)

lemma cleanup_rule:
  assumes "\<And>s'. handle_free s' \<Longrightarrow> report s' = report s \<Longrightarrow> config s' = config s \<Longrightarrow>
         (\<exists>tr. trace s' = trace s @ tr \<and> releases tr = held s \<and> acquisitions tr = []
            \<and> list_all (quiet obs) tr \<and> list_all (\<lambda>ev. \<not> critical_failure ev) tr) \<Longrightarrow> Q () s'"
  shows "wp (cleanup env) Q E s"
  unfolding wp_cleanup
  by (rule assms) (auto simp: handle_free_def intro!: exI[of _ "new_events s (cleanup_spec env s)"] cleanup_trace)

lemma held_handle_free [simp]: "handle_free s \<Longrightarrow> held s = []"
  by (simp add: handle_free_def held_def)

lemma handle_free_simps [simp]:
  "handle_free (s\<lparr>world := w\<rparr>) = handle_free s"
  "handle_free (s\<lparr>trace := t\<rparr>) = handle_free s"
  "handle_free (s\<lparr>report := r\<rparr>) = handle_free s"
  by (simp_all add: handle_free_def)

lemma initialize_summary:
  "wp (initialize env)
     (\<lambda>b s'. \<exists>tr. trace s' = trace s @ tr \<and> report s' = report s \<and> config s' = config s
        \<and> releases tr @ held s' = held s @ rev (acquisitions tr)
        \<and> list_all (quiet obs) tr
        \<and> (if b then self_page s' \<noteq> None \<and> list_all (\<lambda>ev. \<not> critical_failure ev) tr
            else handle_free s'))
     (\<lambda>e s'. False) s"
  unfolding initialize_def
  apply (simp only: wp_try_except wp_thenE)
  apply (rule cleanup_rule[where obs=obs])
  apply (erule exE)
  apply (simp split: prod.splits sum.splits option.splits)
  apply (intro conjI allI impI)
  apply (rule cleanup_rule[where obs=obs], clarsimp simp: held_def handle_free_def)+
  apply (simp add: held_def handle_free_def)
  done

subsection \<open>The actions\<close>

lemma same_session_simps [simp]:
  "same_session s s"
  "same_session s (s'\<lparr>world := w\<rparr>) = same_session s s'"
  "same_session s (s'\<lparr>trace := t\<rparr>) = same_session s s'"
  "same_session s (s'\<lparr>report := r\<rparr>) = same_session s s'"
  by (simp_all add: same_session_def)

lemma same_session_trans: "same_session s s1 \<Longrightarrow> same_session s1 s2 \<Longrightarrow> same_session s s2"
  by (simp add: same_session_def)

lemma same_session_held: "same_session s s' \<Longrightarrow> held s' = held s"
  by (simp add: same_session_def held_def)

lemma action_calls_simps [simp]:
  "action_calls [] = []"
  "action_calls (xs @ ys) = action_calls xs @ action_calls ys"
  "action_calls (Print m # tr) = action_calls tr"
  "action_calls (Notify u x # tr) = action_calls tr"
  "action_calls (Call (Click p v) r # tr) = Click p v # action_calls tr"
  "action_calls (Call (Fill p v v') r # tr) = Fill p v v' # action_calls tr"
  "action_calls (Call (WaitForTimeout p v) r # tr) = WaitForTimeout p v # action_calls tr"
  "action_calls (Call (Evaluate p ScrollScript) r # tr) = Evaluate p ScrollScript # action_calls tr"
  by (simp_all add: action_calls_def action_call_def)

lemma notified_by_simps [simp]:
  "notified_by obs (Call c r)"
  "notified_by obs (Print m)"
  by (simp_all add: notified_by_def)

lemma notified_by_Notify: "f u w = (x, w') \<Longrightarrow> notified_by (Some f) (Notify u x)"
  by (auto simp: notified_by_def intro: exI[of _ w])

lemma step_event_simps [simp]:
  "step_event obs (Call (Click p v) r)"
  "step_event obs (Call (Fill p v v') r)"
  "step_event obs (Call (WaitForTimeout p v) r)"
  "step_event obs (Call (Evaluate p ScrollScript) r)"
  "step_event obs (Print m)"
  by (simp_all add: step_event_def analysis_call_def critical_failure_def release_of_def owed_def
        split: sum.splits ret.splits option.splits)

lemma step_event_Notify: "f u w = (x, w') \<Longrightarrow> step_event (Some f) (Notify u x)"
  by (simp add: step_event_def analysis_call_def notified_by_Notify)

lemma notify_rule:
  assumes "obs = None \<Longrightarrow> Q () s"
    and "\<And>f w'. obs = Some f \<Longrightarrow> f u (world s) = (None, w') \<Longrightarrow>
           Q () (s\<lparr>world := w', trace := trace s @ [Notify u None]\<rparr>)"
    and "\<And>f w' e. obs = Some f \<Longrightarrow> f u (world s) = (Some e, w') \<Longrightarrow>
           E e (s\<lparr>world := w', trace := trace s @ [Notify u (Some e)]\<rparr>)"
  shows "wp (notify obs u) Q E s"
  using assms by (simp split: option.splits prod.splits)

lemma perform_action_summary:
  assumes "self_page s = Some p"
  shows "wp (perform_action env a obs)
     (\<lambda>_ s'. same_session s s' \<and> errors (report s') = errors (report s)
        \<and> success (report s') = success (report s)
        \<and> (\<exists>tr. trace s' = trace s @ tr \<and> action_calls tr = expected_call p a
              \<and> list_all (step_event obs) tr))
     (\<lambda>e s'. same_session s s' \<and> errors (report s') = errors (report s)
        \<and> success (report s') = success (report s)
        \<and> (\<exists>tr. trace s' = trace s @ tr \<and> action_calls tr = expected_call p a
              \<and> list_all (step_event obs) tr)) s"
  unfolding perform_action_def
  using assms
  apply (simp add: Let_def expected_call_def del: wp_notify split: option.splits prod.splits sum.splits)
  apply (intro conjI impI allI)
  apply (rule notify_rule; simp add: step_event_Notify)+
  done

lemma same_session_page: "same_session s s' \<Longrightarrow> self_page s = Some p \<Longrightarrow> self_page s' = Some p"
  by (simp add: same_session_def)

lemma run_custom_actions_summary:
  assumes "self_page s = Some p"
  shows "wp (run_custom_actions env acts obs)
     (\<lambda>_ s'. same_session s s' \<and> success (report s') = success (report s)
        \<and> (\<exists>es. errors (report s') = errors (report s) @ es
              \<and> list_all (\<lambda>e. e_type e = ''ACTION_ERROR'') es)
        \<and> (\<exists>tr. trace s' = trace s @ tr \<and> action_calls tr = concat (map (expected_call p) acts)
              \<and> list_all (step_event obs) tr))
     (\<lambda>e s'. False) s"
  using assms
proof (induction acts arbitrary: s)
  case Nil
  then show ?case by simp
next
  case (Cons a rest)
  note pa = perform_action_summary[OF Cons.prems, of env a obs]
  show ?case
    unfolding run_custom_actions.simps wp_thenE wp_try_except
  proof (rule wp_mono[OF pa], goal_cases)
    case (1 x s1)
    then obtain tr1 where s1: "same_session s s1" "errors (report s1) = errors (report s)"
      "success (report s1) = success (report s)" "trace s1 = trace s @ tr1"
      "action_calls tr1 = expected_call p a" "list_all (step_event obs) tr1"
      by blast
    have pg: "self_page s1 = Some p" using s1(1) Cons.prems by (rule same_session_page)
    show ?case
      by (rule wp_mono[OF Cons.IH[OF pg]])
         (use s1 in \<open>auto simp: same_session_def\<close>)
  next
    case (2 e s1)
    then obtain tr1 where s1: "same_session s s1" "errors (report s1) = errors (report s)"
      "success (report s1) = success (report s)" "trace s1 = trace s @ tr1"
      "action_calls tr1 = expected_call p a" "list_all (step_event obs) tr1"
      by blast
    obtain ts w' where nw: "now env (world s1) = (ts, w')" by (cases "now env (world s1)")
    let ?s2 = "s1\<lparr>world := w', report := (report s1)\<lparr>errors := errors (report s1) @
        [\<lparr>e_type = ''ACTION_ERROR'', e_action = Some (dict_get a ''type'' PyNone),
          e_message = str_exn e, e_timestamp = ts\<rparr>]\<rparr>\<rparr>"
    have pg: "self_page ?s2 = Some p" using same_session_page[OF s1(1) Cons.prems] by simp
    show ?case
      apply (simp add: nw)
      apply (rule wp_mono[OF Cons.IH[OF pg]])
      using s1 apply (auto simp: same_session_def)
      done
  qed
qed

lemma perform_automated_actions_summary:
  "wp (perform_automated_actions env obs)
     (\<lambda>_ s'. same_session s s' \<and> success (report s') = success (report s)
        \<and> (\<exists>es. errors (report s') = errors (report s) @ es
              \<and> list_all (\<lambda>e. e_type e = ''AUTOMATION_ERROR'') es)
        \<and> (\<exists>tr. trace s' = trace s @ tr \<and> list_all (step_event obs) tr))
     (\<lambda>e s'. False) s"
  unfolding perform_automated_actions_def
  apply (simp del: wp_notify split: option.splits prod.splits sum.splits)
  apply (intro conjI impI allI)
  apply (rule notify_rule; simp add: step_event_Notify split: prod.splits)+
  done

lemma run_custom_actions_no_page:
  "self_page s = None \<Longrightarrow> run_custom_actions env acts obs s = (Inr (), s)"
proof (induction acts)
  case Nil
  then show ?case by (simp add: returnE_def)
next
  case (Cons a rest)
  have "perform_action env a obs s = (Inr (), s)"
    using Cons.prems by (simp add: perform_action_def bindE_def gets_def returnE_def)
  then show ?case
    using Cons by (simp add: thenE_def bindE_def try_except_def)
qed

lemma run_custom_actions_returns: "fst (run_custom_actions env acts obs s) = Inr ()"
proof (cases "self_page s")
  case None
  then show ?thesis by (simp add: run_custom_actions_no_page)
next
  case (Some p)
  from run_custom_actions_summary[OF Some, of env acts obs]
  show ?thesis by (auto simp: wp_def split: prod.splits sum.splits)
qed

lemma scroll_failure_recorded:
  assumes "self_page s = Some p" and "evaluate env p ScrollScript (world s) = (Inl e, w)"
  shows "errors (report (snd (perform_automated_actions env obs s))) =
           errors (report s) @ [\<lparr>e_type = ''AUTOMATION_ERROR'', e_action = None,
                                 e_message = str_exn e, e_timestamp = fst (now env w)\<rparr>]
         \<and> actions (report (snd (perform_automated_actions env obs s))) = actions (report s)"
proof -
  have "wp (perform_automated_actions env obs)
      (\<lambda>_ s'. errors (report s') =
           errors (report s) @ [\<lparr>e_type = ''AUTOMATION_ERROR'', e_action = None,
                                 e_message = str_exn e, e_timestamp = fst (now env w)\<rparr>]
         \<and> actions (report s') = actions (report s)) (\<lambda>e s'. False) s"
    unfolding perform_automated_actions_def using assms
    by (simp split: prod.splits)
  then show ?thesis by (auto simp: wp_def split: prod.splits sum.splits)
qed

subsection \<open>What the actions leave in the report\<close>

lemma action_call_simps [simp]:
  "action_call (Call (Click p v) r)"
  "action_call (Call (Fill p v v') r)"
  "action_call (Call (WaitForTimeout p v) r)"
  "action_call (Call (Evaluate p ScrollScript) r)"
  "\<not> action_call (Print m)"
  "\<not> action_call (Notify u x)"
  by (simp_all add: action_call_def)

lemma raised_simps [simp]:
  "raised [] = []"
  "raised (xs @ ys) = raised xs @ raised ys"
  "raised (Call c (Inl e) # tr) = e # raised tr"
  "raised (Call c (Inr y) # tr) = raised tr"
  "raised (Notify u (Some e) # tr) = e # raised tr"
  "raised (Notify u None # tr) = raised tr"
  "raised (Print m # tr) = raised tr"
  by (simp_all add: raised_def raised_by_def)

lemma returned_simps [simp]:
  "returned (Call c (Inr y))"
  "\<not> returned (Call c (Inl e))"
  "\<not> returned (Notify u x)"
  "\<not> returned (Print m)"
  by (simp_all add: returned_def)

lemma results_of_Nil [simp]: "results_of env p [] tr = []" "results_of env p acts [] = []"
  by (simp_all add: results_of_def)

lemma perform_action_effect:
  assumes "self_page s = Some p"
  shows "wp (perform_action env a obs)
     (\<lambda>_ s'. errors (report s') = errors (report s)
        \<and> (\<exists>tr ra. trace s' = trace s @ tr \<and> actions (report s') = actions (report s) @ ra
              \<and> action_calls tr = expected_call p a
              \<and> map result_of ra = results_of env p [a] tr
              \<and> raised tr = [] \<and> \<not> missing_key a))
     (\<lambda>e s'. errors (report s') = errors (report s)
        \<and> (\<exists>tr ra. trace s' = trace s @ tr \<and> actions (report s') = actions (report s) @ ra
              \<and> action_calls tr = expected_call p a
              \<and> map result_of ra = results_of env p [a] tr
              \<and> (if missing_key a then raised tr = [] \<and> e = key_error a else raised tr = [e]))) s"
proof -
  consider (click) "dict_get a ''type'' PyNone = PyStr ''click''"
    | (type) "dict_get a ''type'' PyNone = PyStr ''type''"
    | (wait) "dict_get a ''type'' PyNone = PyStr ''wait''"
    | (other) "dict_get a ''type'' PyNone \<noteq> PyStr ''click''" "dict_get a ''type'' PyNone \<noteq> PyStr ''type''"
        "dict_get a ''type'' PyNone \<noteq> PyStr ''wait''"
    by blast
  then show ?thesis
  proof cases
    case click
    show ?thesis
    proof (cases "a ''selector''")
      case None
      show ?thesis
        unfolding perform_action_def using assms click None
        by (simp add: Let_def expected_call_def missing_key_def key_error_def split del: if_split)
    next
      case (Some sel)
      show ?thesis
        unfolding perform_action_def using assms click Some
        apply (simp add: Let_def expected_call_def missing_key_def del: wp_notify
                 split del: if_split split: prod.splits sum.splits)
        apply (intro conjI impI allI)
        apply ((rule notify_rule)?;
               simp add: results_of_def result_of_def expected_result_def expected_call_def dict_get_def
                 split del: if_split)+
        done
    qed
  next
    case type
    then have nc: "dict_get a ''type'' PyNone \<noteq> PyStr ''click''" by simp
    show ?thesis
    proof (cases "a ''selector''")
      case None
      show ?thesis
        unfolding perform_action_def using assms type nc None
        by (simp add: Let_def expected_call_def missing_key_def key_error_def split del: if_split)
    next
      case (Some sel)
      show ?thesis
      proof (cases "a ''text''")
        case None
        show ?thesis
          unfolding perform_action_def using assms type nc Some None
          by (simp add: Let_def expected_call_def missing_key_def key_error_def split del: if_split)
      next
        case tx: (Some t)
        show ?thesis
          unfolding perform_action_def using assms type nc Some tx
          apply (simp add: Let_def expected_call_def missing_key_def del: wp_notify
                   split del: if_split split: prod.splits sum.splits)
          apply (intro conjI impI allI)
          apply ((rule notify_rule)?;
                 simp add: results_of_def result_of_def expected_result_def expected_call_def dict_get_def
                   split del: if_split)+
          done
      qed
    qed
  next
    case wait
    then have nc: "dict_get a ''type'' PyNone \<noteq> PyStr ''click''" "dict_get a ''type'' PyNone \<noteq> PyStr ''type''"
      by simp_all
    show ?thesis
      unfolding perform_action_def using assms wait nc
      apply (simp add: Let_def expected_call_def missing_key_def del: wp_notify
               split del: if_split split: prod.splits sum.splits)
      apply (intro conjI impI allI)
      apply ((rule notify_rule)?;
             simp add: results_of_def result_of_def expected_result_def expected_call_def
               split del: if_split)+
      done
  next
    case other
    show ?thesis
      unfolding perform_action_def using assms other
      apply (simp add: Let_def expected_call_def missing_key_def del: wp_notify split del: if_split)
      apply ((rule notify_rule)?;
             simp add: results_of_def expected_call_def split del: if_split)+
      done
  qed
qed

lemma wp_conj:
  "wp m Q1 E1 s \<Longrightarrow> wp m Q2 E2 s \<Longrightarrow> wp m (\<lambda>x s'. Q1 x s' \<and> Q2 x s') (\<lambda>e s'. E1 e s' \<and> E2 e s') s"
  by (auto simp: wp_def split: prod.splits sum.splits)

lemma length_filter_action_call: "length (filter action_call tr) = length (action_calls tr)"
proof (induction tr)
  case Nil
  show ?case by simp
next
  case (Cons ev tr)
  have "action_calls (ev # tr) = action_calls [ev] @ action_calls tr"
    using action_calls_simps(2)[of "[ev]" tr] by simp
  moreover have "length (action_calls [ev]) = (if action_call ev then 1 else 0)"
    by (cases ev) (simp_all add: action_calls_def)
  ultimately show ?case using Cons by simp
qed

lemma expected_call_length:
  "length (expected_call p a) = (if expected_call p a = [] then 0 else 1)"
  by (simp add: expected_call_def split: option.splits)

lemma results_of_Cons:
  assumes "action_calls tr1 = expected_call p a"
  shows "results_of env p (a # rest) (tr1 @ tr2) = results_of env p [a] tr1 @ results_of env p rest tr2"
proof -
  let ?has = "\<lambda>a. expected_call p a \<noteq> []"
  have len: "length (filter ?has [a]) = length (filter action_call tr1)"
    using assms expected_call_length[of p a] by (simp add: length_filter_action_call)
  have "zip (filter ?has (a # rest)) (filter action_call (tr1 @ tr2))
      = zip (filter ?has [a] @ filter ?has rest) (filter action_call tr1 @ filter action_call tr2)"
    by simp
  also have "\<dots> = zip (filter ?has [a]) (filter action_call tr1) @ zip (filter ?has rest) (filter action_call tr2)"
    using len by (rule zip_append)
  finally show ?thesis by (simp add: results_of_def)
qed

lemma run_custom_actions_effect:
  assumes "self_page s = Some p"
  shows "wp (run_custom_actions env acts obs)
     (\<lambda>_ s'. \<exists>tr ra es. trace s' = trace s @ tr \<and> actions (report s') = actions (report s) @ ra
         \<and> errors (report s') = errors (report s) @ es
         \<and> map result_of ra = results_of env p acts tr
         \<and> list_all (\<lambda>e. e_type e = ''ACTION_ERROR'') es
         \<and> length es = length (raised tr) + length (filter missing_key acts))
     (\<lambda>e s'. False) s"
  using assms
proof (induction acts arbitrary: s)
  case Nil
  then show ?case by simp
next
  case (Cons a rest)
  note pa = wp_conj[OF perform_action_summary[OF Cons.prems, of env a obs]
                       perform_action_effect[OF Cons.prems, of env a obs]]
  show ?case
    unfolding run_custom_actions.simps wp_thenE wp_try_except
  proof (rule wp_mono[OF pa], goal_cases)
    case (1 x s1)
    then obtain tr1 ra1 where s1: "same_session s s1" "errors (report s1) = errors (report s)"
      "trace s1 = trace s @ tr1" "actions (report s1) = actions (report s) @ ra1"
      "action_calls tr1 = expected_call p a" "map result_of ra1 = results_of env p [a] tr1"
      "raised tr1 = []" "\<not> missing_key a"
      by blast
    have pg: "self_page s1 = Some p" using s1(1) Cons.prems by (rule same_session_page)
    show ?case
    proof (rule wp_mono[OF Cons.IH[OF pg]], goal_cases)
      case (1 y s2)
      then obtain tr2 ra2 es2 where s2: "trace s2 = trace s1 @ tr2"
        "actions (report s2) = actions (report s1) @ ra2" "errors (report s2) = errors (report s1) @ es2"
        "map result_of ra2 = results_of env p rest tr2" "list_all (\<lambda>e. e_type e = ''ACTION_ERROR'') es2"
        "length es2 = length (raised tr2) + length (filter missing_key rest)"
        by blast
      show ?case
        apply (rule exI[of _ "tr1 @ tr2"], rule exI[of _ "ra1 @ ra2"], rule exI[of _ es2])
        using s1 s2 by (simp add: results_of_Cons)
    qed simp
  next
    case (2 e s1)
    then obtain tr1 ra1 where s1: "same_session s s1" "errors (report s1) = errors (report s)"
      "trace s1 = trace s @ tr1" "actions (report s1) = actions (report s) @ ra1"
      "action_calls tr1 = expected_call p a" "map result_of ra1 = results_of env p [a] tr1"
      "if missing_key a then raised tr1 = [] \<and> e = key_error a else raised tr1 = [e]"
      by blast
    obtain ts w' where nw: "now env (world s1) = (ts, w')" by (cases "now env (world s1)")
    let ?en = "\<lparr>e_type = ''ACTION_ERROR'', e_action = Some (dict_get a ''type'' PyNone),
          e_message = str_exn e, e_timestamp = ts\<rparr>"
    let ?s2 = "s1\<lparr>world := w', report := (report s1)\<lparr>errors := errors (report s1) @ [?en]\<rparr>\<rparr>"
    have pg: "self_page ?s2 = Some p" using same_session_page[OF s1(1) Cons.prems] by simp
    have "wp (run_custom_actions env rest obs)
       (\<lambda>_ s'. \<exists>tr ra es. trace s' = trace s @ tr \<and> actions (report s') = actions (report s) @ ra
         \<and> errors (report s') = errors (report s) @ es
         \<and> map result_of ra = results_of env p (a # rest) tr
         \<and> list_all (\<lambda>e. e_type e = ''ACTION_ERROR'') es
         \<and> length es = length (raised tr) + length (filter missing_key (a # rest)))
       (\<lambda>e s'. False) ?s2"
    proof (rule wp_mono[OF Cons.IH[OF pg]], goal_cases)
      case (1 y s2)
      then obtain tr2 ra2 es2 where s2: "trace s2 = trace ?s2 @ tr2"
        "actions (report s2) = actions (report ?s2) @ ra2" "errors (report s2) = errors (report ?s2) @ es2"
        "map result_of ra2 = results_of env p rest tr2" "list_all (\<lambda>e. e_type e = ''ACTION_ERROR'') es2"
        "length es2 = length (raised tr2) + length (filter missing_key rest)"
        by blast
      show ?case
        apply (rule exI[of _ "tr1 @ tr2"], rule exI[of _ "ra1 @ ra2"], rule exI[of _ "?en # es2"])
        using s1 s2 by (simp add: results_of_Cons split: if_splits)
    qed simp
    then show ?case by (simp add: nw)
  qed
qed

lemma perform_automated_actions_effect:
  assumes "self_page s = Some p"
  shows "wp (perform_automated_actions env obs)
     (\<lambda>_ s'. \<exists>tr ra es. trace s' = trace s @ tr \<and> actions (report s') = actions (report s) @ ra
        \<and> errors (report s') = errors (report s) @ es
        \<and> map entry_of es = map automation_entry (raised tr) \<and> length (raised tr) \<le> 1
        \<and> map result_of ra =
            (if Call (WaitForTimeout p (PyInt 1000)) (Inr RetNone) \<in> set tr then [scroll_result] else [])
        \<and> action_calls tr =
            (case fst (evaluate env p ScrollScript (world s)) of
               Inl _ \<Rightarrow> [Evaluate p ScrollScript]
             | Inr _ \<Rightarrow> [Evaluate p ScrollScript, WaitForTimeout p (PyInt 1000)]))
     (\<lambda>e s'. False) s"
proof -
  obtain r w1 where ev: "evaluate env p ScrollScript (world s) = (r, w1)"
    by (cases "evaluate env p ScrollScript (world s)")
  show ?thesis
  proof (cases r)
    case (Inl e)
    show ?thesis
      unfolding perform_automated_actions_def using assms ev Inl
      by (simp add: entry_of_def automation_entry_def split del: if_split split: prod.splits)
  next
    case (Inr v)
    obtain r2 w2 where wt: "wait_for_timeout env p (PyInt 1000) w1 = (r2, w2)"
      by (cases "wait_for_timeout env p (PyInt 1000) w1")
    show ?thesis
    proof (cases r2)
      case (Inl e)
      show ?thesis
        unfolding perform_automated_actions_def using assms ev \<open>r = Inr v\<close> wt Inl
        by (simp add: entry_of_def automation_entry_def split del: if_split split: prod.splits)
    next
      case r2: (Inr u)
      show ?thesis
        unfolding perform_automated_actions_def using assms ev \<open>r = Inr v\<close> wt r2
        apply (simp del: wp_notify split del: if_split split: prod.splits)
        apply (intro conjI impI allI)
        apply (rule notify_rule;
               simp add: entry_of_def automation_entry_def result_of_def scroll_result_def
                 split del: if_split split: prod.splits)
        done
    qed
  qed
qed

lemma automated_effect_holds:
  assumes "self_page s = Some p"
  shows "automated_effect env p s (snd (perform_automated_actions env obs s))"
proof -
  obtain r s' where run: "perform_automated_actions env obs s = (r, s')"
    by (cases "perform_automated_actions env obs s")
  from perform_automated_actions_effect[OF assms, of env obs] run
  obtain tr ra es where "trace s' = trace s @ tr" "actions (report s') = actions (report s) @ ra"
    "errors (report s') = errors (report s) @ es"
    "map entry_of es = map automation_entry (raised tr)" "length (raised tr) \<le> 1"
    "map result_of ra =
       (if Call (WaitForTimeout p (PyInt 1000)) (Inr RetNone) \<in> set tr then [scroll_result] else [])"
    "action_calls tr =
       (case fst (evaluate env p ScrollScript (world s)) of
          Inl _ \<Rightarrow> [Evaluate p ScrollScript]
        | Inr _ \<Rightarrow> [Evaluate p ScrollScript, WaitForTimeout p (PyInt 1000)])"
    by (cases r) (auto simp: wp_def)
  then show ?thesis
    by (simp add: run automated_effect_def Let_def new_events_def new_errors_def new_actions_def)
qed

lemma loop_effect_holds:
  assumes "self_page s = Some p"
  shows "loop_effect env p acts s (snd (run_custom_actions env acts obs s))"
proof -
  obtain r s' where run: "run_custom_actions env acts obs s = (r, s')"
    by (cases "run_custom_actions env acts obs s")
  from run_custom_actions_effect[OF assms, of env acts obs] run
  obtain tr ra es where e: "trace s' = trace s @ tr" "actions (report s') = actions (report s) @ ra"
    "errors (report s') = errors (report s) @ es"
    "map result_of ra = results_of env p acts tr"
    "list_all (\<lambda>e. e_type e = ''ACTION_ERROR'') es"
    "length es = length (raised tr) + length (filter missing_key acts)"
    by (cases r) (auto simp: wp_def)
  from run_custom_actions_summary[OF assms, of env acts obs] run
  obtain tr' where "trace s' = trace s @ tr'" "action_calls tr' = concat (map (expected_call p) acts)"
    by (cases r) (auto simp: wp_def)
  with e(1) have "action_calls tr = concat (map (expected_call p) acts)" by simp
  with e show ?thesis
    by (simp add: run loop_effect_def Let_def new_events_def new_errors_def new_actions_def)
qed

lemma perform_action_outcome:
  assumes "self_page s = Some p"
  shows "case perform_action env a obs s of
           (Inl e, s1) \<Rightarrow> failure_of a e (new_events s s1)
         | (Inr _, s1) \<Rightarrow> raised (new_events s s1) = [] \<and> \<not> missing_key a"
  using perform_action_effect[OF assms, of env a obs]
  by (auto simp: wp_def failure_of_def new_events_def split: prod.splits sum.splits)

subsection \<open>The phases of a run\<close>

lemma failed_analysis_is_simps [simp]:
  "failed_analysis_is e (Print m)"
  "failed_analysis_is e (Notify u x)"
  "failed_analysis_is e (Call c (Inr y))"
  "failed_analysis_is e (Call (Evaluate p AnalyzeScript) (Inl e')) = (e' = e)"
  by (simp_all add: failed_analysis_is_def split: call.splits script.splits)

lemma analysis_call_simps [simp]:
  "\<not> analysis_call (Print m)"
  "\<not> analysis_call (Notify u x)"
  "analysis_call (Call (Evaluate p AnalyzeScript) r)"
  by (simp_all add: analysis_call_def)

lemma not_critical_failed_analysis_is:
  assumes "\<not> critical_failure ev"
  shows "failed_analysis_is e ev"
proof (cases ev)
  case (Call c r)
  with assms show ?thesis
    by (cases c; cases r) (auto simp: critical_failure_def failed_analysis_is_def split: script.splits)
qed simp_all

lemma not_analysis_failed_analysis_is:
  assumes "\<not> analysis_call ev"
  shows "failed_analysis_is e ev"
proof (cases ev)
  case (Call c r)
  with assms show ?thesis
    by (cases c; cases r) (auto simp: analysis_call_def failed_analysis_is_def split: script.splits)
qed simp_all

lemma quiet_Notify: "f u w = (x, w') \<Longrightarrow> quiet (Some f) (Notify u x)"
  by (simp add: quiet_def notified_by_Notify)

lemma quiet_list:
  assumes "list_all (quiet obs) tr"
  shows "list_all (notified_by obs) tr" and "filter analysis_call tr = []"
    and "list_all (\<lambda>ev. \<not> action_call ev) tr" and "list_all (failed_analysis_is e) tr"
  using assms not_analysis_failed_analysis_is[of _ e]
  by (auto simp: list_all_iff quiet_def filter_empty_conv)

lemma step_event_list:
  assumes "list_all (step_event obs) tr"
  shows "list_all (notified_by obs) tr" and "filter analysis_call tr = []"
    and "list_all (\<lambda>ev. \<not> critical_failure ev) tr"
    and "releases tr = []" and "acquisitions tr = []"
proof -
  show "list_all (notified_by obs) tr" "filter analysis_call tr = []"
    "list_all (\<lambda>ev. \<not> critical_failure ev) tr"
    using assms by (auto simp: list_all_iff step_event_def filter_empty_conv)
  show "releases tr = []" "acquisitions tr = []"
    using assms by (induction tr) (simp_all add: step_event_def)
qed

lemma not_critical_list:
  "list_all (\<lambda>ev. \<not> critical_failure ev) tr \<Longrightarrow> list_all (failed_analysis_is e) tr"
  using not_critical_failed_analysis_is[of _ e] by (auto simp: list_all_iff)

lemma progress_within:
  assumes "progress obs s s1 tr1" and "within_session obs s1 s2 tr2"
    and "length (filter analysis_call tr1) + length (filter analysis_call tr2) \<le> 1"
  shows "progress obs s s2 (tr1 @ tr2)"
proof -
  from assms(2) have w: "same_session s1 s2" "trace s2 = trace s1 @ tr2" "releases tr2 = []"
    "acquisitions tr2 = []" "list_all (notified_by obs) tr2"
    by (simp_all add: within_session_def)
  have h: "held s2 = held s1" using w(1) by (rule same_session_held)
  have c: "config s2 = config s1" using w(1) by (simp add: same_session_def)
  show ?thesis
    using assms(1,3) w(2-5) unfolding progress_def h c by simp
qed

lemma within_session_page: "within_session obs s s' tr \<Longrightarrow> self_page s' = self_page s"
  by (simp add: within_session_def same_session_def)

lemma navigating_keep:
  assumes "phase_navigating obs s s1" and "within_session obs s1 s2 tr" and "list_all (quiet obs) tr"
    and "list_all (\<lambda>ev. \<not> critical_failure ev) tr" and "nothing_reported (report s2)"
  shows "phase_navigating obs s s2"
proof -
  from assms(1) obtain tr1 where p: "progress obs s s1 tr1" "list_all (quiet obs) tr1"
    "list_all (\<lambda>ev. \<not> critical_failure ev) tr1" "self_page s1 \<noteq> None"
    by (auto simp: phase_navigating_def)
  have "progress obs s s2 (tr1 @ tr)"
    using p(1) assms(2) by (rule progress_within) (simp add: quiet_list(2)[OF p(2)] quiet_list(2)[OF assms(3)])
  then show ?thesis
    unfolding phase_navigating_def
    using p assms within_session_page[OF assms(2)] by (intro conjI exI[of _ "tr1 @ tr"]) simp_all
qed

lemma navigating_abort:
  assumes "phase_navigating obs s s1" and "within_session obs s1 s2 tr" and "list_all (quiet obs) tr"
    and "nothing_reported (report s2)"
  shows "try_aborted obs e s s2"
proof -
  from assms(1) obtain tr1 where p: "progress obs s s1 tr1" "list_all (quiet obs) tr1"
    by (auto simp: phase_navigating_def)
  have "progress obs s s2 (tr1 @ tr)"
    using p(1) assms(2) by (rule progress_within) (simp add: quiet_list(2)[OF p(2)] quiet_list(2)[OF assms(3)])
  then show ?thesis
    unfolding try_aborted_def
    using assms(4) quiet_list(3,4)[OF p(2)] quiet_list(3,4)[OF assms(3)]
    by (intro conjI exI[of _ "tr1 @ tr"]) simp_all
qed

lemma navigating_analysed:
  assumes "phase_navigating obs s s1" and "within_session obs s1 s2 tr"
    and "list_all (\<lambda>ev. \<not> critical_failure ev) tr" and "list_all (\<lambda>ev. \<not> action_call ev) tr"
    and "length (filter analysis_call tr) \<le> 1" and "nothing_reported (report s2)"
  shows "phase_analysed obs s s2"
proof -
  from assms(1) obtain tr1 where p: "progress obs s s1 tr1" "list_all (quiet obs) tr1"
    "list_all (\<lambda>ev. \<not> critical_failure ev) tr1" "self_page s1 \<noteq> None"
    by (auto simp: phase_navigating_def)
  have "progress obs s s2 (tr1 @ tr)"
    using p(1) assms(2) by (rule progress_within) (use assms(5) in \<open>simp add: quiet_list(2)[OF p(2)]\<close>)
  then show ?thesis
    unfolding phase_analysed_def
    using p assms quiet_list(3)[OF p(2)] within_session_page[OF assms(2)]
    by (intro conjI exI[of _ "tr1 @ tr"]) simp_all
qed

lemma analysis_abort:
  assumes "phase_navigating obs s s1" and "within_session obs s1 s2 tr"
    and "list_all (\<lambda>ev. \<not> action_call ev) tr" and "list_all (failed_analysis_is e) tr"
    and "length (filter analysis_call tr) \<le> 1" and "nothing_reported (report s2)"
  shows "try_aborted obs e s s2"
proof -
  from assms(1) obtain tr1 where p: "progress obs s s1 tr1" "list_all (quiet obs) tr1"
    by (auto simp: phase_navigating_def)
  have "progress obs s s2 (tr1 @ tr)"
    using p(1) assms(2) by (rule progress_within) (use assms(5) in \<open>simp add: quiet_list(2)[OF p(2)]\<close>)
  then show ?thesis
    unfolding try_aborted_def
    using assms quiet_list(3,4)[OF p(2)]
    by (intro conjI exI[of _ "tr1 @ tr"]) simp_all
qed

lemma analysed_keep:
  assumes "phase_analysed obs s s1" and "within_session obs s1 s2 tr" and "list_all (quiet obs) tr"
    and "list_all (\<lambda>ev. \<not> critical_failure ev) tr" and "nothing_reported (report s2)"
  shows "phase_analysed obs s s2"
proof -
  from assms(1) obtain tr1 where p: "progress obs s s1 tr1"
    "list_all (\<lambda>ev. \<not> critical_failure ev) tr1" "list_all (\<lambda>ev. \<not> action_call ev) tr1"
    "self_page s1 \<noteq> None"
    by (auto simp: phase_analysed_def)
  have "length (filter analysis_call tr1) \<le> 1" using p(1) by (simp add: progress_def)
  then have "progress obs s s2 (tr1 @ tr)"
    using p(1) assms(2) by (intro progress_within) (simp_all add: quiet_list(2)[OF assms(3)])
  then show ?thesis
    unfolding phase_analysed_def
    using p assms quiet_list(3)[OF assms(3)] within_session_page[OF assms(2)]
    by (intro conjI exI[of _ "tr1 @ tr"]) simp_all
qed

lemma analysed_abort:
  assumes "phase_analysed obs s s1" and "within_session obs s1 s2 tr" and "list_all (quiet obs) tr"
    and "nothing_reported (report s2)"
  shows "try_aborted obs e s s2"
proof -
  from assms(1) obtain tr1 where p: "progress obs s s1 tr1"
    "list_all (\<lambda>ev. \<not> critical_failure ev) tr1" "list_all (\<lambda>ev. \<not> action_call ev) tr1"
    by (auto simp: phase_analysed_def)
  have "length (filter analysis_call tr1) \<le> 1" using p(1) by (simp add: progress_def)
  then have "progress obs s s2 (tr1 @ tr)"
    using p(1) assms(2) by (intro progress_within) (simp_all add: quiet_list(2)[OF assms(3)])
  then show ?thesis
    unfolding try_aborted_def
    using p assms(4) quiet_list(3,4)[OF assms(3)] not_critical_list[OF p(2)]
    by (intro conjI exI[of _ "tr1 @ tr"]) simp_all
qed

lemma acting_start: "phase_analysed obs s s1 \<Longrightarrow> phase_acting obs s s1"
  by (auto simp: phase_analysed_def phase_acting_def nothing_reported_def)

lemma acting_keep:
  assumes "phase_acting obs s s1" and "same_session s1 s2" and "trace s2 = trace s1 @ tr"
    and "list_all (step_event obs) tr" and "success (report s2) = success (report s1)"
    and "errors (report s2) = errors (report s1) @ es"
    and "list_all (\<lambda>e. e_type e = ''AUTOMATION_ERROR'' \<or> e_type e = ''ACTION_ERROR'') es"
  shows "phase_acting obs s s2"
proof -
  from assms(1) obtain tr1 where p: "progress obs s s1 tr1"
    "list_all (\<lambda>ev. \<not> critical_failure ev) tr1"
    "list_all (\<lambda>e. e_type e = ''AUTOMATION_ERROR'' \<or> e_type e = ''ACTION_ERROR'') (errors (report s1))"
    "\<not> success (report s1)" "self_page s1 \<noteq> None"
    by (auto simp: phase_acting_def)
  note se = step_event_list[OF assms(4)]
  have w: "within_session obs s1 s2 tr"
    using assms(2,3) se by (simp add: within_session_def)
  have "length (filter analysis_call tr1) \<le> 1" using p(1) by (simp add: progress_def)
  then have "progress obs s s2 (tr1 @ tr)"
    using p(1) w by (intro progress_within) (simp_all add: se(2))
  then show ?thesis
    unfolding phase_acting_def
    using p assms(5,6,7) se(3) within_session_page[OF w]
    by (intro conjI exI[of _ "tr1 @ tr"]) simp_all
qed

lemma acting_passed:
  assumes "phase_acting obs s s1"
  shows "try_passed obs s (s1\<lparr>report := (report s1)\<lparr>success := (length (errors (report s1)) = 0)\<rparr>\<rparr>)"
proof -
  from assms obtain tr1 where p: "progress obs s s1 tr1"
    "list_all (\<lambda>ev. \<not> critical_failure ev) tr1"
    "list_all (\<lambda>e. e_type e = ''AUTOMATION_ERROR'' \<or> e_type e = ''ACTION_ERROR'') (errors (report s1))"
    by (auto simp: phase_acting_def)
  have "progress obs s (s1\<lparr>report := (report s1)\<lparr>success := (length (errors (report s1)) = 0)\<rparr>\<rparr>) tr1"
    using p(1) by (simp add: progress_def)
  then show ?thesis
    unfolding try_passed_def using p(2,3) by (intro conjI exI[of _ tr1]) simp_all
qed

lemma init_navigating:
  assumes "trace s1 = trace s @ tr" and "report s1 = report s" and "config s1 = config s"
    and "releases tr @ held s1 = held s @ rev (acquisitions tr)" and "list_all (quiet obs) tr"
    and "self_page s1 \<noteq> None" and "list_all (\<lambda>ev. \<not> critical_failure ev) tr"
    and "nothing_reported (report s)"
  shows "phase_navigating obs s s1"
  unfolding phase_navigating_def progress_def
  using assms quiet_list(1,2)[OF assms(5)] by (intro conjI exI[of _ tr]) simp_all

lemma init_abort:
  assumes "trace s1 = trace s @ tr" and "report s1 = report s" and "config s1 = config s"
    and "releases tr @ held s1 = held s @ rev (acquisitions tr)" and "list_all (quiet obs) tr"
    and "nothing_reported (report s)"
  shows "try_aborted obs e s s1"
  unfolding try_aborted_def progress_def
  using assms quiet_list[OF assms(5)] by (intro conjI exI[of _ tr]) simp_all

lemma notify_within:
  "wp (notify obs u)
     (\<lambda>_ s'. report s' = report s1
        \<and> (\<exists>tr. within_session obs s1 s' tr \<and> list_all (quiet obs) tr
              \<and> list_all (\<lambda>ev. \<not> critical_failure ev) tr))
     (\<lambda>e s'. report s' = report s1
        \<and> (\<exists>tr. within_session obs s1 s' tr \<and> list_all (quiet obs) tr
              \<and> list_all (\<lambda>ev. \<not> critical_failure ev) tr)) s1"
  by (rule notify_rule; simp add: within_session_def quiet_Notify notified_by_Notify)

lemma analyze_page_summary:
  assumes "self_page s1 = Some p"
  shows "wp (analyze_page env)
     (\<lambda>a s'. report s' = report s1
        \<and> (\<exists>tr. within_session obs s1 s' tr \<and> list_all (\<lambda>ev. \<not> critical_failure ev) tr
              \<and> list_all (\<lambda>ev. \<not> action_call ev) tr \<and> length (filter analysis_call tr) \<le> 1))
     (\<lambda>e s'. report s' = report s1
        \<and> (\<exists>tr. within_session obs s1 s' tr \<and> list_all (\<lambda>ev. \<not> action_call ev) tr
              \<and> list_all (failed_analysis_is e) tr \<and> length (filter analysis_call tr) \<le> 1)) s1"
  unfolding analyze_page_def using assms
  by (simp add: within_session_def action_call_def split: prod.splits sum.splits)

lemma run_test_navigate_summary:
  assumes "self_page s1 = Some p"
  shows "wp (run_test_navigate env url obs)
     (\<lambda>_ s'. errors (report s') = errors (report s1) \<and> actions (report s') = actions (report s1)
        \<and> success (report s') = success (report s1)
        \<and> (\<exists>tr. within_session obs s1 s' tr \<and> list_all (quiet obs) tr
              \<and> list_all (\<lambda>ev. \<not> critical_failure ev) tr))
     (\<lambda>e s'. errors (report s') = errors (report s1) \<and> actions (report s') = actions (report s1)
        \<and> success (report s') = success (report s1)
        \<and> (\<exists>tr. within_session obs s1 s' tr \<and> list_all (quiet obs) tr)) s1"
proof -
  obtain t0 w0 where n0: "now env (world s1) = (t0, w0)" by (cases "now env (world s1)")
  let ?pc = "cfg_page (config s1)"
  obtain r w1 where g: "goto env p url (wait_until ?pc) (navigation_timeout ?pc) w0 = (r, w1)"
    by (cases "goto env p url (wait_until ?pc) (navigation_timeout ?pc) w0")
  show ?thesis
  proof (cases r)
    case (Inl e)
    show ?thesis
      unfolding run_test_navigate_def using assms n0 g Inl
      by (simp add: within_session_def)
  next
    case (Inr resp)
    obtain t1 w2 where n1: "now env w1 = (t1, w2)" by (cases "now env w1")
    show ?thesis
      unfolding run_test_navigate_def using assms n0 g Inr n1
      apply (simp add: Let_def del: wp_notify split: option.splits)
      apply (intro conjI impI allI)
      apply ((rule notify_rule)?; simp add: within_session_def quiet_Notify notified_by_Notify)+
      done
  qed
qed

lemma try_actions_summary:
  assumes "phase_analysed obs s s3"
  shows "wp (thenE (perform_automated_actions env obs)
            (thenE (run_custom_actions env acts obs)
               (modify (\<lambda>s. s\<lparr>report := (report s)\<lparr>success := (length (errors (report s)) = 0)\<rparr>\<rparr>))))
           (\<lambda>_ s'. try_passed obs s s') (\<lambda>e s'. try_aborted obs e s s') s3"
proof -
  have act: "phase_acting obs s s3" using assms by (rule acting_start)
  show ?thesis
    unfolding wp_thenE
  proof (rule wp_mono[OF perform_automated_actions_summary[of env obs s3]], goal_cases)
    case (1 x s4)
    then obtain es tr where s4: "same_session s3 s4" "success (report s4) = success (report s3)"
      "errors (report s4) = errors (report s3) @ es" "list_all (\<lambda>e. e_type e = ''AUTOMATION_ERROR'') es"
      "trace s4 = trace s3 @ tr" "list_all (step_event obs) tr"
      by blast
    have es: "list_all (\<lambda>e. e_type e = ''AUTOMATION_ERROR'' \<or> e_type e = ''ACTION_ERROR'') es"
      using s4(4) by (simp add: list_all_iff)
    have act4: "phase_acting obs s s4"
      using act s4(1,5,6,2,3) es by (rule acting_keep)
    then obtain p where pg: "self_page s4 = Some p" by (auto simp: phase_acting_def)
    show ?case
    proof (rule wp_mono[OF run_custom_actions_summary[OF pg, of env acts obs]], goal_cases)
      case (1 y s5)
      then obtain es' tr' where s5: "same_session s4 s5" "success (report s5) = success (report s4)"
        "errors (report s5) = errors (report s4) @ es'" "list_all (\<lambda>e. e_type e = ''ACTION_ERROR'') es'"
        "trace s5 = trace s4 @ tr'" "list_all (step_event obs) tr'"
        by blast
      have es': "list_all (\<lambda>e. e_type e = ''AUTOMATION_ERROR'' \<or> e_type e = ''ACTION_ERROR'') es'"
        using s5(4) by (simp add: list_all_iff)
      have act5: "phase_acting obs s s5"
        using act4 s5(1,5,6,2,3) es' by (rule acting_keep)
      show ?case using acting_passed[OF act5] by simp
    qed simp
  qed simp
qed

lemma try_analysis_summary:
  assumes "phase_navigating obs s s2"
  shows "wp (bindE (analyze_page env) (\<lambda>a.
         thenE (modify (\<lambda>s. s\<lparr>report := (report s)\<lparr>analysis := Some a\<rparr>\<rparr>))
        (thenE (notify obs
                  \<lparr>u_type = ''analysis'',
                   u_message = ''Page analyzed: '' @ py_format env (pa_link_count a) @ '' links, ''
                               @ py_format env (pa_form_count a) @ '' forms'',
                   u_url = None, u_analysis = Some a\<rparr>)
        (thenE (perform_automated_actions env obs)
        (thenE (run_custom_actions env acts obs)
           (modify (\<lambda>s. s\<lparr>report := (report s)\<lparr>success := (length (errors (report s)) = 0)\<rparr>\<rparr>)))))))
       (\<lambda>_ s'. try_passed obs s s') (\<lambda>e s'. try_aborted obs e s s') s2"
proof -
  from assms obtain p where pg: "self_page s2 = Some p" and nr: "nothing_reported (report s2)"
    by (auto simp: phase_navigating_def)
  show ?thesis
    unfolding wp_bindE
  proof (rule wp_mono[OF analyze_page_summary[OF pg, of env obs]], goal_cases)
    case (1 a s3)
    then obtain tr where s3: "report s3 = report s2" "within_session obs s2 s3 tr"
      "list_all (\<lambda>ev. \<not> critical_failure ev) tr" "list_all (\<lambda>ev. \<not> action_call ev) tr"
      "length (filter analysis_call tr) \<le> 1"
      by blast
    have an: "phase_analysed obs s s3"
      using assms s3(2-5) by (rule navigating_analysed) (simp add: s3(1) nr)
    let ?s3 = "s3\<lparr>report := (report s3)\<lparr>analysis := Some a\<rparr>\<rparr>"
    have an': "phase_analysed obs s ?s3"
      using an
    proof (rule analysed_keep[where tr="[]"])
      show "within_session obs s3 ?s3 []" by (simp add: within_session_def)
      show "nothing_reported (report ?s3)" using nr s3(1) by (simp add: nothing_reported_def)
    qed simp_all
    show ?case
      unfolding wp_thenE wp_modify
    proof (rule wp_mono[OF notify_within[of obs _ ?s3]], goal_cases)
      case (1 x s4)
      then obtain tr' where s4: "report s4 = report ?s3" "within_session obs ?s3 s4 tr'"
        "list_all (quiet obs) tr'" "list_all (\<lambda>ev. \<not> critical_failure ev) tr'"
        by blast
      have "nothing_reported (report s4)" using nr s3(1) s4(1) by (simp add: nothing_reported_def)
      with an' s4(2-4) have "phase_analysed obs s s4" by (rule analysed_keep)
      then show ?case
        by (rule try_actions_summary[unfolded wp_thenE wp_modify])
    next
      case (2 e s4)
      then obtain tr' where s4: "report s4 = report ?s3" "within_session obs ?s3 s4 tr'"
        "list_all (quiet obs) tr'"
        by blast
      have "nothing_reported (report s4)" using nr s3(1) s4(1) by (simp add: nothing_reported_def)
      with an' s4(2,3) show ?case by (rule analysed_abort)
    qed
  next
    case (2 e s3)
    then obtain tr where s3: "report s3 = report s2" "within_session obs s2 s3 tr"
      "list_all (\<lambda>ev. \<not> action_call ev) tr" "list_all (failed_analysis_is e) tr"
      "length (filter analysis_call tr) \<le> 1"
      by blast
    show ?case
      using assms s3(2-5) by (rule analysis_abort) (simp add: s3(1) nr)
  qed
qed

lemma try_navigate_summary:
  assumes "phase_navigating obs s s1"
  shows "wp (thenE (notify obs (plain_update ''status'' ''Bot started, navigating...''))
        (thenE (run_test_navigate env url obs)
        (bindE (analyze_page env) (\<lambda>a.
         thenE (modify (\<lambda>s. s\<lparr>report := (report s)\<lparr>analysis := Some a\<rparr>\<rparr>))
        (thenE (notify obs
                  \<lparr>u_type = ''analysis'',
                   u_message = ''Page analyzed: '' @ py_format env (pa_link_count a) @ '' links, ''
                               @ py_format env (pa_form_count a) @ '' forms'',
                   u_url = None, u_analysis = Some a\<rparr>)
        (thenE (perform_automated_actions env obs)
        (thenE (run_custom_actions env acts obs)
           (modify (\<lambda>s. s\<lparr>report := (report s)\<lparr>success := (length (errors (report s)) = 0)\<rparr>\<rparr>)))))))))
       (\<lambda>_ s'. try_passed obs s s') (\<lambda>e s'. try_aborted obs e s s') s1"
proof -
  from assms have nr: "nothing_reported (report s1)" by (simp add: phase_navigating_def)
  show ?thesis
    apply (subst wp_thenE)
  proof (rule wp_mono[OF notify_within[of obs _ s1]], goal_cases)
    case (1 x s2)
    then obtain tr where s2: "report s2 = report s1" "within_session obs s1 s2 tr"
      "list_all (quiet obs) tr" "list_all (\<lambda>ev. \<not> critical_failure ev) tr"
      by blast
    have nr2: "nothing_reported (report s2)" using nr s2(1) by simp
    with assms s2(2-4) have nav2: "phase_navigating obs s s2" by (rule navigating_keep)
    then obtain p where pg: "self_page s2 = Some p" by (auto simp: phase_navigating_def)
    show ?case
      apply (subst wp_thenE)
    proof (rule wp_mono[OF run_test_navigate_summary[OF pg, of env url obs]], goal_cases)
      case (1 y s3)
      then obtain tr' where s3: "errors (report s3) = errors (report s2)"
        "actions (report s3) = actions (report s2)" "success (report s3) = success (report s2)"
        "within_session obs s2 s3 tr'" "list_all (quiet obs) tr'"
        "list_all (\<lambda>ev. \<not> critical_failure ev) tr'"
        by blast
      have "nothing_reported (report s3)" using nr2 s3(1-3) by (simp add: nothing_reported_def)
      with nav2 s3(4-6) have "phase_navigating obs s s3" by (rule navigating_keep)
      then show ?case by (rule try_analysis_summary)
    next
      case (2 e s3)
      then obtain tr' where s3: "errors (report s3) = errors (report s2)"
        "actions (report s3) = actions (report s2)" "success (report s3) = success (report s2)"
        "within_session obs s2 s3 tr'" "list_all (quiet obs) tr'"
        by blast
      have "nothing_reported (report s3)" using nr2 s3(1-3) by (simp add: nothing_reported_def)
      with nav2 s3(4,5) show ?case by (rule navigating_abort)
    qed
  next
    case (2 e s2)
    then obtain tr where s2: "report s2 = report s1" "within_session obs s1 s2 tr"
      "list_all (quiet obs) tr"
      by blast
    have "nothing_reported (report s2)" using nr s2(1) by simp
    with assms s2(2,3) show ?case by (rule navigating_abort)
  qed
qed

lemma run_test_try_summary:
  assumes "nothing_reported (report s)"
  shows "wp (run_test_try env url acts obs)
           (\<lambda>_ s'. try_passed obs s s') (\<lambda>e s'. try_aborted obs e s s') s"
  unfolding run_test_try_def
  apply (subst wp_bindE)
proof (rule wp_mono[OF initialize_summary[of env s obs]], goal_cases)
  case (1 b s1)
  then obtain tr where s1: "trace s1 = trace s @ tr" "report s1 = report s" "config s1 = config s"
    "releases tr @ held s1 = held s @ rev (acquisitions tr)" "list_all (quiet obs) tr"
    "if b then self_page s1 \<noteq> None \<and> list_all (\<lambda>ev. \<not> critical_failure ev) tr else handle_free s1"
    by blast
  show ?case
  proof (cases b)
    case True
    with s1(6) have pg: "self_page s1 \<noteq> None" and nc: "list_all (\<lambda>ev. \<not> critical_failure ev) tr"
      by simp_all
    have nav: "phase_navigating obs s s1"
      using s1(1-5) pg nc assms by (rule init_navigating)
    have c: "\<not> (\<not> b \<or> self_page s1 = None)" using True pg by simp
    show ?thesis
      apply (subst wp_bindE, subst wp_gets)
      apply (subst if_not_P[OF c])
      apply (rule try_navigate_summary[OF nav])
      done
  next
    case False
    have "try_aborted obs (RuntimeError ''Browser initialization failed'') s s1"
      using s1(1-5) assms by (rule init_abort)
    moreover have c: "\<not> b \<or> self_page s1 = None" using False by simp
    ultimately show ?thesis
      apply (subst wp_bindE, subst wp_gets)
      apply (subst if_P[OF c])
      apply (subst wp_raiseE)
      apply assumption
      done
  qed
qed simp

lemma progress_report [simp]: "progress obs (s\<lparr>report := r\<rparr>) s' tr = progress obs s s' tr"
  by (simp add: progress_def)

lemma progress_cleanup:
  assumes "progress obs s s1 tr1" and "handle_free s2" and "config s2 = config s1"
    and "trace s2 = trace s1 @ tr2" and "releases tr2 = held s1" and "acquisitions tr2 = []"
    and "list_all (quiet obs) tr2"
  shows "progress obs s s2 (tr1 @ tr2)"
proof -
  have "releases tr1 @ held s1 = held s @ rev (acquisitions tr1)"
    using assms(1) by (simp add: progress_def)
  then show ?thesis
    using assms quiet_list(1,2)[OF assms(7)] by (simp add: progress_def)
qed

lemma passed_cleanup:
  "passed s1 tr1 \<Longrightarrow> report s2 = report s1 \<Longrightarrow> list_all (\<lambda>ev. \<not> critical_failure ev) tr2 \<Longrightarrow>
   passed s2 (tr1 @ tr2)"
  by (simp add: passed_def)

lemma aborted_cleanup:
  "aborted e s1 tr1 \<Longrightarrow> report s2 = report s1 \<Longrightarrow> list_all (quiet obs) tr2 \<Longrightarrow>
   aborted e s2 (tr1 @ tr2)"
  using quiet_list(3)[of obs tr2] quiet_list(4)[of obs tr2 e] by (simp add: aborted_def)

lemma run_test_except_summary:
  assumes "try_aborted obs e s s1"
  shows "wp (run_test_except env obs e)
     (\<lambda>_ s2. \<exists>tr. progress obs s s2 tr \<and> aborted e s2 tr)
     (\<lambda>e' s2. \<exists>tr. progress obs s s2 tr \<and> aborted e s2 tr
         \<and> (\<exists>u. u_type u = ''error'' \<and> Notify u (Some e') \<in> set tr)) s1"
proof -
  from assms obtain tr1 where p: "progress obs s s1 tr1" "list_all (\<lambda>ev. \<not> action_call ev) tr1"
    "list_all (failed_analysis_is e) tr1" "nothing_reported (report s1)"
    by (auto simp: try_aborted_def)
  obtain ts w where nw: "now env (world s1) = (ts, w)" by (cases "now env (world s1)")
  let ?en = "\<lparr>e_type = ''CRITICAL_ERROR'', e_action = None, e_message = str_exn e, e_timestamp = ts\<rparr>"
  let ?s = "s1\<lparr>world := w, report := (report s1)\<lparr>errors := errors (report s1) @ [?en]\<rparr>\<rparr>"
  have ab: "aborted e ?s tr1"
    using p(2-4) by (auto simp: aborted_def nothing_reported_def critical_entry_def)
  have pr: "progress obs s ?s tr1"
    using p(1) by (simp add: progress_def)
  have ext: "progress obs s (?s\<lparr>world := w', trace := trace ?s @ [Notify u x]\<rparr>) (tr1 @ [Notify u x])
      \<and> aborted e (?s\<lparr>world := w', trace := trace ?s @ [Notify u x]\<rparr>) (tr1 @ [Notify u x])"
    if "obs = Some f" "f u (world ?s) = (x, w')" for f u x w'
  proof -
    have n: "notified_by obs (Notify u x)" using that by (simp add: notified_by_Notify)
    show ?thesis
      using pr ab n by (simp add: progress_def aborted_def)
  qed
  have "wp (notify obs (plain_update ''error'' (''Critical error: '' @ str_exn e)))
     (\<lambda>_ s2. \<exists>tr. progress obs s s2 tr \<and> aborted e s2 tr)
     (\<lambda>e' s2. \<exists>tr. progress obs s s2 tr \<and> aborted e s2 tr
         \<and> (\<exists>u. u_type u = ''error'' \<and> Notify u (Some e') \<in> set tr)) ?s"
  proof (rule notify_rule, goal_cases)
    case 1
    show ?case using pr ab by blast
  next
    case (2 f w')
    from ext[OF 2] show ?case by blast
  next
    case (3 f w' e')
    have "u_type (plain_update ''error'' (''Critical error: '' @ str_exn e)) = ''error''"
      by (simp add: plain_update_def)
    with ext[OF 3] show ?case
      by (intro exI[of _ "tr1 @ [Notify (plain_update ''error'' (''Critical error: '' @ str_exn e)) (Some e')]"])
         auto
  qed
  then show ?thesis
    unfolding run_test_except_def by (simp add: nw del: wp_notify)
qed

lemma run_test_summary:
  fixes s :: "'w bot"
  shows "wp (run_test env url ca obs)
     (\<lambda>rep s'. rep = report s' \<and> (\<exists>tr. run_closed obs s s' tr))
     (\<lambda>e s'. \<exists>tr. run_closed obs s s' tr
         \<and> (\<exists>u. u_type u = ''error'' \<and> Notify u (Some e) \<in> set tr)) s"
proof -
  let ?s0 = "s\<lparr>report := new_BotReport False\<rparr>"
  let ?acts = "case ca of None \<Rightarrow> [] | Some a \<Rightarrow> a"
  have nr: "nothing_reported (report ?s0)"
    by (simp add: nothing_reported_def new_BotReport_def)
  have closing: "wp (cleanup env) (\<lambda>_ s3. \<exists>tr. run_closed obs s s3 tr \<and> report s3 = report s2 \<and> P tr) E s2"
    if "progress obs s s2 tr" "passed s2 tr \<or> aborted e s2 tr" "\<And>tr2. P tr \<Longrightarrow> P (tr @ tr2)" "P tr"
    for s2 tr e P E
  proof (rule cleanup_rule[where obs=obs])
    fix s3 :: "'w bot" assume c: "handle_free s3" "report s3 = report s2" "config s3 = config s2"
      "\<exists>tr2. trace s3 = trace s2 @ tr2 \<and> releases tr2 = held s2 \<and> acquisitions tr2 = []
          \<and> list_all (quiet obs) tr2 \<and> list_all (\<lambda>ev. \<not> critical_failure ev) tr2"
    then obtain tr2 where t: "trace s3 = trace s2 @ tr2" "releases tr2 = held s2" "acquisitions tr2 = []"
      "list_all (quiet obs) tr2" "list_all (\<lambda>ev. \<not> critical_failure ev) tr2"
      by blast
    have pr: "progress obs s s3 (tr @ tr2)"
      using that(1) c(1,3) t(1-4) by (rule progress_cleanup)
    have "passed s3 (tr @ tr2) \<or> aborted e s3 (tr @ tr2)"
      using that(2) passed_cleanup[OF _ c(2) t(5)] aborted_cleanup[OF _ c(2) t(4)] by blast
    then have "run_closed obs s s3 (tr @ tr2)"
      using pr c(1) by (auto simp: run_closed_def)
    then show "\<exists>tr. run_closed obs s s3 tr \<and> report s3 = report s2 \<and> P tr"
      using c(2) that(3)[OF that(4)] by blast
  qed
  have body: "wp (try_finally (try_except (run_test_try env url ?acts obs) (run_test_except env obs))
                  (cleanup env))
     (\<lambda>_ s'. \<exists>tr. run_closed obs s s' tr)
     (\<lambda>e s'. \<exists>tr. run_closed obs s s' tr
         \<and> (\<exists>u. u_type u = ''error'' \<and> Notify u (Some e) \<in> set tr)) ?s0"
    unfolding wp_try_finally wp_try_except
  proof (rule wp_mono[OF run_test_try_summary[OF nr, of env url ?acts obs]], goal_cases)
    case (1 x s1)
    then obtain tr where t: "progress obs s s1 tr" "passed s1 tr"
      by (auto simp: try_passed_def passed_def)
    have "wp (cleanup env) (\<lambda>_ s3. \<exists>tr. run_closed obs s s3 tr \<and> report s3 = report s1 \<and> True)
        (\<lambda>e s'. \<exists>tr. run_closed obs s s' tr
         \<and> (\<exists>u. u_type u = ''error'' \<and> Notify u (Some e) \<in> set tr)) s1"
      by (rule closing[where P="\<lambda>_. True" and e="RuntimeError []" and tr=tr]) (simp_all add: t)
    then show ?case by (rule wp_mono) auto
  next
    case (2 e s1)
    show ?case
    proof (rule wp_mono[OF run_test_except_summary[OF 2, of env]], goal_cases)
      case (1 y s2)
      then obtain tr where t: "progress obs s s2 tr" "aborted e s2 tr" by auto
      have "wp (cleanup env) (\<lambda>_ s3. \<exists>tr. run_closed obs s s3 tr \<and> report s3 = report s2 \<and> True)
          (\<lambda>e s'. \<exists>tr. run_closed obs s s' tr
           \<and> (\<exists>u. u_type u = ''error'' \<and> Notify u (Some e) \<in> set tr)) s2"
        by (rule closing[where P="\<lambda>_. True" and e=e and tr=tr]) (simp_all add: t)
      then show ?case by (rule wp_mono) auto
    next
      case (2 e' s2)
      then obtain tr where t: "progress obs s s2 tr" "aborted e s2 tr"
        "\<exists>u. u_type u = ''error'' \<and> Notify u (Some e') \<in> set tr"
        by auto
      have "wp (cleanup env)
          (\<lambda>_ s3. \<exists>tr. run_closed obs s s3 tr \<and> report s3 = report s2
              \<and> (\<exists>u. u_type u = ''error'' \<and> Notify u (Some e') \<in> set tr))
          (\<lambda>e s'. \<exists>tr. run_closed obs s s' tr
           \<and> (\<exists>u. u_type u = ''error'' \<and> Notify u (Some e) \<in> set tr)) s2"
        by (rule closing[where e=e and tr=tr]) (use t in auto)
      then show ?case by (rule wp_mono) auto
    qed
  qed
  show ?thesis
    unfolding run_test_def
    apply (subst wp_thenE, subst wp_modify, subst wp_thenE)
    apply (rule wp_mono[OF body])
     apply simp
    apply assumption
    done
qed

subsection \<open>The outcome of a run\<close>

lemma run_test_outcome:
  fixes s :: "'w bot"
  shows "\<exists>tr. run_closed obs s (snd (run_test env url ca obs s)) tr
          \<and> new_events s (snd (run_test env url ca obs s)) = tr
          \<and> (case fst (run_test env url ca obs s) of
                Inr rep \<Rightarrow> rep = report (snd (run_test env url ca obs s))
              | Inl e \<Rightarrow> (\<exists>u. u_type u = ''error'' \<and> Notify u (Some e) \<in> set tr))"
proof -
  obtain r s' where run: "run_test env url ca obs s = (r, s')" by (cases "run_test env url ca obs s")
  have tr: "new_events s s' = tr" if "run_closed obs s s' tr" for tr
    using that by (simp add: run_closed_def progress_def)
  show ?thesis
  proof (cases r)
    case (Inl e)
    with run run_test_summary[of env url ca obs s]
    obtain tr where "run_closed obs s s' tr" "\<exists>u. u_type u = ''error'' \<and> Notify u (Some e) \<in> set tr"
      by (auto simp: wp_def)
    then show ?thesis using run Inl tr by auto
  next
    case (Inr rep)
    with run run_test_summary[of env url ca obs s]
    obtain tr where "run_closed obs s s' tr" "rep = report s'"
      by (auto simp: wp_def)
    then show ?thesis using run Inr tr by auto
  qed
qed

lemma notified_by_observer:
  assumes "list_all (notified_by obs) tr" and "Notify u x \<in> set tr"
  shows "\<exists>f w. obs = Some f \<and> fst (f u w) = x"
proof -
  from assms have "notified_by obs (Notify u x)" by (simp add: list_all_iff)
  then show ?thesis by (cases obs) (auto simp: notified_by_def)
qed

lemma run_closed_report:
  assumes "run_closed obs s s' tr"
  shows "success (report s') = (errors (report s') = [])"
  using assms by (auto simp: run_closed_def passed_def aborted_def)

lemma run_test_returns:
  assumes "\<And>f u w. obs = Some f \<Longrightarrow> u_type u = ''error'' \<Longrightarrow> fst (f u w) = None"
  shows "\<exists>rep. fst (run_test env url ca obs s) = Inr rep"
proof (cases "fst (run_test env url ca obs s)")
  case (Inl e)
  with run_test_outcome[of obs s env url ca]
  obtain tr u where t: "run_closed obs s (snd (run_test env url ca obs s)) tr"
    "u_type u = ''error''" "Notify u (Some e) \<in> set tr"
    by auto
  from t(1) have "list_all (notified_by obs) tr" by (simp add: run_closed_def progress_def)
  from notified_by_observer[OF this t(3)] obtain f w where "obs = Some f" "fst (f u w) = Some e"
    by blast
  with assms[OF this(1) t(2), of w] show ?thesis by simp
qed simp

lemma analysis_raised_event:
  assumes "list_ex (analysis_raised e) tr"
  obtains p where "Call (Evaluate p AnalyzeScript) (Inl e) \<in> set tr"
proof -
  from assms obtain ev where ev: "ev \<in> set tr" "analysis_raised e ev" by (auto simp: list_ex_iff)
  from ev(2) obtain p where "ev = Call (Evaluate p AnalyzeScript) (Inl e)"
    by (auto simp: analysis_raised_def split: event.splits call.splits script.splits sum.splits)
  with ev(1) that show ?thesis by blast
qed

section \<open>The claims about the bot\<close>

subsection \<open>Claim C6\<close>

text \<open>
  Claim C6. \<open>cleanup\<close> releases the four sub-resources in the order page, context,
  browser, engine handle, and each release is fault-tolerant on its own: \<open>cleanup\<close>
  returns normally in the state that \<open>cleanup_spec\<close> describes, where every handle held
  is released in turn from the world the release before it left, an exception of a close
  call is logged as a warning and the next release is attempted all the same. The
  release calls made are exactly those of the handles held, in that order, and the log
  is the four release logs one after the other, whatever the outcomes.
\<close>

theorem cleanup_releases_in_order:
  "cleanup env s = (Inr (), cleanup_spec env s)
   \<and> releases (new_events s (cleanup_spec env s)) = held s
   \<and> (\<exists>o1 o2 o3 o4.
        new_events s (cleanup_spec env s) =
          release_log (self_page s) PageClose ''[WARN] Page cleanup error: '' o1
          @ release_log (self_context s) ContextClose ''[WARN] Context cleanup error: '' o2
          @ release_log (self_browser s) BrowserClose ''[WARN] Browser cleanup error: '' o3
          @ release_log (self_playwright s) PwStop ''[WARN] Playwright cleanup error: '' o4)"
proof -
  obtain o1 o2 o3 o4 where
    "trace (cleanup_spec env s) = trace s
       @ release_log (self_page s) PageClose ''[WARN] Page cleanup error: '' o1
       @ release_log (self_context s) ContextClose ''[WARN] Context cleanup error: '' o2
       @ release_log (self_browser s) BrowserClose ''[WARN] Browser cleanup error: '' o3
       @ release_log (self_playwright s) PwStop ''[WARN] Playwright cleanup error: '' o4"
    using cleanup_spec_shape by blast
  then have "new_events s (cleanup_spec env s) =
       release_log (self_page s) PageClose ''[WARN] Page cleanup error: '' o1
       @ release_log (self_context s) ContextClose ''[WARN] Context cleanup error: '' o2
       @ release_log (self_browser s) BrowserClose ''[WARN] Browser cleanup error: '' o3
       @ release_log (self_playwright s) PwStop ''[WARN] Playwright cleanup error: '' o4"
    by (rule new_events_append)
  then show ?thesis
    using cleanup_eq[of env s] cleanup_log(1)[of s env] by blast
qed

subsection \<open>Claim C10\<close>

text \<open>
  Claim C10. After any call of \<open>cleanup\<close>, which always returns, the four handles
  (page, context, browser, engine handle) are \<open>None\<close>, whatever the close and stop calls
  did.
\<close>

theorem cleanup_resets_handles:
  "fst (cleanup env s) = Inr ()
   \<and> self_page (snd (cleanup env s)) = None
   \<and> self_context (snd (cleanup env s)) = None
   \<and> self_browser (snd (cleanup env s)) = None
   \<and> self_playwright (snd (cleanup env s)) = None"
  by (simp add: cleanup_eq)

subsection \<open>Claim C7\<close>

text \<open>
  Claim C7. Performing a custom action whose kind is none of \<open>click\<close>, \<open>type\<close> and
  \<open>wait\<close> does nothing but notify the observer, if there is one and a page is open:
  no \<open>ActionResult\<close> and no error entry is appended, the report is as it was.
\<close>

theorem unsupported_action_ignored:
  assumes "dict_get action ''type'' PyNone \<noteq> PyStr ''click''"
    and "dict_get action ''type'' PyNone \<noteq> PyStr ''type''"
    and "dict_get action ''type'' PyNone \<noteq> PyStr ''wait''"
  shows "perform_action env action on_update s =
           (if self_page s = None then (Inr (), s)
            else notify on_update
                   (plain_update ''action''
                      (''Custom action executed: '' @ py_format env (dict_get action ''type'' PyNone))) s)
         \<and> report (snd (perform_action env action on_update s)) = report s"
proof -
  have eq: "perform_action env action on_update s =
           (if self_page s = None then (Inr (), s)
            else notify on_update
                   (plain_update ''action''
                      (''Custom action executed: '' @ py_format env (dict_get action ''type'' PyNone))) s)"
    using assms
    by (simp add: perform_action_def Let_def bindE_def thenE_def gets_def returnE_def)
  have "report (snd (notify on_update u s)) = report s" for u
    by (simp add: notify_def split: option.splits prod.splits)
  with eq show ?thesis by simp
qed

text \<open>The theorem at an action of kind \<open>hover\<close>, on a bot with a page and no observer.\<close>

theorem unsupported_action_ignored_witness:
  "dict_get [''type'' \<mapsto> PyStr ''hover''] ''type'' PyNone \<noteq> PyStr ''click''
   \<and> dict_get [''type'' \<mapsto> PyStr ''hover''] ''type'' PyNone \<noteq> PyStr ''type''
   \<and> dict_get [''type'' \<mapsto> PyStr ''hover''] ''type'' PyNone \<noteq> PyStr ''wait''
   \<and> report (snd (perform_action (test_env no_failure None test_data) [''type'' \<mapsto> PyStr ''hover'']
         None (test_bot\<lparr>self_page := Some 4\<rparr>))) = report (test_bot\<lparr>self_page := Some 4\<rparr>)
   \<and> perform_action (test_env no_failure None test_data) [''type'' \<mapsto> PyStr ''hover'']
         None (test_bot\<lparr>self_page := Some 4\<rparr>) = (Inr (), test_bot\<lparr>self_page := Some 4\<rparr>)"
proof -
  have k: "dict_get [''type'' \<mapsto> PyStr ''hover''] ''type'' PyNone \<noteq> PyStr ''click''"
    "dict_get [''type'' \<mapsto> PyStr ''hover''] ''type'' PyNone \<noteq> PyStr ''type''"
    "dict_get [''type'' \<mapsto> PyStr ''hover''] ''type'' PyNone \<noteq> PyStr ''wait''"
    by (simp_all add: dict_get_def)
  show ?thesis
    using k unsupported_action_ignored[OF k, of "test_env no_failure None test_data" None
        "test_bot\<lparr>self_page := Some 4\<rparr>"]
    by (simp add: notify_def)
qed

subsection \<open>Claim C8\<close>

text \<open>
  Claim C8. When the navigation call returns, the navigation step records the load time
  (the difference of the two clock readings, in milliseconds) under \<open>load_time\<close>, and it
  records \<open>response_time\<close> only when a response is there: with no response the mapping
  gets no such key. The step appends no error entry, with no observer it returns
  normally, and it raises only what the observer raised on the navigation update.
\<close>

theorem navigation_metrics:
  assumes pg: "self_page s = Some p"
    and t0: "now env (world s) = (t0, w0)"
    and nav: "goto env p url (wait_until (cfg_page (config s))) (navigation_timeout (cfg_page (config s))) w0
              = (Inr response, w1)"
    and t1: "now env w1 = (t1, w2)"
  shows "performance (report (snd (run_test_navigate env url on_update s))) =
           (case response of
              None \<Rightarrow> (performance (report s))(''load_time'' \<mapsto> real_of_int (t1 - t0) / 1000)
            | Some r \<Rightarrow> (performance (report s))
                (''load_time'' \<mapsto> real_of_int (t1 - t0) / 1000,
                 ''response_time'' \<mapsto> (case timing r ''responseEnd'' of None \<Rightarrow> 0 | Some v \<Rightarrow> v)))
         \<and> errors (report (snd (run_test_navigate env url on_update s))) = errors (report s)
         \<and> fst (run_test_navigate env url None s) = Inr ()
         \<and> (\<forall>e. fst (run_test_navigate env url on_update s) = Inl e \<longrightarrow>
               (\<exists>u. u_type u = ''navigation''
                  \<and> Notify u (Some e) \<in> set (new_events s (snd (run_test_navigate env url on_update s)))))"
proof -
  have "wp (run_test_navigate env url on_update)
          (\<lambda>_ s'. performance (report s') =
             (case response of
                None \<Rightarrow> (performance (report s))(''load_time'' \<mapsto> real_of_int (t1 - t0) / 1000)
              | Some r \<Rightarrow> (performance (report s))
                  (''load_time'' \<mapsto> real_of_int (t1 - t0) / 1000,
                   ''response_time'' \<mapsto> (case timing r ''responseEnd'' of None \<Rightarrow> 0 | Some v \<Rightarrow> v)))
             \<and> errors (report s') = errors (report s))
          (\<lambda>e s'. performance (report s') =
             (case response of
                None \<Rightarrow> (performance (report s))(''load_time'' \<mapsto> real_of_int (t1 - t0) / 1000)
              | Some r \<Rightarrow> (performance (report s))
                  (''load_time'' \<mapsto> real_of_int (t1 - t0) / 1000,
                   ''response_time'' \<mapsto> (case timing r ''responseEnd'' of None \<Rightarrow> 0 | Some v \<Rightarrow> v)))
             \<and> errors (report s') = errors (report s)
             \<and> (\<exists>u. u_type u = ''navigation'' \<and> Notify u (Some e) \<in> set (new_events s s'))) s"
    unfolding run_test_navigate_def
    using pg t0 nav t1
    by (simp add: Let_def new_events_def split: option.splits prod.splits)
  moreover have "wp (run_test_navigate env url None) (\<lambda>_ s'. True) (\<lambda>e s'. False) s"
    unfolding run_test_navigate_def
    using pg t0 nav t1
    by (simp add: Let_def split: option.splits prod.splits)
  ultimately show ?thesis
    by (auto simp: wp_def split: prod.splits sum.splits)
qed


text \<open>
  The theorem at a navigation that returns no response: the load time is recorded, the
  key \<open>response_time\<close> is missing, there is no error entry and the step returns.
\<close>

theorem navigation_metrics_witness:
  "self_page (test_bot\<lparr>self_page := Some 4\<rparr>) = Some 4
   \<and> now (test_env no_failure None test_data) (world (test_bot\<lparr>self_page := Some 4\<rparr>)) = (0, 1)
   \<and> goto (test_env no_failure None test_data) 4 ''http://example.org''
        (wait_until (cfg_page (config (test_bot\<lparr>self_page := Some 4\<rparr>))))
        (navigation_timeout (cfg_page (config (test_bot\<lparr>self_page := Some 4\<rparr>)))) 1 = (Inr None, 1)
   \<and> now (test_env no_failure None test_data) 1 = (1, 2)
   \<and> performance (report (snd (run_test_navigate (test_env no_failure None test_data)
         ''http://example.org'' None (test_bot\<lparr>self_page := Some 4\<rparr>)))) ''load_time'' = Some (1 / 1000)
   \<and> performance (report (snd (run_test_navigate (test_env no_failure None test_data)
         ''http://example.org'' None (test_bot\<lparr>self_page := Some 4\<rparr>)))) ''response_time'' = None
   \<and> errors (report (snd (run_test_navigate (test_env no_failure None test_data)
         ''http://example.org'' None (test_bot\<lparr>self_page := Some 4\<rparr>)))) = []
   \<and> fst (run_test_navigate (test_env no_failure None test_data)
         ''http://example.org'' None (test_bot\<lparr>self_page := Some 4\<rparr>)) = Inr ()"
proof -
  let ?E = "test_env no_failure None test_data"
  let ?s = "test_bot\<lparr>self_page := Some 4\<rparr>"
  have h: "self_page ?s = Some 4" "now ?E (world ?s) = (0, 1)"
    "goto ?E 4 ''http://example.org'' (wait_until (cfg_page (config ?s)))
       (navigation_timeout (cfg_page (config ?s))) 1 = (Inr None, 1)"
    "now ?E 1 = (1, 2)"
    by (simp_all add: test_env_def outcome_def no_failure_def test_bot_def WebBot_init_def)
  have r: "performance (report ?s) = Map.empty" "errors (report ?s) = []"
    by (simp_all add: test_bot_def WebBot_init_def new_BotReport_def)
  show ?thesis
    using h navigation_metrics[OF h, of None] r by simp
qed

subsection \<open>Claim C3\<close>



subsection \<open>Claim C1\<close>

text \<open>
  Claim C1. When \<open>run_test\<close> returns, for whatever address, custom actions and observer,
  the report it returns is the report of the run and its success flag is true exactly when
  its list of errors is empty. With no observer the call always returns.
\<close>

theorem run_success_iff_no_errors:
  "(\<forall>rep s'. run_test env url custom_actions on_update s = (Inr rep, s') \<longrightarrow>
       rep = report s' \<and> success rep = (errors rep = []))
   \<and> (on_update = None \<longrightarrow> (\<exists>rep s'. run_test env url custom_actions on_update s = (Inr rep, s')))"
proof (intro conjI allI impI)
  fix rep s' assume run: "run_test env url custom_actions on_update s = (Inr rep, s')"
  with run_test_outcome[of on_update s env url custom_actions]
  obtain tr where "run_closed on_update s s' tr" "rep = report s'" by auto
  then show "rep = report s'" "success rep = (errors rep = [])"
    using run_closed_report by auto
next
  assume "on_update = None"
  then have "\<exists>rep. fst (run_test env url custom_actions on_update s) = Inr rep"
    by (intro run_test_returns) simp
  then show "\<exists>rep s'. run_test env url custom_actions on_update s = (Inr rep, s')"
    by (cases "run_test env url custom_actions on_update s") auto
qed

text \<open>
  The theorem at two runs without an observer: on a page where nothing fails the report has
  no error and is successful; where the click of a custom action fails the report has one
  error entry and is not successful; and where the page introspection returns the keys of
  the script, which \<open>PageAnalysis\<close> does not take, the report has the critical entry of
  the \<open>TypeError\<close> and is not successful.
\<close>

theorem run_success_iff_no_errors_witness:
  "(\<exists>rep s'. run_test (test_env no_failure None test_data) ''http://example.org'' None None test_bot
        = (Inr rep, s') \<and> errors rep = [] \<and> success rep)
   \<and> (\<exists>rep s'. run_test (test_env click_fails None test_data) ''http://example.org''
          (Some [[''type'' \<mapsto> PyStr ''click'', ''selector'' \<mapsto> PyStr ''#gone'']]) None test_bot
        = (Inr rep, s')
        \<and> map entry_of (errors rep) = [(''ACTION_ERROR'', Some (PyStr ''click''), ''no element'')]
        \<and> \<not> success rep)
   \<and> (\<exists>rep s'. run_test (test_env no_failure None script_data) ''http://example.org'' None None test_bot
        = (Inr rep, s')
        \<and> map entry_of (errors rep)
            = [(''CRITICAL_ERROR'', None, ''__init__() got an unexpected keyword argument'')]
        \<and> \<not> success rep)"
proof -
  let ?r3 = "run_test (test_env no_failure None script_data) ''http://example.org'' None None test_bot"
  note m3 = run_success_iff_no_errors[of "test_env no_failure None script_data" "''http://example.org''"
              None None test_bot]
  from m3 obtain rep3 s3 where r3: "?r3 = (Inr rep3, s3)" by blast
  with m3 have p3: "rep3 = report s3" "success rep3 = (errors rep3 = [])" by blast+
  have e3: "map entry_of (errors (report (snd ?r3)))
      = [(''CRITICAL_ERROR'', None, ''__init__() got an unexpected keyword argument'')]" by code_simp
  have a3: "map entry_of (errors rep3)
      = [(''CRITICAL_ERROR'', None, ''__init__() got an unexpected keyword argument'')]
      \<and> \<not> success rep3"
    using e3 p3 r3 by auto
  let ?r1 = "run_test (test_env no_failure None test_data) ''http://example.org'' None None test_bot"
  let ?r2 = "run_test (test_env click_fails None test_data) ''http://example.org''
          (Some [[''type'' \<mapsto> PyStr ''click'', ''selector'' \<mapsto> PyStr ''#gone'']]) None test_bot"
  note m1 = run_success_iff_no_errors[of "test_env no_failure None test_data" "''http://example.org''"
              None None test_bot]
  note m2 = run_success_iff_no_errors[of "test_env click_fails None test_data" "''http://example.org''"
              "Some [[''type'' \<mapsto> PyStr ''click'', ''selector'' \<mapsto> PyStr ''#gone'']]" None test_bot]
  from m1 obtain rep1 s1 where r1: "?r1 = (Inr rep1, s1)" by blast
  with m1 have p1: "rep1 = report s1" "success rep1 = (errors rep1 = [])" by blast+
  have e1: "errors (report (snd ?r1)) = []" by code_simp
  from m2 obtain rep2 s2 where r2: "?r2 = (Inr rep2, s2)" by blast
  with m2 have p2: "rep2 = report s2" "success rep2 = (errors rep2 = [])" by blast+
  have e2: "map entry_of (errors (report (snd ?r2)))
      = [(''ACTION_ERROR'', Some (PyStr ''click''), ''no element'')]" by code_simp
  have a1: "errors rep1 = [] \<and> success rep1" using e1 p1 r1 by simp
  have a2: "map entry_of (errors rep2) = [(''ACTION_ERROR'', Some (PyStr ''click''), ''no element'')]
      \<and> \<not> success rep2"
    using e2 p2 r2 by auto
  show ?thesis
  proof (intro conjI)
    show "\<exists>rep s'. ?r1 = (Inr rep, s') \<and> errors rep = [] \<and> success rep"
      using r1 a1 by (intro exI[of _ rep1] exI[of _ s1]) simp
    show "\<exists>rep s'. ?r2 = (Inr rep, s')
        \<and> map entry_of (errors rep) = [(''ACTION_ERROR'', Some (PyStr ''click''), ''no element'')]
        \<and> \<not> success rep"
      using r2 a2 by (intro exI[of _ rep2] exI[of _ s2]) simp
    show "\<exists>rep s'. ?r3 = (Inr rep, s')
        \<and> map entry_of (errors rep)
            = [(''CRITICAL_ERROR'', None, ''__init__() got an unexpected keyword argument'')]
        \<and> \<not> success rep"
      using r3 a3 by (intro exI[of _ rep3] exI[of _ s3]) simp
  qed
qed

subsection \<open>Claim C2\<close>




subsection \<open>Claim C4\<close>

text \<open>
  Claim C4. If the page-introspection call of a run raises \<open>e\<close> (the log of the run has an
  event \<open>analysis_raised e\<close>), the run ends there: the
  report holds exactly one error entry, the critical entry of \<open>e\<close>, and no action result,
  and it is not successful; no call of the automated action or of a custom action is made;
  the page introspection is called once, so there is no retry; and cleanup has run: every
  handle held at the start or acquired since is released and none is held at the end. A
  report that is returned is this report.
\<close>

theorem analysis_failure_is_critical:
  "let s' = snd (run_test env url custom_actions on_update s); tr = new_events s s' in
     list_ex (analysis_raised e) tr \<longrightarrow>
       (\<exists>ts. errors (report s') = [critical_entry e ts])
       \<and> \<not> success (report s') \<and> actions (report s') = []
       \<and> list_all (\<lambda>ev. \<not> action_call ev) tr
       \<and> length (filter analysis_call tr) = 1
       \<and> handle_free s' \<and> releases tr = held s @ rev (acquisitions tr)
       \<and> (\<forall>rep. fst (run_test env url custom_actions on_update s) = Inr rep \<longrightarrow> rep = report s')"
proof -
  let ?s' = "snd (run_test env url custom_actions on_update s)"
  from run_test_outcome[of on_update s env url custom_actions]
  obtain tr where c: "run_closed on_update s ?s' tr" and tr: "new_events s ?s' = tr"
    and out: "case fst (run_test env url custom_actions on_update s) of
                Inr rep \<Rightarrow> rep = report ?s'
              | Inl e \<Rightarrow> (\<exists>u. u_type u = ''error'' \<and> Notify u (Some e) \<in> set tr)"
    by blast
  have "(\<exists>ts. errors (report ?s') = [critical_entry e ts])
       \<and> \<not> success (report ?s') \<and> actions (report ?s') = []
       \<and> list_all (\<lambda>ev. \<not> action_call ev) tr
       \<and> length (filter analysis_call tr) = 1
       \<and> handle_free ?s' \<and> releases tr = held s @ rev (acquisitions tr)
       \<and> (\<forall>rep. fst (run_test env url custom_actions on_update s) = Inr rep \<longrightarrow> rep = report ?s')"
    if ex: "list_ex (analysis_raised e) tr"
  proof -
    from ex obtain p where ev: "Call (Evaluate p AnalyzeScript) (Inl e) \<in> set tr"
      by (rule analysis_raised_event)
    let ?ev = "Call (Evaluate p AnalyzeScript) (Inl e)"

    from c have p: "progress on_update s ?s' tr" and hf: "handle_free ?s'"
      and pa: "passed ?s' tr \<or> (\<exists>e0. aborted e0 ?s' tr)"
      by (simp_all add: run_closed_def)
    have "\<not> passed ?s' tr"
    proof
      assume "passed ?s' tr"
      then have "\<forall>x\<in>set tr. \<not> critical_failure x" by (simp add: passed_def list_all_iff)
      with ev have "\<not> critical_failure ?ev" by blast
      then show False by simp
    qed
    with pa obtain e0 where ab: "aborted e0 ?s' tr" by blast
    then have "\<forall>x\<in>set tr. failed_analysis_is e0 x" by (simp add: aborted_def list_all_iff)
    with ev have "failed_analysis_is e0 ?ev" by blast
    then have e0: "e0 = e" by simp
    have "?ev \<in> set (filter analysis_call tr)" using ev by simp
    then have "filter analysis_call tr \<noteq> []" by (metis empty_iff empty_set)
    then have "0 < length (filter analysis_call tr)" by simp
    moreover have "length (filter analysis_call tr) \<le> 1" using p by (simp add: progress_def)
    ultimately have one: "length (filter analysis_call tr) = 1" by linarith
    have rel: "releases tr = held s @ rev (acquisitions tr)"
      using p hf by (simp add: progress_def)
    show ?thesis
      using ab e0 one hf rel out by (auto simp: aborted_def)
  qed
  then show ?thesis by (simp add: Let_def tr)
qed

text \<open>
  The theorem at a run, without custom actions and without observer, where the page
  introspection raises: one critical entry with the message, no action result, no action
  call, and the four sub-resources acquired are released.
\<close>

theorem analysis_failure_is_critical_witness:
  "list_ex (analysis_raised (OtherError ''TargetClosedError'' ''page closed''))
     (new_events test_bot
        (snd (run_test (test_env analysis_fails None test_data) ''http://example.org'' None None test_bot)))
   \<and> map entry_of (errors (report
        (snd (run_test (test_env analysis_fails None test_data) ''http://example.org'' None None test_bot))))
      = [(''CRITICAL_ERROR'', None, ''page closed'')]
   \<and> \<not> success (report
        (snd (run_test (test_env analysis_fails None test_data) ''http://example.org'' None None test_bot)))
   \<and> actions (report
        (snd (run_test (test_env analysis_fails None test_data) ''http://example.org'' None None test_bot))) = []
   \<and> action_calls (new_events test_bot
        (snd (run_test (test_env analysis_fails None test_data) ''http://example.org'' None None test_bot))) = []
   \<and> releases (new_events test_bot
        (snd (run_test (test_env analysis_fails None test_data) ''http://example.org'' None None test_bot)))
      = [PageClose 4, ContextClose 3, BrowserClose 2, PwStop 1]"
proof -
  let ?s' = "snd (run_test (test_env analysis_fails None test_data) ''http://example.org'' None None test_bot)"
  let ?e = "OtherError ''TargetClosedError'' ''page closed''"
  have ev: "list_ex (analysis_raised ?e) (new_events test_bot ?s')"
    by code_simp
  have calls: "action_calls (new_events test_bot ?s') = []"
    by code_simp
  have acq: "held test_bot @ rev (acquisitions (new_events test_bot ?s'))
      = [PageClose 4, ContextClose 3, BrowserClose 2, PwStop 1]"
    by code_simp
  from analysis_failure_is_critical[of "test_env analysis_fails None test_data" "''http://example.org''"
         None None test_bot ?e] ev
  have main: "(\<exists>ts. errors (report ?s') = [critical_entry ?e ts])"
    "\<not> success (report ?s')" "actions (report ?s') = []"
    "releases (new_events test_bot ?s') = held test_bot @ rev (acquisitions (new_events test_bot ?s'))"
    by (simp_all add: Let_def)
  from main(1) have "map entry_of (errors (report ?s')) = [(''CRITICAL_ERROR'', None, ''page closed'')]"
    by (auto simp: entry_of_def critical_entry_def)
  then show ?thesis
    using ev main(2,3) calls main(4) acq by simp
qed

subsection \<open>Claim C5\<close>

text \<open>
  Claim C5 does not hold as stated: the number of release sequences in a run is not always
  one. \<open>run_test\<close> calls \<open>cleanup\<close> at the start of \<open>initialize\<close>, again in the handler of
  \<open>initialize\<close> when the acquisition fails, and in its \<open>finally\<close> block, and each call
  releases the sub-resources held at that moment. On a bot that holds a session (after a
  call of \<open>initialize\<close>) a run in which no call fails makes the sequence page, context,
  browser, engine twice, once for the session held and once for its own. On a fresh bot
  whose engine fails to start no release call is made at all.
\<close>

theorem cleanup_sequence_count_counterexample:
  "held session_bot = [PageClose 4, ContextClose 3, BrowserClose 2, PwStop 1]
   \<and> releases (new_events session_bot
        (snd (run_test (test_env no_failure None script_data) ''http://example.org'' None None session_bot)))
      = [PageClose 4, ContextClose 3, BrowserClose 2, PwStop 1,
         PageClose 4, ContextClose 3, BrowserClose 2, PwStop 1]
   \<and> releases (new_events test_bot
        (snd (run_test (test_env engine_fails None script_data) ''http://example.org'' None None test_bot)))
      = []"
  by code_simp

text \<open>
  Claim C5, amended. In every run, whatever fails, the release calls made are those of the
  sub-resources held at the start, in the order page, context, browser, engine, followed by
  those of the sub-resources acquired in the run, the last acquired first: every
  sub-resource is released exactly once and none is left, no handle is held at the end. So
  on a bot that holds nothing at the start the releases are exactly those of the
  sub-resources the run has acquired. \<open>cleanup\<close> never raises, and an exception that
  \<open>run_test\<close> raises is one that the observer has raised, never one of a release.
\<close>

theorem cleanup_releases_each_resource_once:
  "let s' = snd (run_test env url custom_actions on_update s); tr = new_events s s' in
     releases tr = held s @ rev (acquisitions tr)
     \<and> handle_free s'
     \<and> (handle_free s \<longrightarrow> releases tr = rev (acquisitions tr))
     \<and> fst (cleanup env s0) = Inr ()
     \<and> (\<forall>e. fst (run_test env url custom_actions on_update s) = Inl e \<longrightarrow>
          (\<exists>u. Notify u (Some e) \<in> set tr))"
proof -
  let ?R = "run_test env url custom_actions on_update s"
  let ?s' = "snd ?R"
  from run_test_outcome[of on_update s env url custom_actions]
  obtain tr where c: "run_closed on_update s ?s' tr" and tr: "new_events s ?s' = tr"
    and out: "case fst ?R of
                Inr rep \<Rightarrow> rep = report ?s'
              | Inl e \<Rightarrow> (\<exists>u. u_type u = ''error'' \<and> Notify u (Some e) \<in> set tr)"
    by blast
  from c have hf: "handle_free ?s'" and p: "progress on_update s ?s' tr"
    by (simp_all add: run_closed_def)
  have rel: "releases tr = held s @ rev (acquisitions tr)"
    using p hf by (simp add: progress_def)
  have fresh: "releases tr = rev (acquisitions tr)" if "handle_free s"
    using rel that by simp
  have rs: "\<exists>u. Notify u (Some e) \<in> set tr" if "fst ?R = Inl e" for e
    using out that by auto
  have cl: "fst (cleanup env s0) = Inr ()" by (simp add: cleanup_eq)
  show ?thesis
    unfolding Let_def tr using rel hf fresh cl rs by blast
qed

text \<open>
  The amended theorem at a run on a fresh bot where no call fails: the four sub-resources
  acquired are released once, in the order page, context, browser, engine.
\<close>

theorem cleanup_releases_each_resource_once_witness:
  "handle_free test_bot
   \<and> releases (new_events test_bot
        (snd (run_test (test_env no_failure None script_data) ''http://example.org'' None None test_bot)))
      = [PageClose 4, ContextClose 3, BrowserClose 2, PwStop 1]
   \<and> handle_free
        (snd (run_test (test_env no_failure None script_data) ''http://example.org'' None None test_bot))"
proof -
  let ?R = "run_test (test_env no_failure None script_data) ''http://example.org'' None None test_bot"
  have hf: "handle_free test_bot" by code_simp
  have acq: "rev (acquisitions (new_events test_bot (snd ?R)))
      = [PageClose 4, ContextClose 3, BrowserClose 2, PwStop 1]"
    by code_simp
  note main = cleanup_releases_each_resource_once[of "test_env no_failure None script_data"
                "''http://example.org''" None None test_bot test_bot, unfolded Let_def]
  from main hf have "releases (new_events test_bot (snd ?R)) = rev (acquisitions (new_events test_bot (snd ?R)))"
    by blast
  moreover from main have "handle_free (snd ?R)" by blast
  ultimately show ?thesis using hf acq by simp
qed

end
